(* ===== verification/Prelude.thy ===== *)
theory Prelude
  imports Main "HOL-Library.Sublist"
begin

text \<open>
  Shared vocabulary of the development: the theorem collections the component
  theories fill and use, the names of the model's string types, the result
  type of a call that may raise, and the facts about lists and sums that
  more than one component needs.

  A Python \<open>str\<close> is modelled by the list of bytes of its UTF-8 encoding
  (\<^typ>\<open>string\<close>). The program only concatenates strings, compares them and
  searches them for two ASCII patterns; UTF-8 encoding is injective and commutes
  with concatenation, so nothing the program computes depends on the difference.
\<close>

section \<open>Theorem collections\<close>

named_theorems msg_defs \<open>the texts of the issue and report messages\<close>
named_theorems prim_defs \<open>the primitives of the runtime interface, to unfold\<close>
named_theorems frame \<open>what an operation leaves unchanged in the world\<close>
named_theorems trace_simps \<open>the events an operation appends to the trace\<close>

section \<open>Types\<close>

type_synonym pystr = string
type_synonym pybytes = string
type_synonym issue = pystr
type_synonym check_result = "bool \<times> issue list"

section \<open>Calls that may raise\<close>

text \<open>
  A value of \<open>'e + 'a\<close> is the outcome of a call: \<open>Inl e\<close> when it raised
  \<open>e\<close>, \<open>Inr x\<close> when it returned \<open>x\<close>. \<open>returned\<close> and \<open>raised\<close> name the two
  cases, \<open>the_result\<close> reads a returned value.
\<close>

definition returned :: "'e + 'a \<Rightarrow> bool" where
  "returned r = (case r of Inl _ \<Rightarrow> False | Inr _ \<Rightarrow> True)"

definition raised :: "'e + 'a \<Rightarrow> bool" where
  "raised r = (case r of Inl _ \<Rightarrow> True | Inr _ \<Rightarrow> False)"

lemma returned_simps [simp]:
  "returned (Inr x)" "\<not> returned (Inl e)"
  by (simp_all add: returned_def)

lemma raised_simps [simp]:
  "raised (Inl e)" "\<not> raised (Inr x)"
  by (simp_all add: raised_def)

lemma raised_iff_not_returned: "raised r \<longleftrightarrow> \<not> returned r"
  by (cases r) simp_all

lemma returnedE:
  assumes "returned r"
  obtains x where "r = Inr x"
  using assms by (cases r) simp_all

lemma raisedE:
  assumes "raised r"
  obtains e where "r = Inl e"
  using assms by (cases r) simp_all

text \<open>The value a call returned, and \<open>d\<close> when it raised.\<close>

fun result_or :: "'a \<Rightarrow> 'e + 'a \<Rightarrow> 'a" where
  "result_or d (Inl e) = d"
| "result_or d (Inr x) = x"

lemma returned_result_or: "returned r \<Longrightarrow> r = Inr (result_or d r)"
  by (cases r) simp_all

text \<open>
  A call that may raise and that changes a state returns its outcome and the new
  state. \<open>and_then m k\<close> is the next statement \<open>k\<close> after the call \<open>m\<close>: it runs
  on the value \<open>m\<close> returned, in the state \<open>m\<close> left; when \<open>m\<close> raised, the
  exception passes through, with the state at the point of the raise.
\<close>

definition and_then ::
  "('e + 'a) \<times> 's \<Rightarrow> ('a \<Rightarrow> 's \<Rightarrow> ('e + 'b) \<times> 's) \<Rightarrow> ('e + 'b) \<times> 's" where
  "and_then m k = (case m of (Inl e, s) \<Rightarrow> (Inl e, s) | (Inr x, s) \<Rightarrow> k x s)"

lemma and_then_simps [simp]:
  "and_then (Inl e, s) k = (Inl e, s)"
  "and_then (Inr x, s) k = k x s"
  by (simp_all add: and_then_def)

lemma and_then_cases:
  obtains (raises) e where "fst m = Inl e" "and_then m k = (Inl e, snd m)"
  | (returns) x where "fst m = Inr x" "and_then m k = k x (snd m)"
  by (cases m; cases "fst m") (auto simp: and_then_def)

lemma and_then_return [simp]: "and_then m (\<lambda>x s. (Inr x, s)) = m"
  by (cases m; cases "fst m") (auto simp: and_then_def)

lemma and_then_assoc:
  "and_then (and_then m k) h = and_then m (\<lambda>x s. and_then (k x s) h)"
  by (cases m; cases "fst m") (auto simp: and_then_def)

text \<open>
  Two results that are lists, one after the other: the first exception wins,
  and with none the lists are appended.
\<close>

fun append_raising :: "'e + 'a list \<Rightarrow> 'e + 'a list \<Rightarrow> 'e + 'a list" where
  "append_raising (Inl e) r = Inl e"
| "append_raising (Inr xs) (Inl e) = Inl e"
| "append_raising (Inr xs) (Inr ys) = Inr (xs @ ys)"

lemma append_raising_Nil [simp]:
  "append_raising (Inr []) r = r" "append_raising r (Inr []) = r"
  by (cases r; simp)+

lemma append_raising_assoc:
  "append_raising (append_raising a b) c = append_raising a (append_raising b c)"
  by (cases a; cases b; cases c) simp_all

lemma returned_append_raising [simp]:
  "returned (append_raising a b) \<longleftrightarrow> returned a \<and> returned b"
  by (cases a; cases b) simp_all

lemma append_raising_eq_Inr_iff:
  "append_raising a b = Inr zs \<longleftrightarrow> (\<exists>xs ys. a = Inr xs \<and> b = Inr ys \<and> zs = xs @ ys)"
  by (cases a; cases b) auto

section \<open>Lists\<close>

lemma length_concat_map_le:
  assumes "\<And>x. x \<in> set xs \<Longrightarrow> length (f x) \<le> k"
  shows "length (concat (map f xs)) \<le> k * length xs"
  using assms
proof (induction xs)
  case Nil
  show ?case by simp
next
  case (Cons x xs)
  have "length (f x) \<le> k" by (rule Cons.prems) simp
  moreover have "length (concat (map f xs)) \<le> k * length xs"
    by (rule Cons.IH) (simp add: Cons.prems)
  ultimately show ?case by simp
qed

lemma concat_map_eq_Nil_iff:
  "concat (map f xs) = [] \<longleftrightarrow> (\<forall>x \<in> set xs. f x = [])"
  by (induction xs) auto

lemma prefix_append_same [simp]: "prefix p (p @ s)"
  by (simp add: prefix_def)

lemma sublist_Cons_rightI: "sublist p s \<Longrightarrow> sublist p (c # s)"
  by (simp add: sublist_Cons_right)

lemma sublist_append_leftI2: "sublist p s \<Longrightarrow> sublist p (a @ s)"
  by (induction a) (simp_all add: sublist_Cons_rightI)

lemma sublist_append_rightI2: "sublist p s \<Longrightarrow> sublist p (s @ b)"
  by (metis sublist_append sublist_def)

end
