(* ===== verification/World.thy ===== *)
theory World
  imports Prelude
begin

text \<open>
  The runtime interface of the script: what the operating system and the
  Python runtime answer when the script calls them, and the record of the calls
  it made. The script never computes these answers, so they are data of the
  model: a \<open>world\<close> holds, for every path string, the outcome of \<open>os.stat\<close>
  and the outcome of opening and reading the file, and says which lines the
  encoder of \<open>sys.stdout\<close> accepts. Each primitive below is one library call of
  \<open>check_env_files.py\<close>; it returns its outcome together with the world in
  which the call is recorded as an event of the trace.

  Standard output, standard error and the set of open files are not fields of
  their own: they are read off the trace (\<open>stdout_of\<close>, \<open>stderr_of\<close>,
  \<open>open_files\<close>), so that claims about the order of effects and claims about
  their sum talk about the same thing.
\<close>

section \<open>Exceptions\<close>

text \<open>
  \<open>OSError\<close> stands for the whole family the file system raises
  (\<open>PermissionError\<close>, \<open>IsADirectoryError\<close>, ...); the argument is \<open>str(e)\<close>,
  the only thing the script reads from an exception (line 40).
\<close>

datatype exn = OSError pystr | UnicodeEncodeError pystr

fun exn_str :: "exn \<Rightarrow> pystr" where
  "exn_str (OSError m) = m"
| "exn_str (UnicodeEncodeError m) = m"

type_synonym 'a raising = "exn + 'a"

section \<open>Answers of the file system\<close>

text \<open>
  \<open>os.stat\<close> on a path, as \<open>pathlib\<close> reads it: \<open>NoEntry\<close> is a failure that
  \<open>Path.exists\<close> and \<open>Path.is_dir\<close> turn into \<open>False\<close> (ENOENT, ENOTDIR, EBADF,
  ELOOP), \<open>StatFails\<close> any other \<open>OSError\<close>, which they raise again (Python up
  to 3.13; from 3.14 on every failure is a \<open>NoEntry\<close>). \<open>IsFile\<close> is anything
  that exists and is not a directory.
\<close>

datatype stat_result = NoEntry | StatFails exn | IsDir | IsFile

text \<open>
  Opening a path for reading and reading all of it: the open fails, the open
  succeeds and the read fails, or the read yields the bytes of the file.
\<close>

datatype file_io = OpenFails exn | ReadFails exn | Bytes pybytes

section \<open>Events and the world\<close>

datatype stream = Stdout | Stderr

text \<open>
  What \<open>argparse\<close> writes before it leaves the process: the help message (on
  standard output) or the usage line with one of its three errors (on standard
  error). The text it formats depends on the name of the program and on the
  width of the terminal and is not part of the model.
\<close>

datatype usage_msg =
    HelpMessage
  | ArgumentsRequired
  | UnrecognizedArguments "pystr list"
  | IgnoredExplicitArgument pystr

datatype event =
    EvStat pystr
  | EvOpen pystr
  | EvOpenFailed pystr
  | EvRead pystr
  | EvClose pystr
  | EvPrint stream pystr
  | EvUncaught exn
  | EvUsage usage_msg

record world =
  stat_of :: "pystr \<Rightarrow> stat_result"
  data_of :: "pystr \<Rightarrow> file_io"
  stdout_accepts :: "pystr \<Rightarrow> bool"
  trace :: "event list"

text \<open>
  \<open>log w es\<close> is the world \<open>w\<close> after the events \<open>es\<close>: they are appended to
  the trace, and no answer changes.
\<close>

definition log :: "world \<Rightarrow> event list \<Rightarrow> world" where
  "log w es = w\<lparr>trace := trace w @ es\<rparr>"

abbreviation emit :: "event \<Rightarrow> world \<Rightarrow> world" where
  "emit e w \<equiv> log w [e]"

text \<open>Two worlds with the same answers: only their traces may differ.\<close>

definition same_env :: "world \<Rightarrow> world \<Rightarrow> bool" where
  "same_env w w' \<longleftrightarrow>
     stat_of w' = stat_of w \<and> data_of w' = data_of w \<and> stdout_accepts w' = stdout_accepts w"

section \<open>What the trace says\<close>

text \<open>
  The lines \<open>print\<close> wrote to a stream. What \<open>argparse\<close> writes is the event
  \<open>EvUsage\<close> and is not among them.
\<close>

fun printed :: "stream \<Rightarrow> event list \<Rightarrow> pystr list" where
  "printed s [] = []"
| "printed s (EvPrint s' l # es) = (if s' = s then l # printed s es else printed s es)"
| "printed s (_ # es) = printed s es"

definition stdout_of :: "world \<Rightarrow> pystr list" where
  "stdout_of w = printed Stdout (trace w)"

definition stderr_of :: "world \<Rightarrow> pystr list" where
  "stderr_of w = printed Stderr (trace w)"

fun fd_step :: "event \<Rightarrow> pystr list \<Rightarrow> pystr list" where
  "fd_step (EvOpen p) fds = p # fds"
| "fd_step (EvClose p) fds = remove1 p fds"
| "fd_step _ fds = fds"

definition open_after :: "event list \<Rightarrow> pystr list \<Rightarrow> pystr list" where
  "open_after es fds = fold fd_step es fds"

definition open_files :: "world \<Rightarrow> pystr list" where
  "open_files w = open_after (trace w) []"

text \<open>The events of \<open>w'\<close> that came after those of \<open>w\<close>.\<close>

definition new_events :: "world \<Rightarrow> world \<Rightarrow> event list" where
  "new_events w w' = drop (length (trace w)) (trace w')"

text \<open>What \<open>os.stat\<close> says of a path: it is there, it is a directory.\<close>

definition exists_at :: "world \<Rightarrow> pystr \<Rightarrow> bool" where
  "exists_at w p \<longleftrightarrow> stat_of w p = IsDir \<or> stat_of w p = IsFile"

definition is_dir_at :: "world \<Rightarrow> pystr \<Rightarrow> bool" where
  "is_dir_at w p \<longleftrightarrow> stat_of w p = IsDir"

definition stat_raises :: "world \<Rightarrow> pystr \<Rightarrow> bool" where
  "stat_raises w p \<longleftrightarrow> (case stat_of w p of StatFails e \<Rightarrow> True | _ \<Rightarrow> False)"

text \<open>
  A world given by two tables, with an empty trace and a standard output that
  accepts every line: a path that the first table does not list does not exist,
  and one that the second does not list cannot be opened.
\<close>

definition mk_world :: "(pystr \<times> stat_result) list \<Rightarrow> (pystr \<times> file_io) list \<Rightarrow> world" where
  "mk_world stats files =
     \<lparr>stat_of = (\<lambda>p. case map_of stats p of None \<Rightarrow> NoEntry | Some st \<Rightarrow> st),
      data_of = (\<lambda>p. case map_of files p of
                         None \<Rightarrow> OpenFails (OSError ''No such file or directory'')
                       | Some io \<Rightarrow> io),
      stdout_accepts = (\<lambda>line. True),
      trace = []\<rparr>"

section \<open>The library calls\<close>

definition os_stat :: "world \<Rightarrow> pystr \<Rightarrow> stat_result \<times> world" where
  "os_stat w p = (stat_of w p, emit (EvStat p) w)"

definition path_exists :: "world \<Rightarrow> pystr \<Rightarrow> bool raising \<times> world" where
  "path_exists w p =
     (case os_stat w p of
        (NoEntry, w') \<Rightarrow> (Inr False, w')
      | (StatFails e, w') \<Rightarrow> (Inl e, w')
      | (IsDir, w') \<Rightarrow> (Inr True, w')
      | (IsFile, w') \<Rightarrow> (Inr True, w'))"

definition path_is_dir :: "world \<Rightarrow> pystr \<Rightarrow> bool raising \<times> world" where
  "path_is_dir w p =
     (case os_stat w p of
        (NoEntry, w') \<Rightarrow> (Inr False, w')
      | (StatFails e, w') \<Rightarrow> (Inl e, w')
      | (IsDir, w') \<Rightarrow> (Inr True, w')
      | (IsFile, w') \<Rightarrow> (Inr False, w'))"

definition py_open :: "world \<Rightarrow> pystr \<Rightarrow> unit raising \<times> world" where
  "py_open w p =
     (case data_of w p of
        OpenFails e \<Rightarrow> (Inl e, emit (EvOpenFailed p) w)
      | ReadFails e \<Rightarrow> (Inr (), emit (EvOpen p) w)
      | Bytes bs \<Rightarrow> (Inr (), emit (EvOpen p) w))"

definition py_read :: "world \<Rightarrow> pystr \<Rightarrow> pybytes raising \<times> world" where
  "py_read w p =
     (case data_of w p of
        OpenFails e \<Rightarrow> (Inl e, emit (EvRead p) w)
      | ReadFails e \<Rightarrow> (Inl e, emit (EvRead p) w)
      | Bytes bs \<Rightarrow> (Inr bs, emit (EvRead p) w))"

definition py_close :: "world \<Rightarrow> pystr \<Rightarrow> world" where
  "py_close w p = emit (EvClose p) w"

definition py_print :: "world \<Rightarrow> stream \<Rightarrow> pystr \<Rightarrow> unit raising \<times> world" where
  "py_print w s line =
     (if s = Stdout \<and> \<not> stdout_accepts w line
      then (Inl (UnicodeEncodeError line), w)
      else (Inr (), emit (EvPrint s line) w))"

lemmas [prim_defs] =
  os_stat_def path_exists_def path_is_dir_def py_open_def py_read_def py_close_def
  py_print_def

section \<open>Facts about the projections\<close>

lemma printed_append [simp]: "printed s (es @ fs) = printed s es @ printed s fs"
  by (induction s es rule: printed.induct) simp_all

lemma open_after_append [simp]:
  "open_after (es @ fs) fds = open_after fs (open_after es fds)"
  by (simp add: open_after_def)

lemma open_after_simps [simp]:
  "open_after [] fds = fds"
  "open_after (e # es) fds = open_after es (fd_step e fds)"
  by (simp_all add: open_after_def)

lemma log_fields [simp]:
  "stat_of (log w es) = stat_of w"
  "data_of (log w es) = data_of w"
  "stdout_accepts (log w es) = stdout_accepts w"
  "trace (log w es) = trace w @ es"
  by (simp_all add: log_def)

lemma log_Nil [simp]: "log w [] = w"
  by (simp add: log_def)

lemma log_log [simp]: "log (log w es) fs = log w (es @ fs)"
  by (simp add: log_def)

lemma log_eq_iff [simp]: "log w es = log w fs \<longleftrightarrow> es = fs"
proof
  assume "log w es = log w fs"
  then have "trace (log w es) = trace (log w fs)" by simp
  then show "es = fs" by simp
qed simp

lemma stdout_of_log [simp]: "stdout_of (log w es) = stdout_of w @ printed Stdout es"
  by (simp add: stdout_of_def)

lemma stderr_of_log [simp]: "stderr_of (log w es) = stderr_of w @ printed Stderr es"
  by (simp add: stderr_of_def)

lemma open_files_log [simp]: "open_files (log w es) = open_after es (open_files w)"
  by (simp add: open_files_def)

lemma new_events_log [simp]: "new_events w (log w es) = es"
  by (simp add: new_events_def)

lemma same_env_refl [simp, frame]: "same_env w w"
  by (simp add: same_env_def)

lemma same_env_trans [trans]: "same_env w w' \<Longrightarrow> same_env w' w'' \<Longrightarrow> same_env w w''"
  by (simp add: same_env_def)

lemma same_env_sym: "same_env w w' \<Longrightarrow> same_env w' w"
  by (simp add: same_env_def)

lemma same_env_log [simp, frame]: "same_env w (log w es)"
  by (simp add: same_env_def)

lemma same_env_log_left [simp]: "same_env (log w es) w' \<longleftrightarrow> same_env w w'"
  by (simp add: same_env_def)

lemma same_env_log_right [simp]: "same_env w (log w' es) \<longleftrightarrow> same_env w w'"
  by (simp add: same_env_def)

lemma same_env_fields:
  assumes "same_env w w'"
  shows "stat_of w' = stat_of w" "data_of w' = data_of w" "stdout_accepts w' = stdout_accepts w"
  using assms by (simp_all add: same_env_def)

section \<open>Each library call is an answer and the events it logs\<close>

lemma os_stat_eq [trace_simps]: "os_stat w p = (stat_of w p, log w [EvStat p])"
  by (simp add: os_stat_def)

definition exists_answer :: "stat_result \<Rightarrow> bool raising" where
  "exists_answer st = (case st of NoEntry \<Rightarrow> Inr False | StatFails e \<Rightarrow> Inl e | _ \<Rightarrow> Inr True)"

definition is_dir_answer :: "stat_result \<Rightarrow> bool raising" where
  "is_dir_answer st = (case st of StatFails e \<Rightarrow> Inl e | IsDir \<Rightarrow> Inr True | _ \<Rightarrow> Inr False)"

lemma exists_answer_simps [simp]:
  "exists_answer NoEntry = Inr False"
  "exists_answer (StatFails e) = Inl e"
  "exists_answer IsDir = Inr True"
  "exists_answer IsFile = Inr True"
  by (simp_all add: exists_answer_def)

lemma is_dir_answer_simps [simp]:
  "is_dir_answer NoEntry = Inr False"
  "is_dir_answer (StatFails e) = Inl e"
  "is_dir_answer IsDir = Inr True"
  "is_dir_answer IsFile = Inr False"
  by (simp_all add: is_dir_answer_def)

lemma path_exists_eq [trace_simps]:
  "path_exists w p = (exists_answer (stat_of w p), log w [EvStat p])"
  by (simp add: path_exists_def os_stat_def split: stat_result.splits)

lemma path_is_dir_eq [trace_simps]:
  "path_is_dir w p = (is_dir_answer (stat_of w p), log w [EvStat p])"
  by (simp add: path_is_dir_def os_stat_def split: stat_result.splits)

lemma is_dir_implies_exists:
  "is_dir_answer st = Inr True \<Longrightarrow> exists_answer st = Inr True"
  by (cases st) simp_all

lemma exists_answer_iff [simp]:
  "exists_answer (stat_of w p) = Inr True \<longleftrightarrow> exists_at w p"
  "exists_answer (stat_of w p) = Inr False \<longleftrightarrow> stat_of w p = NoEntry"
  "raised (exists_answer (stat_of w p)) \<longleftrightarrow> stat_raises w p"
  by (cases "stat_of w p"; simp add: exists_at_def stat_raises_def)+

lemma is_dir_answer_iff [simp]:
  "is_dir_answer (stat_of w p) = Inr True \<longleftrightarrow> is_dir_at w p"
  "raised (is_dir_answer (stat_of w p)) \<longleftrightarrow> stat_raises w p"
  by (cases "stat_of w p"; simp add: is_dir_at_def stat_raises_def)+

lemma is_dir_at_exists_at: "is_dir_at w p \<Longrightarrow> exists_at w p"
  by (simp add: is_dir_at_def exists_at_def)

lemma stat_cases:
  obtains (absent) "stat_of w p = NoEntry"
  | (raises) e where "stat_of w p = StatFails e"
  | (dir) "stat_of w p = IsDir"
  | (other) "stat_of w p = IsFile"
  by (cases "stat_of w p") auto

lemma stat_at_log [simp]:
  "exists_at (log w es) p = exists_at w p"
  "is_dir_at (log w es) p = is_dir_at w p"
  "stat_raises (log w es) p = stat_raises w p"
  by (simp_all add: exists_at_def is_dir_at_def stat_raises_def)

lemma mk_world_fields [simp]:
  "stat_of (mk_world stats files) p = (case map_of stats p of None \<Rightarrow> NoEntry | Some st \<Rightarrow> st)"
  "data_of (mk_world stats files) p =
     (case map_of files p of
        None \<Rightarrow> OpenFails (OSError ''No such file or directory'')
      | Some io \<Rightarrow> io)"
  "stdout_accepts (mk_world stats files) line"
  "trace (mk_world stats files) = []"
  by (simp_all add: mk_world_def)

lemmas stat_at_defs = exists_at_def is_dir_at_def stat_raises_def

lemma py_print_stderr [simp]:
  "py_print w Stderr line = (Inr (), log w [EvPrint Stderr line])"
  by (simp add: py_print_def)

lemma py_print_stdout_ok [simp]:
  "stdout_accepts w line \<Longrightarrow> py_print w Stdout line = (Inr (), log w [EvPrint Stdout line])"
  by (simp add: py_print_def)

lemma py_print_stdout_raises [simp]:
  "\<not> stdout_accepts w line \<Longrightarrow> py_print w Stdout line = (Inl (UnicodeEncodeError line), w)"
  by (simp add: py_print_def)

end
