(* ===== verification/PathLib.thy ===== *)
theory PathLib
  imports Prelude
begin

text \<open>
  The three operations of \<open>pathlib\<close> the script uses, as an interface, and the
  POSIX flavour as one implementation of it.

  \<^item> \<open>make_path L s\<close> is \<open>Path(s)\<close> (line 67),
  \<^item> \<open>truediv L p name\<close> is \<open>p / name\<close> (lines 52 and 76),
  \<^item> \<open>fspath L p\<close> is \<open>str(p)\<close>: what an f-string prints (lines 26, 34, 37, 40)
    and what \<open>exists\<close>, \<open>is_dir\<close> and \<open>open\<close> hand to the operating system.

  The components are written against the record \<open>'p pathlib\<close> and never look
  inside a path, so their theorems hold for every flavour; \<open>posix\<close> follows
  \<open>PurePosixPath\<close> (split at \<open>/\<close>, drop empty and \<open>.\<close> components, keep \<open>..\<close>,
  a root of one slash, or of two when the string starts with exactly two) and
  makes the definitions executable on concrete paths. The Windows flavour is in
  \<open>WinPath\<close>.
\<close>

section \<open>The interface\<close>

record 'p pathlib =
  make_path :: "pystr \<Rightarrow> 'p"
  truediv :: "'p \<Rightarrow> pystr \<Rightarrow> 'p"
  fspath :: "'p \<Rightarrow> pystr"

section \<open>Splitting and joining at a separator\<close>

fun split_on :: "'a \<Rightarrow> 'a list \<Rightarrow> 'a list list" where
  "split_on sep [] = [[]]"
| "split_on sep (c # cs) =
     (if c = sep then [] # split_on sep cs
      else (case split_on sep cs of
              [] \<Rightarrow> [[c]]
            | x # xs \<Rightarrow> (c # x) # xs))"

fun join_with :: "'a \<Rightarrow> 'a list list \<Rightarrow> 'a list" where
  "join_with sep [] = []"
| "join_with sep [x] = x"
| "join_with sep (x # y # ys) = x @ sep # join_with sep (y # ys)"

section \<open>The POSIX flavour\<close>

datatype posix_path = PosixPath (anchor: pystr) (names: "pystr list")

abbreviation slash :: char where
  "slash \<equiv> CHR ''/''"

abbreviation backslash :: char where
  "backslash \<equiv> CHR 0x5C"

definition splitroot :: "pystr \<Rightarrow> pystr \<times> pystr" where
  "splitroot s =
     (let n = length (takeWhile (\<lambda>c. c = slash) s); rel = dropWhile (\<lambda>c. c = slash) s
      in if n = 0 then ([], s) else if n = 2 then (''//'', rel) else (''/'', rel))"

definition keeps :: "pystr \<Rightarrow> bool" where
  "keeps x \<longleftrightarrow> x \<noteq> [] \<and> x \<noteq> ''.''"

definition posix_parse :: "pystr \<Rightarrow> posix_path" where
  "posix_parse s =
     (case splitroot s of (root, rel) \<Rightarrow> PosixPath root (filter keeps (split_on slash rel)))"

definition posix_truediv :: "posix_path \<Rightarrow> pystr \<Rightarrow> posix_path" where
  "posix_truediv p key =
     (let q = posix_parse key
      in if anchor q \<noteq> [] then q else PosixPath (anchor p) (names p @ names q))"

definition posix_str :: "posix_path \<Rightarrow> pystr" where
  "posix_str p =
     (let s = anchor p @ join_with slash (names p) in if s = [] then ''.'' else s)"

definition posix :: "posix_path pathlib" where
  "posix = \<lparr>make_path = posix_parse, truediv = posix_truediv, fspath = posix_str\<rparr>"

text \<open>
  A well-formed path, stated without the parser: the anchor is none, one slash
  or two, and every name is a string that is not empty, is not \<open>.\<close> and holds
  no slash.
\<close>

definition wf_name :: "pystr \<Rightarrow> bool" where
  "wf_name x \<longleftrightarrow> x \<noteq> [] \<and> x \<noteq> ''.'' \<and> slash \<notin> set x"

definition wf_path :: "posix_path \<Rightarrow> bool" where
  "wf_path p \<longleftrightarrow> anchor p \<in> {[], ''/'', ''//''} \<and> list_all wf_name (names p)"

text \<open>The equations that evaluate the POSIX flavour on a concrete path.\<close>

lemmas posix_eval =
  posix_def posix_parse_def posix_truediv_def posix_str_def splitroot_def keeps_def Let_def

lemma posix_fields:
  "make_path posix = posix_parse" "truediv posix = posix_truediv" "fspath posix = posix_str"
  by (simp_all add: posix_def)

section \<open>Splitting and joining\<close>

lemma split_on_not_Nil [simp]: "split_on sep s \<noteq> []"
  by (induction s) (auto split: list.splits)

lemma hd_tl_split_on [simp]: "hd (split_on sep s) # tl (split_on sep s) = split_on sep s"
  by simp

lemma split_on_Cons_sep [simp]: "split_on sep (sep # cs) = [] # split_on sep cs"
  by simp

lemma split_on_Cons_other [simp]:
  "c \<noteq> sep \<Longrightarrow> split_on sep (c # cs) = (c # hd (split_on sep cs)) # tl (split_on sep cs)"
  by (cases "split_on sep cs") simp_all

declare split_on.simps(2) [simp del]

lemma join_with_Cons:
  "xs \<noteq> [] \<Longrightarrow> join_with sep (x # xs) = x @ sep # join_with sep xs"
  by (cases xs) simp_all

lemma join_with_Cons_hd:
  "xs \<noteq> [] \<Longrightarrow> join_with sep ((c # hd xs) # tl xs) = c # join_with sep xs"
  by (cases xs; cases "tl xs") auto

lemma join_split_on [simp]: "join_with sep (split_on sep s) = s"
proof (induction s)
  case Nil
  show ?case by simp
next
  case (Cons c cs)
  show ?case
  proof (cases "c = sep")
    case True
    with Cons show ?thesis by (simp add: join_with_Cons)
  next
    case False
    with Cons show ?thesis by (simp add: join_with_Cons_hd)
  qed
qed

lemma split_on_no_sep: "sep \<notin> set s \<Longrightarrow> split_on sep s = [s]"
  by (induction s) auto

lemma split_on_append_sep:
  "sep \<notin> set x \<Longrightarrow> split_on sep (x @ sep # s) = x # split_on sep s"
  by (induction x) auto

lemma split_join_with:
  assumes "xs \<noteq> []" and "\<forall>x \<in> set xs. sep \<notin> set x"
  shows "split_on sep (join_with sep xs) = xs"
  using assms
proof (induction xs rule: join_with.induct)
  case (1 sep)
  then show ?case by simp
next
  case (2 sep x)
  then show ?case by (simp add: split_on_no_sep)
next
  case (3 sep x y ys)
  then show ?case by (simp add: split_on_append_sep)
qed

lemma set_split_on_no_sep: "x \<in> set (split_on sep s) \<Longrightarrow> sep \<notin> set x"
proof (induction s arbitrary: x)
  case Nil
  then show ?case by simp
next
  case (Cons c cs)
  show ?case
  proof (cases "c = sep")
    case True
    with Cons show ?thesis by auto
  next
    case False
    with Cons.prems have "x = c # hd (split_on sep cs) \<or> x \<in> set (tl (split_on sep cs))"
      by simp
    moreover have "hd (split_on sep cs) \<in> set (split_on sep cs)"
      by simp
    moreover have "set (tl (split_on sep cs)) \<subseteq> set (split_on sep cs)"
      by (cases "split_on sep cs") auto
    ultimately show ?thesis using False Cons.IH by auto
  qed
qed

lemma Union_split_on: "\<Union> (set ` set (split_on sep s)) \<subseteq> set s"
proof (induction s)
  case Nil
  show ?case by simp
next
  case (Cons c cs)
  obtain y ys where "split_on sep cs = y # ys"
    by (cases "split_on sep cs") simp_all
  with Cons show ?case by (cases "c = sep") auto
qed

lemma set_split_on_subset: "x \<in> set (split_on sep s) \<Longrightarrow> set x \<subseteq> set s"
  using Union_split_on [of sep s] by auto

lemma split_on_map:
  assumes "\<forall>c \<in> set s. f c = f sep \<longrightarrow> c = sep"
  shows "split_on (f sep) (map f s) = map (map f) (split_on sep s)"
  using assms
proof (induction s)
  case Nil
  show ?case by simp
next
  case (Cons c cs)
  then show ?case by (cases "c = sep") (auto simp: hd_map map_tl)
qed

lemma join_with_eq_Nil_iff: "join_with sep xs = [] \<longleftrightarrow> xs = [] \<or> xs = [[]]"
  by (cases "(sep, xs)" rule: join_with.cases) simp_all

lemma join_with_map: "map f (join_with sep xs) = join_with (f sep) (map (map f) xs)"
  by (induction xs rule: join_with.induct) simp_all

lemma set_join_with_subset: "set (join_with sep xs) \<subseteq> insert sep (\<Union> (set ` set xs))"
  by (induction xs rule: join_with.induct) auto

section \<open>Parsing and printing\<close>

lemma splitroot_anchor: "fst (splitroot s) \<in> {[], ''/'', ''//''}"
  by (simp add: splitroot_def Let_def)

lemma splitroot_no_slash: "s = [] \<or> hd s \<noteq> slash \<Longrightarrow> splitroot s = ([], s)"
  by (cases s) (auto simp: splitroot_def)

lemma splitroot_one: "s = [] \<or> hd s \<noteq> slash \<Longrightarrow> splitroot (slash # s) = (''/'', s)"
  by (cases s) (auto simp: splitroot_def)

lemma splitroot_two:
  "s = [] \<or> hd s \<noteq> slash \<Longrightarrow> splitroot (slash # slash # s) = (''//'', s)"
  by (cases s) (auto simp: splitroot_def)

lemma splitroot_anchor_append:
  assumes "a \<in> {[], ''/'', ''//''}" and "s = [] \<or> hd s \<noteq> slash"
  shows "splitroot (a @ s) = (a, s)"
  using assms by (auto simp: splitroot_no_slash splitroot_one splitroot_two)

lemma names_posix_parse_wf: "list_all wf_name (names (posix_parse s))"
  by (auto simp: posix_parse_def wf_name_def keeps_def list_all_iff split: prod.splits
      dest: set_split_on_no_sep)

lemma filter_keeps_wf: "list_all wf_name xs \<Longrightarrow> filter keeps xs = xs"
  by (induction xs) (simp_all add: wf_name_def keeps_def)

lemma hd_join_with_wf:
  assumes "list_all wf_name xs"
  shows "join_with slash xs = [] \<or> hd (join_with slash xs) \<noteq> slash"
proof (cases xs)
  case Nil
  then show ?thesis by simp
next
  case (Cons x ys)
  with assms obtain c cs where "x = c # cs" "c \<noteq> slash"
    by (cases x) (auto simp: wf_name_def keeps_def)
  with Cons show ?thesis by (cases ys) simp_all
qed

lemma join_with_eq_Nil_wf: "list_all wf_name xs \<Longrightarrow> join_with slash xs = [] \<longleftrightarrow> xs = []"
  by (cases xs; cases "tl xs") (auto simp: wf_name_def keeps_def)

lemma split_join_wf:
  assumes "list_all wf_name xs"
  shows "filter keeps (split_on slash (join_with slash xs)) = (xs :: pystr list)"
proof (cases "xs = []")
  case True
  then show ?thesis by (simp add: keeps_def)
next
  case False
  from assms have "\<forall>x \<in> set xs. slash \<notin> set x" by (simp add: wf_name_def list_all_iff)
  with False have "split_on slash (join_with slash xs) = xs" by (rule split_join_with)
  with assms show ?thesis by (simp add: filter_keeps_wf)
qed

lemma join_with_snoc:
  "xs \<noteq> [] \<Longrightarrow> join_with sep (xs @ [x]) = join_with sep xs @ sep # x"
  by (induction xs rule: join_with.induct) simp_all

lemma join_with_snoc_not_Nil: "x \<noteq> [] \<Longrightarrow> join_with sep (xs @ [x]) \<noteq> []"
  by (cases "xs = []") (simp_all add: join_with_snoc)

lemma posix_parse_dot: "posix_parse ''.'' = PosixPath [] []"
  by (simp add: posix_eval)

lemma posix_parse_name: "wf_name x \<Longrightarrow> posix_parse x = PosixPath [] [x]"
proof -
  assume x: "wf_name x"
  then have "x = [] \<or> hd x \<noteq> slash" by (cases x) (auto simp: wf_name_def)
  then have "splitroot x = ([], x)" by (rule splitroot_no_slash)
  with x show ?thesis by (simp add: posix_parse_def wf_name_def keeps_def split_on_no_sep)
qed

section \<open>Parsing is well-formed and inverts printing\<close>

lemma wf_posix_parse: "wf_path (posix_parse s)"
proof -
  have "anchor (posix_parse s) = fst (splitroot s)"
    by (simp add: posix_parse_def split: prod.splits)
  then show ?thesis
    using splitroot_anchor [of s] by (simp add: wf_path_def names_posix_parse_wf)
qed

lemma posix_parse_posix_str:
  assumes "wf_path p"
  shows "posix_parse (posix_str p) = p"
proof (cases "anchor p = [] \<and> names p = []")
  case True
  then have "posix_str p = ''.''" by (simp add: posix_str_def)
  with True show ?thesis by (cases p) (simp add: posix_parse_dot)
next
  case False
  from assms have a: "anchor p \<in> {[], ''/'', ''//''}" and n: "list_all wf_name (names p)"
    by (simp_all add: wf_path_def)
  from False n have "anchor p @ join_with slash (names p) \<noteq> []"
    by (simp add: join_with_eq_Nil_wf)
  then have "posix_str p = anchor p @ join_with slash (names p)"
    by (simp add: posix_str_def)
  moreover have "splitroot (anchor p @ join_with slash (names p)) =
      (anchor p, join_with slash (names p))"
    using a hd_join_with_wf [OF n] by (rule splitroot_anchor_append)
  ultimately show ?thesis
    using n by (cases p) (simp add: posix_parse_def split_join_wf)
qed

lemma wf_posix_truediv:
  assumes "wf_path p"
  shows "wf_path (posix_truediv p key)"
  using assms wf_posix_parse [of key]
  by (auto simp: posix_truediv_def wf_path_def Let_def)

text \<open>
  C29. Well-formedness is an invariant of the paths of the POSIX flavour:
  \<open>Path(s)\<close> is well-formed for every string (the anchor is none, one slash or
  two, and every name is non-empty, is not \<open>.\<close> and holds no slash), and
  \<open>p / key\<close> of a well-formed path is well-formed for every string \<open>key\<close>.
\<close>

theorem posix_parse_wf:
  "wf_path (make_path posix s) \<and> (wf_path p \<longrightarrow> wf_path (truediv posix p key))"
  by (simp add: posix_def wf_posix_parse wf_posix_truediv)

theorem posix_parse_wf_witness:
  "wf_path (make_path posix ''/opt//./env/'') \<and>
   wf_path (PosixPath ''/'' [''opt'']) \<and>
   wf_path (truediv posix (PosixPath ''/'' [''opt'']) ''./env//shell'') \<and>
   truediv posix (PosixPath ''/'' [''opt'']) ''./env//shell'' =
     PosixPath ''/'' [''opt'', ''env'', ''shell'']"
proof -
  have "truediv posix (PosixPath ''/'' [''opt'']) ''./env//shell'' =
      PosixPath ''/'' [''opt'', ''env'', ''shell'']"
    by code_simp
  moreover have "wf_path (PosixPath ''/'' [''opt''])"
    by (simp add: wf_path_def wf_name_def)
  ultimately show ?thesis
    using posix_parse_wf [of "''/opt//./env/''" "PosixPath ''/'' [''opt'']" "''./env//shell''"]
    by simp
qed

text \<open>
  C30. Printing a well-formed path and parsing the string gives the path back:
  \<open>Path(str(p)) == p\<close> under the POSIX flavour.
\<close>

theorem posix_roundtrip:
  assumes "wf_path p"
  shows "make_path posix (fspath posix p) = p"
  using assms by (simp add: posix_def posix_parse_posix_str)

theorem posix_roundtrip_witness:
  "make_path posix (fspath posix (PosixPath ''/'' [''opt'', ''env''])) =
     PosixPath ''/'' [''opt'', ''env''] \<and>
   fspath posix (PosixPath ''/'' [''opt'', ''env'']) = ''/opt/env''"
  using posix_roundtrip [of "PosixPath ''/'' [''opt'', ''env'']"]
  by (simp add: wf_path_def wf_name_def keeps_def posix_def posix_str_def)

end
