(* ===== verification/PyText.thy ===== *)
theory PyText
  imports Prelude
begin

text \<open>
  The one string operation the scanner applies to file content: Python's
  \<open>pat in s\<close> on \<open>str\<close> (lines 33 and 36). \<open>contains\<close> is the search written as
  a scan from the left, which a concrete input evaluates; its reference is the
  library's \<open>sublist\<close> (some \<open>ps\<close> and \<open>ss\<close> with \<open>s = ps @ pat @ ss\<close>), and
  \<open>contains_iff_sublist\<close> moves every proof to that side.
\<close>

fun contains :: "'a list \<Rightarrow> 'a list \<Rightarrow> bool" where
  "contains pat [] = (pat = [])"
| "contains pat (c # cs) = (prefix pat (c # cs) \<or> contains pat cs)"

lemma contains_iff_sublist: "contains pat s \<longleftrightarrow> sublist pat s"
  by (induction s) (simp_all add: sublist_Cons_right)

lemma contains_Nil [simp]: "contains [] s"
  by (simp add: contains_iff_sublist)

lemma contains_self [simp]: "contains s s"
  by (simp add: contains_iff_sublist)

lemma contains_appendI [simp]: "contains pat (ps @ pat @ ss)"
  by (simp add: contains_iff_sublist)

lemma contains_iff_append: "contains pat s \<longleftrightarrow> (\<exists>ps ss. s = ps @ pat @ ss)"
  by (simp add: contains_iff_sublist sublist_def)

lemma contains_append:
  "contains pat (s @ t) \<longleftrightarrow>
     contains pat s \<or> contains pat t \<or>
     (\<exists>p1 p2. p1 \<noteq> [] \<and> p2 \<noteq> [] \<and> pat = p1 @ p2 \<and> suffix p1 s \<and> prefix p2 t)"
  (is "?lhs \<longleftrightarrow> ?rhs")
proof
  assume ?lhs
  then consider "sublist pat s" | "sublist pat t"
    | p1 p2 where "pat = p1 @ p2" "suffix p1 s" "prefix p2 t"
    by (auto simp: contains_iff_sublist sublist_append)
  then show ?rhs
  proof cases
    case 3
    show ?thesis
    proof (cases "p1 = [] \<or> p2 = []")
      case True
      with 3 have "sublist pat s \<or> sublist pat t" by auto
      then show ?thesis by (auto simp: contains_iff_sublist)
    next
      case False
      with 3 show ?thesis by blast
    qed
  qed (simp_all add: contains_iff_sublist)
next
  assume ?rhs
  then show ?lhs
    by (auto simp: contains_iff_sublist sublist_append)
qed

lemma contains_append_leftI: "contains pat s \<Longrightarrow> contains pat (s @ t)"
  by (simp add: contains_iff_sublist sublist_append_rightI2)

lemma contains_append_rightI: "contains pat t \<Longrightarrow> contains pat (s @ t)"
  by (simp add: contains_iff_sublist sublist_append_leftI2)

lemma contains_length_le: "contains pat s \<Longrightarrow> length pat \<le> length s"
  by (simp add: contains_iff_sublist sublist_length_le)

lemma contains_set_mono: "contains pat s \<Longrightarrow> set pat \<subseteq> set s"
  by (simp add: contains_iff_sublist set_mono_sublist)

lemma not_contains_split:
  assumes "m \<notin> set (a @ b)" and "a \<noteq> []" and "b \<noteq> []"
  shows "\<not> contains (a @ b) (a @ m # b)"
proof
  assume "contains (a @ b) (a @ m # b)"
  then obtain ps ss where s: "a @ m # b = ps @ (a @ b) @ ss"
    by (auto simp: contains_iff_append)
  then have "length (a @ m # b) = length (ps @ (a @ b) @ ss)" by simp
  then have l: "length ps + length ss = 1" by simp
  with assms(2,3) have i: "length ps \<le> length a" "length a - length ps < length (a @ b)"
    by (cases a; cases b; simp)+
  have "(a @ m # b) ! length a = m" by simp
  with s have "(ps @ (a @ b) @ ss) ! length a = m" by simp
  with i have "(a @ b) ! (length a - length ps) = m"
    by (simp add: nth_append del: append_assoc)
  with i(2) have "m \<in> set (a @ b)" by (metis nth_mem)
  with assms(1) show False by simp
qed

lemma contains_trans: "contains a b \<Longrightarrow> contains b c \<Longrightarrow> contains a c"
  unfolding contains_iff_sublist by (rule sublist_order.order_trans)

section \<open>The search is the substring relation\<close>

text \<open>
  C26. \<open>contains pat s\<close>, the search as it is evaluated, holds exactly when
  \<open>pat\<close> is a substring of \<open>s\<close>: when \<open>s\<close> is some text, then \<open>pat\<close>, then
  some text.
\<close>

theorem contains_is_substring: "contains pat s \<longleftrightarrow> (\<exists>ps ss. s = ps @ pat @ ss)"
  by (simp add: contains_iff_sublist sublist_def)

end
