(* ===== verification/Codec.thy ===== *)
theory Codec
  imports PyText
begin

text \<open>
  What \<open>open(file_path, 'r', encoding='utf-8', errors='ignore')\<close> followed by
  \<open>f.read()\<close> makes of the bytes of a file (lines 29 and 30): the UTF-8 decoder
  with the error handler \<open>ignore\<close>, then the translation of line ends that text
  mode applies (\<open>newline=None\<close>).

  A decoded text is kept as the bytes of its UTF-8 encoding, so the decoder is
  a function from bytes to bytes: it copies every well-formed sequence and
  drops every malformed one. A malformed sequence is, as in CPython's decoder,
  a byte that cannot start a character, or a lead byte with the continuation
  bytes that validly follow it when the next byte does not continue the
  character; at the end of the input an unfinished character is dropped whole.

  The lemmas show that an ASCII byte is a point where the decoder starts anew
  (\<open>utf8_ignore_sync\<close>), hence that a pattern of plain characters in the bytes
  is in the decoded text (\<open>contains_decode_text\<close>), that a byte which is not
  ASCII is dropped before an ASCII byte (\<open>decode_text_joined\<close>), that the
  decoded text is accepted by the decoder and a subsequence of the bytes, and
  that an accepted text is left as it is.
\<close>

section \<open>Bytes\<close>

definition byte :: "char \<Rightarrow> nat" where
  "byte c = of_char c"

definition is_ascii :: "char \<Rightarrow> bool" where
  "is_ascii c \<longleftrightarrow> byte c < 0x80"

definition is_cont :: "char \<Rightarrow> bool" where
  "is_cont c \<longleftrightarrow> 0x80 \<le> byte c \<and> byte c < 0xC0"

definition lead2 :: "char \<Rightarrow> bool" where
  "lead2 c \<longleftrightarrow> 0xC2 \<le> byte c \<and> byte c < 0xE0"

definition lead3 :: "char \<Rightarrow> bool" where
  "lead3 c \<longleftrightarrow> 0xE0 \<le> byte c \<and> byte c < 0xF0"

definition lead4 :: "char \<Rightarrow> bool" where
  "lead4 c \<longleftrightarrow> 0xF0 \<le> byte c \<and> byte c < 0xF5"

text \<open>
  The second byte of a three- or four-byte character: a continuation byte that
  is not the start of an overlong form (after E0 and F0), of a surrogate (after
  ED) or of a code point beyond U+10FFFF (after F4).
\<close>

definition second_ok :: "char \<Rightarrow> char \<Rightarrow> bool" where
  "second_ok b c \<longleftrightarrow>
     is_cont c \<and>
     (if byte b = 0xE0 then 0xA0 \<le> byte c
      else if byte b = 0xED then byte c < 0xA0
      else if byte b = 0xF0 then 0x90 \<le> byte c
      else if byte b = 0xF4 then byte c < 0x90
      else True)"

section \<open>The decoder\<close>

text \<open>
  \<open>need b\<close> is the number of continuation bytes the lead byte \<open>b\<close> asks for,
  and 0 for a byte that cannot start a character of more than one byte.
  \<open>conts b bs\<close> is the number of bytes at the head of \<open>bs\<close> that validly
  continue \<open>b\<close>, the position where the decoder stops reading the character.
\<close>

definition need :: "char \<Rightarrow> nat" where
  "need b = (if lead2 b then 1 else if lead3 b then 2 else if lead4 b then 3 else 0)"

definition conts :: "char \<Rightarrow> pybytes \<Rightarrow> nat" where
  "conts b bs =
     (case bs of
        [] \<Rightarrow> 0
      | c # r \<Rightarrow>
          if second_ok b c then Suc (length (takeWhile is_cont (take (need b - 1) r))) else 0)"

fun utf8_ignore :: "pybytes \<Rightarrow> pystr" where
  "utf8_ignore [] = []"
| "utf8_ignore (b # bs) =
     (if is_ascii b then b # utf8_ignore bs
      else if need b = 0 then utf8_ignore bs
      else if conts b bs = need b then b # take (need b) bs @ utf8_ignore (drop (need b) bs)
      else utf8_ignore (drop (conts b bs) bs))"

section \<open>Line ends\<close>

abbreviation CR :: char where
  "CR \<equiv> CHR 0x0D"

abbreviation LF :: char where
  "LF \<equiv> CHR 0x0A"

fun universal_newlines :: "pystr \<Rightarrow> pystr" where
  "universal_newlines [] = []"
| "universal_newlines [c] = (if c = CR then [LF] else [c])"
| "universal_newlines (c # d # ds) =
     (if c = CR then
        (if d = LF then LF # universal_newlines ds else LF # universal_newlines (d # ds))
      else c # universal_newlines (d # ds))"

definition decode_text :: "pybytes \<Rightarrow> pystr" where
  "decode_text bs = universal_newlines (utf8_ignore bs)"

section \<open>Plain and well-formed texts\<close>

text \<open>A plain character: ASCII, and not one of the two line-end characters.\<close>

definition plain :: "char \<Rightarrow> bool" where
  "plain c \<longleftrightarrow> is_ascii c \<and> c \<noteq> CR \<and> c \<noteq> LF"

text \<open>
  The texts the decoder accepts, in the decoder's own terms: every byte is
  ASCII or a lead byte with all the continuation bytes it asks for.
  \<open>Utf8\<close> shows that these are the encodings of the lists of Unicode scalar
  values.
\<close>

fun valid_utf8 :: "pystr \<Rightarrow> bool" where
  "valid_utf8 [] \<longleftrightarrow> True"
| "valid_utf8 (b # bs) \<longleftrightarrow>
     (if is_ascii b then valid_utf8 bs
      else 0 < need b \<and> conts b bs = need b \<and> valid_utf8 (drop (need b) bs))"

text \<open>The equations that evaluate the decoder on concrete bytes.\<close>

lemmas byte_defs =
  byte_def is_ascii_def is_cont_def lead2_def lead3_def lead4_def second_ok_def need_def
  conts_def

lemmas decode_eval = decode_text_def byte_defs

section \<open>Bytes that pass the decoder unchanged\<close>

lemma ascii_not_other [simp]:
  assumes "is_ascii c"
  shows "\<not> is_cont c" "\<not> second_ok b c" "need c = 0"
  using assms by (simp_all add: byte_defs)

lemma conts_le_length: "conts b bs \<le> length bs"
proof (cases bs)
  case Nil
  then show ?thesis by (simp add: conts_def)
next
  case (Cons c r)
  have "length (takeWhile is_cont (take (need b - 1) r)) \<le> length (take (need b - 1) r)"
    by (rule length_takeWhile_le)
  with Cons show ?thesis by (simp add: conts_def)
qed

lemma conts_le_need: "0 < need b \<Longrightarrow> conts b bs \<le> need b"
proof (cases bs)
  case Nil
  then show ?thesis by (simp add: conts_def)
next
  case (Cons c r)
  assume "0 < need b"
  moreover have "length (takeWhile is_cont (take (need b - 1) r)) \<le> length (take (need b - 1) r)"
    by (rule length_takeWhile_le)
  ultimately show ?thesis using Cons by (auto simp: conts_def)
qed

lemma takeWhile_take_append_stop:
  "\<not> P c \<Longrightarrow> takeWhile P (take n (xs @ c # r)) = takeWhile P (take n xs)"
proof (induction xs arbitrary: n)
  case Nil
  then show ?case by (cases n) simp_all
next
  case (Cons x xs)
  then show ?case by (cases n) simp_all
qed

lemma conts_append_ascii: "is_ascii c \<Longrightarrow> conts b (bs @ c # r) = conts b bs"
  by (cases bs) (simp_all add: conts_def takeWhile_take_append_stop del: take_append)

lemma utf8_ignore_sync:
  "is_ascii c \<Longrightarrow> utf8_ignore (a @ c # r) = utf8_ignore a @ c # utf8_ignore r"
proof (induction a rule: utf8_ignore.induct)
  case 1
  then show ?case by simp
next
  case (2 b bs)
  have le: "conts b bs \<le> length bs" by (rule conts_le_length)
  from 2 le show ?case by (simp add: conts_append_ascii)
qed

lemma utf8_ignore_ascii_append:
  "list_all is_ascii p \<Longrightarrow> utf8_ignore (p @ r) = p @ utf8_ignore r"
  by (induction p) simp_all

lemma subseq_utf8_ignore: "subseq (utf8_ignore bs) bs"
proof (induction bs rule: utf8_ignore.induct)
  case 1
  show ?case by simp
next
  case (2 b bs)
  have drop: "subseq xs (drop n bs) \<Longrightarrow> subseq xs bs" for xs n
    by (metis append_take_drop_id list_emb_append2)
  have take: "subseq xs (drop n bs) \<Longrightarrow> subseq (take n bs @ xs) bs" for xs n
    by (metis append_take_drop_id list_emb_append_mono subseq_order.order_refl)
  from 2 show ?case by (auto intro: drop take subseq_Cons')
qed

lemma universal_newlines_Cons [simp]:
  "c \<noteq> CR \<Longrightarrow> universal_newlines (c # cs) = c # universal_newlines cs"
  by (cases cs) simp_all

lemma universal_newlines_sync:
  "c \<noteq> CR \<Longrightarrow> c \<noteq> LF \<Longrightarrow>
     universal_newlines (a @ c # r) = universal_newlines a @ c # universal_newlines r"
  by (induction a rule: universal_newlines.induct) simp_all

lemma universal_newlines_no_CR_append:
  "list_all (\<lambda>c. c \<noteq> CR) p \<Longrightarrow> universal_newlines (p @ r) = p @ universal_newlines r"
  by (induction p) simp_all

lemma length_universal_newlines_le: "length (universal_newlines s) \<le> length s"
  by (induction s rule: universal_newlines.induct) (auto intro: le_SucI)

lemma length_utf8_ignore_le: "length (utf8_ignore bs) \<le> length bs"
  by (rule list_emb_length [OF subseq_utf8_ignore])

lemma plain_pattern:
  assumes "list_all plain (c # p)"
  shows "is_ascii c" "c \<noteq> CR" "c \<noteq> LF" "list_all is_ascii p" "list_all (\<lambda>c. c \<noteq> CR) p"
  using assms by (auto simp: plain_def list_all_iff)

lemma decode_text_pattern:
  assumes "list_all plain pat" and "pat \<noteq> []"
  shows "decode_text (a @ pat @ r) = decode_text a @ pat @ decode_text r"
proof (cases pat)
  case Nil
  with assms show ?thesis by simp
next
  case (Cons c p)
  with assms have "list_all plain (c # p)" by simp
  note pl = plain_pattern [OF this]
  from Cons pl show ?thesis
    by (simp add: decode_text_def utf8_ignore_sync utf8_ignore_ascii_append
        universal_newlines_sync universal_newlines_no_CR_append)
qed

lemma conts_take_append:
  assumes "conts b bs = need b" and "0 < need b"
  shows "conts b (take (need b) bs @ xs) = need b"
proof (cases bs)
  case Nil
  with assms show ?thesis by (simp add: conts_def)
next
  case (Cons c r)
  from assms Cons have ok: "second_ok b c"
    and len: "length (takeWhile is_cont (take (need b - 1) r)) = need b - 1"
    by (auto simp: conts_def split: if_splits)
  have "length (takeWhile is_cont (take (need b - 1) r)) \<le> length (take (need b - 1) r)"
    by (rule length_takeWhile_le)
  with len have full: "need b - 1 \<le> length r" by simp
  from assms(2) obtain n where n: "need b = Suc n" by (cases "need b") simp_all
  from Cons ok len full n show ?thesis by (simp add: conts_def)
qed

lemma valid_utf8_utf8_ignore: "valid_utf8 (utf8_ignore bs)"
proof (induction bs rule: utf8_ignore.induct)
  case 1
  show ?case by simp
next
  case (2 b bs)
  have "need b \<le> length bs" if "conts b bs = need b"
    using conts_le_length [of b bs] that by simp
  with 2 show ?case by (simp add: conts_take_append)
qed

lemma utf8_ignore_valid: "valid_utf8 bs \<Longrightarrow> utf8_ignore bs = bs"
  by (induction bs rule: utf8_ignore.induct) (simp_all split: if_splits)

section \<open>The decoded text is well-formed\<close>

lemma takeWhile_full: "length (takeWhile P xs) = length xs \<Longrightarrow> list_all P xs"
  by (induction xs) (simp_all split: if_splits)

lemma conts_cont_prefix:
  assumes "conts b bs = need b" and "0 < need b"
  shows "need b \<le> length bs" and "list_all is_cont (take (need b) bs)"
proof -
  from assms obtain c r where bs: "bs = c # r" by (cases bs) (simp_all add: conts_def)
  from assms(2) obtain n where n: "need b = Suc n" by (cases "need b") simp_all
  from assms bs n have ok: "is_cont c" and len: "length (takeWhile is_cont (take n r)) = n"
    by (auto simp: conts_def second_ok_def split: if_splits)
  from len show "need b \<le> length bs"
    using length_takeWhile_le [of is_cont "take n r"] bs n by simp
  then have "length (takeWhile is_cont (take n r)) = length (take n r)"
    using len bs n by simp
  then have "list_all is_cont (take n r)" by (rule takeWhile_full)
  with ok bs n show "list_all is_cont (take (need b) bs)" by simp
qed

lemma not_CR [simp]: "is_cont c \<Longrightarrow> c \<noteq> CR" "\<not> is_ascii c \<Longrightarrow> c \<noteq> CR"
  by (auto simp: is_cont_def is_ascii_def byte_def)

lemma is_ascii_LF [simp]: "is_ascii LF"
  by (simp add: is_ascii_def byte_def)

lemma universal_newlines_char:
  assumes "0 < need b" and "conts b bs = need b"
  shows "universal_newlines bs = take (need b) bs @ universal_newlines (drop (need b) bs)"
proof -
  from conts_cont_prefix(2) [OF assms(2,1)]
  have "list_all (\<lambda>c. c \<noteq> CR) (take (need b) bs)" by (auto simp: list_all_iff)
  then have "universal_newlines (take (need b) bs @ drop (need b) bs) =
      take (need b) bs @ universal_newlines (drop (need b) bs)"
    by (rule universal_newlines_no_CR_append)
  then show ?thesis by simp
qed

lemma valid_utf8_newlines_ascii:
  assumes "is_ascii b" and "valid_utf8 (universal_newlines bs)"
  shows "valid_utf8 (universal_newlines (b # bs))"
proof (cases bs)
  case Nil
  with assms show ?thesis by simp
next
  case (Cons d ds)
  with assms show ?thesis by (cases "d = CR") (auto split: if_splits)
qed

lemma valid_utf8_universal_newlines: "valid_utf8 s \<Longrightarrow> valid_utf8 (universal_newlines s)"
proof (induction s rule: valid_utf8.induct)
  case 1
  show ?case by simp
next
  case (2 b bs)
  show ?case
  proof (cases "is_ascii b")
    case True
    with "2.prems" have "valid_utf8 bs" by simp
    with True "2.IH" have "valid_utf8 (universal_newlines bs)" by simp
    with True show ?thesis by (rule valid_utf8_newlines_ascii)
  next
    case False
    with "2.prems" have n: "0 < need b" and c: "conts b bs = need b"
      and v: "valid_utf8 (drop (need b) bs)" by simp_all
    let ?rest = "universal_newlines (drop (need b) bs)"
    from False n c v "2.IH" have "valid_utf8 ?rest" by simp
    moreover have "universal_newlines (b # bs) = b # take (need b) bs @ ?rest"
      using False universal_newlines_char [OF n c] by simp
    moreover have "conts b (take (need b) bs @ ?rest) = need b"
      by (rule conts_take_append [OF c n])
    moreover have "drop (need b) (take (need b) bs @ ?rest) = ?rest"
      using conts_cont_prefix(1) [OF c n] by simp
    ultimately show ?thesis using False n by simp
  qed
qed

lemma valid_utf8_decode_text: "valid_utf8 (decode_text bs)"
  by (simp add: decode_text_def valid_utf8_universal_newlines valid_utf8_utf8_ignore)

section \<open>What decoding does to a text\<close>

lemma contains_decode_text:
  assumes "list_all plain pat" and "contains pat bs"
  shows "contains pat (decode_text bs)"
proof (cases "pat = []")
  case True
  then show ?thesis by simp
next
  case False
  from assms(2) obtain a r where "bs = a @ pat @ r" by (auto simp: contains_iff_append)
  with assms(1) False show ?thesis by (simp add: decode_text_pattern)
qed

text \<open>
  A byte that is not ASCII is dropped when an ASCII byte follows it: a lead byte
  is not continued, and any other byte starts no character. So a plain pattern
  that such a byte splits in the file is whole in the decoded text.
\<close>

lemma utf8_ignore_before_ascii:
  assumes "\<not> is_ascii m" and "is_ascii c"
  shows "utf8_ignore (m # c # r) = utf8_ignore (c # r)"
  using assms by (simp add: conts_def)

lemma decode_text_before_plain:
  assumes "\<not> is_ascii m" and "list_all plain b" and "b \<noteq> []"
  shows "decode_text (m # b @ r) = b @ decode_text r"
proof -
  from assms(2,3) obtain c p where b: "b = c # p" and "is_ascii c"
    by (cases b) (auto simp: plain_def)
  with assms(1) have "decode_text (m # b @ r) = decode_text ([] @ b @ r)"
    by (simp add: decode_text_def utf8_ignore_before_ascii del: utf8_ignore.simps)
  also have "\<dots> = decode_text [] @ b @ decode_text r"
    using assms(2,3) by (rule decode_text_pattern)
  finally show ?thesis by (simp add: decode_text_def)
qed

lemma decode_text_joined:
  assumes "\<not> is_ascii m" and "list_all plain (a @ b)" and "a \<noteq> []" and "b \<noteq> []"
  shows "decode_text (xs @ a @ m # b @ ys) = decode_text xs @ a @ b @ decode_text ys"
proof -
  from assms(2) have "list_all plain a" and pb: "list_all plain b" by simp_all
  then have "decode_text (xs @ a @ m # b @ ys) = decode_text xs @ a @ decode_text (m # b @ ys)"
    using assms(3) by (simp add: decode_text_pattern)
  with assms(1,4) pb show ?thesis by (simp add: decode_text_before_plain)
qed

text \<open>
  The decoded text is a subsequence of the bytes up to the translation of line
  ends: decoding drops and never adds, so the text is no longer than the file.
\<close>

lemma length_decode_text_le:
  "subseq (utf8_ignore bs) bs \<and> length (decode_text bs) \<le> length bs"
proof
  show "subseq (utf8_ignore bs) bs" by (rule subseq_utf8_ignore)
  have "length (decode_text bs) \<le> length (utf8_ignore bs)"
    by (simp add: decode_text_def length_universal_newlines_le)
  also have "\<dots> \<le> length bs" by (rule length_utf8_ignore_le)
  finally show "length (decode_text bs) \<le> length bs" .
qed

end
