(* ===== verification/Scanner.thy ===== *)
theory Scanner
  imports World PathLib Codec
begin

text \<open>
  The pattern scanner: \<open>check_file_for_extended_paths\<close> of
  \<open>check_env_files.py\<close> (lines 17 to 42). The two patterns and the four
  messages are constants of the source; \<open>scan_content\<close> is the pair of tests on
  the text that was read (lines 32 to 37), \<open>read_text\<close> the \<open>with\<close> block that
  opens, reads and closes the file (lines 29 and 30), and
  \<open>check_file_for_extended_paths\<close> the whole function: the test for existence and
  its early return, the \<open>try\<close> block, and the handler that turns every exception
  of the block into one issue.

  Below the definitions, \<open>view_file\<close> says what the function can observe of a
  path, \<open>file_issues\<close> what it returns for each observation and \<open>file_events\<close>
  which calls it makes; \<open>check_file_eq\<close> proves that the function is exactly
  this result and these events, and the remaining lemmas are read off it.
\<close>

section \<open>Patterns and messages\<close>

definition fwd_prefix :: pystr where
  "fwd_prefix = ''//?/''"

definition bwd_prefix :: pystr where
  "bwd_prefix = [backslash, backslash, CHR ''?'', backslash]"

definition msg_file_missing :: "pystr \<Rightarrow> issue" where
  [msg_defs]: "msg_file_missing p = ''File does not exist: '' @ p"

definition msg_found_fwd :: "pystr \<Rightarrow> issue" where
  [msg_defs]: "msg_found_fwd p = ''Found //?/ extended-length path prefix in '' @ p"

definition msg_found_bwd :: "pystr \<Rightarrow> issue" where
  [msg_defs]: "msg_found_bwd p =
     ''Found '' @ [backslash, backslash, CHR ''?'', backslash] @
     '' extended-length path prefix in '' @ p"

definition msg_read_error :: "pystr \<Rightarrow> exn \<Rightarrow> issue" where
  [msg_defs]: "msg_read_error p e = ''Error reading file '' @ p @ '': '' @ exn_str e"

section \<open>The scanner\<close>

definition scan_content :: "pystr \<Rightarrow> pystr \<Rightarrow> issue list" where
  "scan_content p content =
     (if contains fwd_prefix content then [msg_found_fwd p] else []) @
     (if contains bwd_prefix content then [msg_found_bwd p] else [])"

definition read_text :: "world \<Rightarrow> pystr \<Rightarrow> pystr raising \<times> world" where
  "read_text w p =
     and_then (py_open w p) (\<lambda>f w.
       case py_read w p of
         (Inl e, w) \<Rightarrow> (Inl e, py_close w p)
       | (Inr bs, w) \<Rightarrow> (Inr (decode_text bs), py_close w p))"

definition check_file_for_extended_paths ::
  "'p pathlib \<Rightarrow> world \<Rightarrow> 'p \<Rightarrow> issue list raising \<times> world" where
  "check_file_for_extended_paths L w file_path =
     and_then (path_exists w (fspath L file_path)) (\<lambda>found w.
       if \<not> found then (Inr [msg_file_missing (fspath L file_path)], w)
       else (case read_text w (fspath L file_path) of
               (Inr content, w) \<Rightarrow> (Inr (scan_content (fspath L file_path) content), w)
             | (Inl e, w) \<Rightarrow> (Inr [msg_read_error (fspath L file_path) e], w)))"

section \<open>What the scanner observes, returns and does\<close>

datatype file_view = StatError exn | Missing | Unreadable exn | Content pystr

fun view_of :: "stat_result \<Rightarrow> file_io \<Rightarrow> file_view" where
  "view_of NoEntry io = Missing"
| "view_of (StatFails e) io = StatError e"
| "view_of st (OpenFails e) = Unreadable e"
| "view_of st (ReadFails e) = Unreadable e"
| "view_of st (Bytes bs) = Content (decode_text bs)"

definition view_file :: "world \<Rightarrow> pystr \<Rightarrow> file_view" where
  "view_file w p = view_of (stat_of w p) (data_of w p)"

fun file_issues :: "pystr \<Rightarrow> file_view \<Rightarrow> issue list raising" where
  "file_issues p (StatError e) = Inl e"
| "file_issues p Missing = Inr [msg_file_missing p]"
| "file_issues p (Unreadable e) = Inr [msg_read_error p e]"
| "file_issues p (Content c) = Inr (scan_content p c)"

fun read_events :: "file_io \<Rightarrow> pystr \<Rightarrow> event list" where
  "read_events (OpenFails e) p = [EvOpenFailed p]"
| "read_events (ReadFails e) p = [EvOpen p, EvRead p, EvClose p]"
| "read_events (Bytes bs) p = [EvOpen p, EvRead p, EvClose p]"

definition file_events :: "world \<Rightarrow> pystr \<Rightarrow> event list" where
  "file_events w p =
     EvStat p #
     (if exists_answer (stat_of w p) = Inr True then read_events (data_of w p) p else [])"

fun read_answer :: "file_io \<Rightarrow> pystr raising" where
  "read_answer (OpenFails e) = Inl e"
| "read_answer (ReadFails e) = Inl e"
| "read_answer (Bytes bs) = Inr (decode_text bs)"

text \<open>
  The forward-slash pattern as the specification writes it, \<open>//?/"\<close>: the
  prefix followed by a double quote.
\<close>

definition spec_fwd_prefix :: pystr where
  "spec_fwd_prefix = ''//?/'' @ [CHR 0x22]"

text \<open>The equations that evaluate a scan on a concrete text.\<close>

lemmas scan_eval = scan_content_def fwd_prefix_def bwd_prefix_def

section \<open>The scan of a text\<close>

lemma scan_content_cases:
  "scan_content p c =
     (if contains fwd_prefix c
      then (if contains bwd_prefix c then [msg_found_fwd p, msg_found_bwd p] else [msg_found_fwd p])
      else (if contains bwd_prefix c then [msg_found_bwd p] else []))"
  by (simp add: scan_content_def)

lemma scan_content_Nil_iff:
  "scan_content p c = [] \<longleftrightarrow> \<not> contains fwd_prefix c \<and> \<not> contains bwd_prefix c"
  by (simp add: scan_content_def)

lemma length_scan_content_le: "length (scan_content p c) \<le> 2"
  by (simp add: scan_content_def)

lemma msg_found_distinct [simp]:
  "msg_found_fwd p \<noteq> msg_found_bwd q" "msg_found_bwd q \<noteq> msg_found_fwd p"
  by (simp_all add: msg_defs)

lemma distinct_scan_content: "distinct (scan_content p c)"
  by (simp add: scan_content_def)

section \<open>The function is its result and its events\<close>

lemma read_text_eq [trace_simps]:
  "read_text w p = (read_answer (data_of w p), log w (read_events (data_of w p) p))"
  by (cases "data_of w p") (simp_all add: read_text_def py_open_def py_read_def py_close_def)

lemma check_file_eq:
  "check_file_for_extended_paths L w fp =
     (file_issues (fspath L fp) (view_file w (fspath L fp)),
      log w (file_events w (fspath L fp)))"
proof (cases "stat_of w (fspath L fp)")
  case NoEntry
  then show ?thesis
    by (simp add: check_file_for_extended_paths_def path_exists_eq view_file_def file_events_def)
next
  case (StatFails e)
  then show ?thesis
    by (simp add: check_file_for_extended_paths_def path_exists_eq view_file_def file_events_def)
next
  case IsDir
  then show ?thesis
    by (cases "data_of w (fspath L fp)")
      (simp_all add: check_file_for_extended_paths_def path_exists_eq read_text_eq view_file_def
        file_events_def)
next
  case IsFile
  then show ?thesis
    by (cases "data_of w (fspath L fp)")
      (simp_all add: check_file_for_extended_paths_def path_exists_eq read_text_eq view_file_def
        file_events_def)
qed

lemma view_file_log [simp]: "view_file (log w es) p = view_file w p"
  by (simp add: view_file_def)

lemma file_events_log [simp]: "file_events (log w es) p = file_events w p"
  by (simp add: file_events_def)

lemma view_file_same_env: "same_env w w' \<Longrightarrow> view_file w' p = view_file w p"
  by (simp add: view_file_def same_env_def)

lemma file_events_same_env: "same_env w w' \<Longrightarrow> file_events w' p = file_events w p"
  by (simp add: file_events_def same_env_def)

section \<open>Open files\<close>

lemma open_after_read_events [simp]: "open_after (read_events io p) fds = fds"
  by (cases io) simp_all

lemma open_after_file_events [simp]: "open_after (file_events w p) fds = fds"
  by (simp add: file_events_def)

lemma printed_read_events [simp]: "printed s (read_events io p) = []"
  by (cases io) simp_all

lemma printed_file_events [simp]: "printed s (file_events w p) = []"
  by (simp add: file_events_def)

section \<open>Which world gives which observation\<close>

lemma view_file_Missing_iff: "view_file w p = Missing \<longleftrightarrow> stat_of w p = NoEntry"
  by (cases "stat_of w p"; cases "data_of w p") (simp_all add: view_file_def)

lemma view_file_StatError_iff: "view_file w p = StatError e \<longleftrightarrow> stat_of w p = StatFails e"
  by (cases "stat_of w p"; cases "data_of w p") (simp_all add: view_file_def)

lemma view_file_Unreadable_iff:
  "view_file w p = Unreadable e \<longleftrightarrow>
     exists_at w p \<and> (data_of w p = OpenFails e \<or> data_of w p = ReadFails e)"
  by (cases "stat_of w p"; cases "data_of w p") (simp_all add: view_file_def exists_at_def)

lemma view_file_Content_iff:
  "view_file w p = Content c \<longleftrightarrow>
     exists_at w p \<and> (\<exists>bs. data_of w p = Bytes bs \<and> c = decode_text bs)"
  by (cases "stat_of w p"; cases "data_of w p") (auto simp: view_file_def exists_at_def)

lemmas view_file_iffs =
  view_file_Missing_iff view_file_StatError_iff view_file_Unreadable_iff view_file_Content_iff

lemma view_file_ContentI:
  "exists_at w p \<Longrightarrow> data_of w p = Bytes bs \<Longrightarrow> view_file w p = Content (decode_text bs)"
  by (simp add: view_file_Content_iff)

lemma view_file_UnreadableI:
  "exists_at w p \<Longrightarrow> data_of w p = OpenFails e \<or> data_of w p = ReadFails e \<Longrightarrow>
   view_file w p = Unreadable e"
  by (simp add: view_file_Unreadable_iff)

section \<open>The function on each branch\<close>

lemma check_file_missing:
  assumes "stat_of w (fspath L fp) = NoEntry"
  shows "fst (check_file_for_extended_paths L w fp) = Inr [msg_file_missing (fspath L fp)]"
  using assms by (simp add: check_file_eq view_file_Missing_iff [THEN iffD2])

lemma check_file_stat_error:
  assumes "stat_of w (fspath L fp) = StatFails e"
  shows "fst (check_file_for_extended_paths L w fp) = Inl e"
  using assms by (simp add: check_file_eq view_file_StatError_iff [THEN iffD2])

lemma check_file_content:
  assumes "exists_at w (fspath L fp)" and "data_of w (fspath L fp) = Bytes bs"
  shows "fst (check_file_for_extended_paths L w fp) =
           Inr (scan_content (fspath L fp) (decode_text bs))"
  using assms by (simp add: check_file_eq view_file_ContentI)

lemma check_file_unreadable:
  assumes "exists_at w (fspath L fp)"
      and "data_of w (fspath L fp) = OpenFails e \<or> data_of w (fspath L fp) = ReadFails e"
  shows "fst (check_file_for_extended_paths L w fp) = Inr [msg_read_error (fspath L fp) e]"
  using assms by (simp add: check_file_eq view_file_UnreadableI)

section \<open>Which observation gives which issues\<close>

lemma msg_not_Nil [simp]:
  "msg_file_missing p \<noteq> []" "msg_found_fwd p \<noteq> []" "msg_found_bwd p \<noteq> []"
  "msg_read_error p e \<noteq> []"
  by (simp_all add: msg_defs)

lemma file_issues_Nil_iff:
  "file_issues p v = Inr [] \<longleftrightarrow>
     (\<exists>c. v = Content c \<and> \<not> contains fwd_prefix c \<and> \<not> contains bwd_prefix c)"
  by (cases v) (simp_all add: scan_content_Nil_iff)

lemma file_issues_raises_iff: "file_issues p v = Inl e \<longleftrightarrow> v = StatError e"
  by (cases v) simp_all

lemma returned_file_issues_iff: "returned (file_issues p v) \<longleftrightarrow> (\<forall>e. v \<noteq> StatError e)"
  by (cases v) simp_all

lemma length_file_issues: "file_issues p v = Inr issues \<Longrightarrow> length issues \<le> 2"
  using length_scan_content_le [of p] by (cases v) auto

lemma returned_file_issues_view:
  "returned (file_issues p (view_file w p)) \<longleftrightarrow> \<not> stat_raises w p"
  by (cases "stat_of w p"; cases "data_of w p") (simp_all add: view_file_def stat_raises_def)

text \<open>The issues of one file, as a value: none when the test for existence raises.\<close>

definition issues_of :: "world \<Rightarrow> pystr \<Rightarrow> issue list" where
  "issues_of w p = result_or [] (file_issues p (view_file w p))"

lemma issues_of_eq_check_file:
  "issues_of w (fspath L fp) = result_or [] (fst (check_file_for_extended_paths L w fp))"
  by (simp add: issues_of_def check_file_eq)

lemma file_issues_eq_issues_of:
  "\<not> stat_raises w p \<Longrightarrow> file_issues p (view_file w p) = Inr (issues_of w p)"
  unfolding issues_of_def
  by (rule returned_result_or) (simp add: returned_file_issues_view)

lemma length_issues_of: "length (issues_of w p) \<le> 2"
  by (cases "file_issues p (view_file w p)") (auto simp: issues_of_def dest: length_file_issues)

lemma issues_of_log [simp]: "issues_of (log w es) p = issues_of w p"
  by (simp add: issues_of_def)

section \<open>The prefixes and the decoder\<close>

lemma plain_prefixes [simp]: "list_all plain fwd_prefix" "list_all plain bwd_prefix"
  by (simp_all add: fwd_prefix_def bwd_prefix_def plain_def is_ascii_def byte_def)

lemma found_in_scan_content:
  "msg_found_fwd p \<in> set (scan_content p c) \<longleftrightarrow> contains fwd_prefix c"
  "msg_found_bwd p \<in> set (scan_content p c) \<longleftrightarrow> contains bwd_prefix c"
  using msg_found_distinct [of p p] by (auto simp: scan_content_def)

text \<open>
  C24. Lenient decoding hides no prefix: when the bytes of a file hold one of
  the two prefixes, the scan of the text decoded from them reports it, whatever
  malformed bytes and line ends surround it.
\<close>

theorem raw_prefix_is_reported:
  "(contains fwd_prefix bs \<longrightarrow> msg_found_fwd p \<in> set (scan_content p (decode_text bs))) \<and>
   (contains bwd_prefix bs \<longrightarrow> msg_found_bwd p \<in> set (scan_content p (decode_text bs)))"
  by (simp add: found_in_scan_content contains_decode_text)

theorem raw_prefix_is_reported_witness:
  "contains fwd_prefix (CHR 0xE2 # fwd_prefix @ [CR]) \<and>
   msg_found_fwd ''f'' \<in> set (scan_content ''f'' (decode_text (CHR 0xE2 # fwd_prefix @ [CR])))"
  using raw_prefix_is_reported [of "CHR 0xE2 # fwd_prefix @ [CR]" "''f''"]
  by (simp add: fwd_prefix_def)

text \<open>
  C25. The scan reports a prefix exactly when the text contains it: the issue
  for \<open>//?/\<close> is in the result if and only if \<open>//?/\<close> occurs in the text, and
  the same for \<open>\\?\\<close>.
\<close>

theorem scan_reports_exactly:
  "(msg_found_fwd p \<in> set (scan_content p c) \<longleftrightarrow> contains fwd_prefix c) \<and>
   (msg_found_bwd p \<in> set (scan_content p c) \<longleftrightarrow> contains bwd_prefix c)"
  by (simp add: found_in_scan_content)

text \<open>
  C32. The scan looks for \<open>//?/\<close>, without the double quote of the pattern
  \<open>//?/"\<close> that the specification names: every text with the quoted pattern
  is reported, and so is every text without a double quote in which \<open>//?/\<close>
  occurs, which does not hold the quoted pattern.
\<close>

theorem quote_not_required:
  "(contains spec_fwd_prefix c \<longrightarrow> msg_found_fwd p \<in> set (scan_content p c)) \<and>
   (contains ''//?/'' c \<and> CHR 0x22 \<notin> set c \<longrightarrow>
      msg_found_fwd p \<in> set (scan_content p c) \<and> \<not> contains spec_fwd_prefix c)"
proof (intro conjI impI)
  assume "contains spec_fwd_prefix c"
  moreover have "contains fwd_prefix spec_fwd_prefix"
    using contains_appendI [of fwd_prefix "[]"] by (simp add: spec_fwd_prefix_def fwd_prefix_def)
  ultimately have "contains fwd_prefix c" by (rule contains_trans [rotated])
  then show "msg_found_fwd p \<in> set (scan_content p c)" by (simp add: found_in_scan_content)
next
  assume c: "contains ''//?/'' c \<and> CHR 0x22 \<notin> set c"
  then show "msg_found_fwd p \<in> set (scan_content p c)"
    by (simp add: found_in_scan_content fwd_prefix_def)
  from c show "\<not> contains spec_fwd_prefix c"
    by (auto simp: spec_fwd_prefix_def dest: contains_set_mono)
qed

theorem quote_not_required_witness:
  "contains spec_fwd_prefix (''$p = '' @ spec_fwd_prefix) \<and>
   msg_found_fwd ''f'' \<in> set (scan_content ''f'' (''$p = '' @ spec_fwd_prefix)) \<and>
   contains ''//?/'' ''$p = //?/C:/long'' \<and> CHR 0x22 \<notin> set ''$p = //?/C:/long'' \<and>
   msg_found_fwd ''f'' \<in> set (scan_content ''f'' ''$p = //?/C:/long'') \<and>
   \<not> contains spec_fwd_prefix ''$p = //?/C:/long''"
proof -
  have "contains ''//?/'' ''$p = //?/C:/long'' \<and> CHR 0x22 \<notin> set ''$p = //?/C:/long''"
    by simp
  with quote_not_required [of "''$p = '' @ spec_fwd_prefix" "''f''"]
    quote_not_required [of "''$p = //?/C:/long''" "''f''"]
    contains_appendI [of spec_fwd_prefix "''$p = ''" "[]"]
  show ?thesis by simp
qed

text \<open>
  C33. Lenient decoding can make a prefix. When a byte that is not ASCII stands
  inside one of the two prefixes, anywhere in a file, the bytes of the prefix
  with that byte do not hold the prefix, the decoder drops the byte, and the
  scan of the decoded text reports the prefix.
\<close>

theorem decoding_can_create_a_match:
  assumes "128 \<le> (of_char m :: nat)" and "a \<noteq> []" and "b \<noteq> []"
  shows "(a @ b = fwd_prefix \<longrightarrow>
            msg_found_fwd p \<in> set (scan_content p (decode_text (xs @ a @ m # b @ ys))) \<and>
            \<not> contains fwd_prefix (a @ m # b)) \<and>
         (a @ b = bwd_prefix \<longrightarrow>
            msg_found_bwd p \<in> set (scan_content p (decode_text (xs @ a @ m # b @ ys))) \<and>
            \<not> contains bwd_prefix (a @ m # b))"
proof -
  from assms(1) have m: "\<not> is_ascii m" by (simp add: is_ascii_def byte_def)
  have "contains (a @ b) (decode_text (xs @ a @ m # b @ ys)) \<and> \<not> contains (a @ b) (a @ m # b)"
    if pl: "list_all plain (a @ b)"
  proof
    from m pl assms(2,3)
    have "decode_text (xs @ a @ m # b @ ys) = decode_text xs @ (a @ b) @ decode_text ys"
      by (simp add: decode_text_joined)
    then show "contains (a @ b) (decode_text (xs @ a @ m # b @ ys))"
      by (simp only: contains_appendI)
    from pl m have "m \<notin> set (a @ b)" by (auto simp: list_all_iff plain_def)
    then show "\<not> contains (a @ b) (a @ m # b)"
      using assms(2,3) by (rule not_contains_split)
  qed
  note made = this
  have "contains fwd_prefix (decode_text (xs @ a @ m # b @ ys)) \<and>
      \<not> contains fwd_prefix (a @ m # b)" if e: "a @ b = fwd_prefix"
    using made e by (simp del: list_all_append)
  moreover have "contains bwd_prefix (decode_text (xs @ a @ m # b @ ys)) \<and>
      \<not> contains bwd_prefix (a @ m # b)" if e: "a @ b = bwd_prefix"
    using made e by (simp del: list_all_append)
  ultimately show ?thesis
    by (simp add: found_in_scan_content)
qed

theorem decoding_can_create_a_match_witness:
  "scan_content ''f'' (decode_text (''x = '' @ ''//'' @ CHR 0xFF # ''?/'' @ ''C:'')) =
     [msg_found_fwd ''f''] \<and>
   \<not> contains fwd_prefix (''//'' @ CHR 0xFF # ''?/'')"
proof -
  have "decode_text (''x = '' @ ''//'' @ CHR 0xFF # ''?/'' @ ''C:'') = ''x = //?/C:''"
    by (simp add: decode_eval)
  then have "scan_content ''f'' (decode_text (''x = '' @ ''//'' @ CHR 0xFF # ''?/'' @ ''C:'')) =
      [msg_found_fwd ''f'']"
    by (simp add: scan_eval)
  with decoding_can_create_a_match [of "CHR 0xFF" "''//''" "''?/''" "''f''" "''x = ''" "''C:''"]
  show ?thesis by (simp add: fwd_prefix_def)
qed

end
