(* ===== verification/Enumerator.thy ===== *)
theory Enumerator
  imports PathLib
begin

text \<open>
  The file enumerator: \<open>get_files_to_check\<close> of \<open>check_env_files.py\<close>
  (lines 45 to 57), the fixed list of files under the environment root that are
  scanned, in the order they are scanned. It has one entry,
  \<open>shell/condabin/conda-hook.ps1\<close>, built with three applications of \<open>/\<close>.
\<close>

definition get_files_to_check :: "'p pathlib \<Rightarrow> 'p \<Rightarrow> 'p list" where
  "get_files_to_check L env_path =
     [truediv L (truediv L (truediv L env_path ''shell'') ''condabin'') ''conda-hook.ps1'']"

text \<open>The path string of the one target, as the operating system is asked for it.\<close>

definition hook_path :: "'p pathlib \<Rightarrow> 'p \<Rightarrow> pystr" where
  "hook_path L env_path =
     fspath L (truediv L (truediv L (truediv L env_path ''shell'') ''condabin'') ''conda-hook.ps1'')"

lemma length_get_files_to_check [simp]: "length (get_files_to_check L env_path) = 1"
  by (simp add: get_files_to_check_def)

lemma get_files_to_check_not_Nil [simp]: "get_files_to_check L env_path \<noteq> []"
  by (simp add: get_files_to_check_def)

lemma map_fspath_get_files_to_check [simp]:
  "map (fspath L) (get_files_to_check L env_path) = [hook_path L env_path]"
  by (simp add: get_files_to_check_def hook_path_def)

lemma distinct_get_files_to_check: "distinct (get_files_to_check L env_path)"
  by (simp add: get_files_to_check_def)

section \<open>The target under the POSIX flavour\<close>

text \<open>
  C31. Under the POSIX flavour the hook script of an environment is the
  path of a well-formed environment path followed by
  \<open>/shell/condabin/conda-hook.ps1\<close>; for the current directory and for the
  root directory, whose paths have no name, it is the anchor followed by
  \<open>shell/condabin/conda-hook.ps1\<close>.
\<close>

theorem hook_path_posix:
  assumes "wf_path p"
  shows "hook_path posix p =
     (if names p = [] then anchor p @ ''shell/condabin/conda-hook.ps1''
      else posix_str p @ ''/shell/condabin/conda-hook.ps1'')"
proof -
  from assms have n: "list_all wf_name (names p)" by (simp add: wf_path_def)
  have w: "wf_name ''shell''" "wf_name ''condabin''" "wf_name ''conda-hook.ps1''"
    by (simp_all add: wf_name_def keeps_def)
  note j = join_with_snoc [where sep = slash]
  have "hook_path posix p =
      posix_str (PosixPath (anchor p) (names p @ [''shell'', ''condabin'', ''conda-hook.ps1'']))"
    by (simp add: hook_path_def posix_def posix_truediv_def posix_parse_name [OF w(1)]
        posix_parse_name [OF w(2)] posix_parse_name [OF w(3)])
  also have "\<dots> = anchor p @
      join_with slash (names p @ [''shell'', ''condabin'', ''conda-hook.ps1''])"
    using join_with_snoc_not_Nil
      [of "''conda-hook.ps1''" slash "names p @ [''shell'', ''condabin'']"]
    by (simp add: posix_str_def)
  also have "\<dots> = (if names p = [] then anchor p @ ''shell/condabin/conda-hook.ps1''
      else posix_str p @ ''/shell/condabin/conda-hook.ps1'')"
  proof (cases "names p = []")
    case True
    then show ?thesis by simp
  next
    case False
    with n have "join_with slash (names p) \<noteq> []" by (simp add: join_with_eq_Nil_wf)
    moreover have "join_with slash (names p @ [''shell'', ''condabin'', ''conda-hook.ps1'']) =
        join_with slash (names p) @ ''/shell/condabin/conda-hook.ps1''"
      using False j [of "names p @ [''shell'', ''condabin'']" "''conda-hook.ps1''"]
        j [of "names p @ [''shell'']" "''condabin''"] j [of "names p" "''shell''"]
      by simp
    ultimately show ?thesis using False by (simp add: posix_str_def)
  qed
  finally show ?thesis .
qed

theorem hook_path_posix_witness:
  "hook_path posix (PosixPath ''/'' [''opt'', ''env'']) =
     ''/opt/env/shell/condabin/conda-hook.ps1'' \<and>
   hook_path posix (PosixPath ''/'' []) = ''/shell/condabin/conda-hook.ps1''"
  using hook_path_posix [of "PosixPath ''/'' [''opt'', ''env'']"]
    hook_path_posix [of "PosixPath ''/'' []"]
  by (simp add: wf_path_def wf_name_def keeps_def posix_str_def)

end
