(* ===== verification/Checker.thy ===== *)
theory Checker
  imports Scanner Enumerator
begin

text \<open>
  The environment validator and the aggregation of the scan:
  \<open>check_conda_environment\<close> of \<open>check_env_files.py\<close> (lines 60 to 87). The
  three tests on the environment path with their early returns are the guards
  of \<open>check_conda_environment\<close>, in the order of the source; \<open>scan_files\<close> is
  the \<open>for\<close> loop over the enumerated files (lines 83 to 85) with its
  accumulator \<open>all_issues\<close>.

  The second half of the theory is the specification the function implements:
  \<open>view_env\<close> is what the function observes of a world, \<open>env_result\<close> the
  result for each observation and \<open>env_events\<close> the calls it makes;
  \<open>check_conda_environment_eq\<close> is the refinement theorem. The theory ends
  with two scenarios (a POSIX environment \<open>env\<close> with its hook script) and the
  properties of the validator and of the result.
\<close>

section \<open>Messages of the validator\<close>

definition msg_env_missing :: "pystr \<Rightarrow> issue" where
  [msg_defs]: "msg_env_missing env_path = ''Environment path does not exist: '' @ env_path"

definition msg_env_not_dir :: "pystr \<Rightarrow> issue" where
  [msg_defs]: "msg_env_not_dir env_path = ''Environment path is not a directory: '' @ env_path"

definition msg_not_conda :: "pystr \<Rightarrow> issue" where
  [msg_defs]: "msg_not_conda env_path =
     ''Not a conda environment (no conda-meta directory): '' @ env_path"

section \<open>The loop and the function\<close>

fun scan_files ::
  "'p pathlib \<Rightarrow> world \<Rightarrow> 'p list \<Rightarrow> issue list \<Rightarrow> issue list raising \<times> world" where
  "scan_files L w [] all_issues = (Inr all_issues, w)"
| "scan_files L w (file_path # files) all_issues =
     and_then (check_file_for_extended_paths L w file_path) (\<lambda>issues w.
       scan_files L w files (all_issues @ issues))"

definition check_conda_environment ::
  "'p pathlib \<Rightarrow> world \<Rightarrow> pystr \<Rightarrow> check_result raising \<times> world" where
  "check_conda_environment L w env_path =
     (let env_path_obj = make_path L env_path in
      and_then (path_exists w (fspath L env_path_obj)) (\<lambda>found w.
        if \<not> found then (Inr (False, [msg_env_missing env_path]), w)
        else and_then (path_is_dir w (fspath L env_path_obj)) (\<lambda>is_dir w.
          if \<not> is_dir then (Inr (False, [msg_env_not_dir env_path]), w)
          else
            (let conda_meta = truediv L env_path_obj ''conda-meta'' in
             and_then (path_exists w (fspath L conda_meta)) (\<lambda>found_meta w.
               if \<not> found_meta then (Inr (False, [msg_not_conda env_path]), w)
               else
                 (let files_to_check = get_files_to_check L env_path_obj in
                  and_then (scan_files L w files_to_check []) (\<lambda>all_issues w.
                    (Inr (length all_issues = 0, all_issues), w))))))))"

section \<open>The specification of the loop\<close>

text \<open>
  The issues of a list of files: those of each file, in the order of the list,
  unless the test for existence raises for one of them; then the exception of
  the first such file, and no later file is looked at.
\<close>

fun files_issues :: "world \<Rightarrow> pystr list \<Rightarrow> issue list raising" where
  "files_issues w [] = Inr []"
| "files_issues w (p # ps) =
     append_raising (file_issues p (view_file w p)) (files_issues w ps)"

fun files_events :: "world \<Rightarrow> pystr list \<Rightarrow> event list" where
  "files_events w [] = []"
| "files_events w (p # ps) =
     file_events w p @
     (if returned (file_issues p (view_file w p)) then files_events w ps else [])"

section \<open>The specification of the function\<close>

datatype env_view =
    EnvStatError exn
  | PathNotFound
  | NotADirectory
  | MetaStatError exn
  | NotAnEnvironment
  | ValidEnv

fun env_view_of :: "stat_result \<Rightarrow> stat_result \<Rightarrow> env_view" where
  "env_view_of (StatFails e) meta = EnvStatError e"
| "env_view_of NoEntry meta = PathNotFound"
| "env_view_of IsFile meta = NotADirectory"
| "env_view_of IsDir (StatFails e) = MetaStatError e"
| "env_view_of IsDir NoEntry = NotAnEnvironment"
| "env_view_of IsDir IsDir = ValidEnv"
| "env_view_of IsDir IsFile = ValidEnv"

definition env_root :: "'p pathlib \<Rightarrow> pystr \<Rightarrow> pystr" where
  "env_root L env_path = fspath L (make_path L env_path)"

definition env_meta :: "'p pathlib \<Rightarrow> pystr \<Rightarrow> pystr" where
  "env_meta L env_path = fspath L (truediv L (make_path L env_path) ''conda-meta'')"

definition env_hook :: "'p pathlib \<Rightarrow> pystr \<Rightarrow> pystr" where
  "env_hook L env_path = hook_path L (make_path L env_path)"

definition env_targets :: "'p pathlib \<Rightarrow> pystr \<Rightarrow> pystr list" where
  "env_targets L env_path = map (fspath L) (get_files_to_check L (make_path L env_path))"

definition view_env :: "'p pathlib \<Rightarrow> world \<Rightarrow> pystr \<Rightarrow> env_view" where
  "view_env L w env_path =
     env_view_of (stat_of w (env_root L env_path)) (stat_of w (env_meta L env_path))"

fun result_of_issues :: "issue list raising \<Rightarrow> check_result raising" where
  "result_of_issues (Inl e) = Inl e"
| "result_of_issues (Inr issues) = Inr (issues = [], issues)"

fun result_of_view :: "env_view \<Rightarrow> pystr \<Rightarrow> issue list raising \<Rightarrow> check_result raising" where
  "result_of_view (EnvStatError e) env_path scan = Inl e"
| "result_of_view PathNotFound env_path scan = Inr (False, [msg_env_missing env_path])"
| "result_of_view NotADirectory env_path scan = Inr (False, [msg_env_not_dir env_path])"
| "result_of_view (MetaStatError e) env_path scan = Inl e"
| "result_of_view NotAnEnvironment env_path scan = Inr (False, [msg_not_conda env_path])"
| "result_of_view ValidEnv env_path scan = result_of_issues scan"

definition env_result :: "'p pathlib \<Rightarrow> world \<Rightarrow> pystr \<Rightarrow> check_result raising" where
  "env_result L w env_path =
     result_of_view (view_env L w env_path) env_path (files_issues w (env_targets L env_path))"

fun events_of_view :: "env_view \<Rightarrow> pystr \<Rightarrow> pystr \<Rightarrow> event list \<Rightarrow> event list" where
  "events_of_view (EnvStatError e) root meta scan = [EvStat root]"
| "events_of_view PathNotFound root meta scan = [EvStat root]"
| "events_of_view NotADirectory root meta scan = [EvStat root, EvStat root]"
| "events_of_view (MetaStatError e) root meta scan = [EvStat root, EvStat root, EvStat meta]"
| "events_of_view NotAnEnvironment root meta scan = [EvStat root, EvStat root, EvStat meta]"
| "events_of_view ValidEnv root meta scan = [EvStat root, EvStat root, EvStat meta] @ scan"

definition env_events :: "'p pathlib \<Rightarrow> world \<Rightarrow> pystr \<Rightarrow> event list" where
  "env_events L w env_path =
     events_of_view (view_env L w env_path) (env_root L env_path) (env_meta L env_path)
       (files_events w (env_targets L env_path))"

section \<open>Scenarios\<close>

text \<open>
  A POSIX environment \<open>env\<close> with its \<open>conda-meta\<close> directory and the hook
  script, whose file answers \<open>io\<close> when it is opened and read.
\<close>

definition hook :: pystr where
  "hook = ''env/shell/condabin/conda-hook.ps1''"

definition env_with :: "file_io \<Rightarrow> world" where
  "env_with io =
     mk_world [(''env'', IsDir), (''env/conda-meta'', IsDir), (hook, IsFile)] [(hook, io)]"

section \<open>The loop is its specification\<close>

lemma files_issues_log [simp]: "files_issues (log w es) ps = files_issues w ps"
  by (induction ps) simp_all

lemma files_events_log [simp]: "files_events (log w es) ps = files_events w ps"
  by (induction ps) simp_all

lemma files_issues_same_env: "same_env w w' \<Longrightarrow> files_issues w' ps = files_issues w ps"
  by (induction ps) (simp_all add: view_file_same_env)

lemma files_events_same_env: "same_env w w' \<Longrightarrow> files_events w' ps = files_events w ps"
  by (induction ps) (simp_all add: view_file_same_env file_events_same_env)

lemma scan_files_eq:
  "scan_files L w files acc =
     (append_raising (Inr acc) (files_issues w (map (fspath L) files)),
      log w (files_events w (map (fspath L) files)))"
proof (induction files arbitrary: w acc)
  case Nil
  show ?case by simp
next
  case (Cons f files)
  show ?case
    by (cases "file_issues (fspath L f) (view_file w (fspath L f))";
        cases "files_issues w (map (fspath L) files)")
      (simp_all add: check_file_eq Cons.IH)
qed

lemma files_issues_append:
  "files_issues w (ps @ qs) = append_raising (files_issues w ps) (files_issues w qs)"
  by (induction ps) (simp_all add: append_raising_assoc)

lemma open_after_files_events [simp]: "open_after (files_events w ps) fds = fds"
  by (induction ps) simp_all

lemma printed_files_events [simp]: "printed s (files_events w ps) = []"
  by (induction ps) simp_all

section \<open>The function is its specification\<close>

lemma view_env_log [simp]: "view_env L (log w es) env_path = view_env L w env_path"
  by (simp add: view_env_def)

lemma view_env_same_env: "same_env w w' \<Longrightarrow> view_env L w' env_path = view_env L w env_path"
  by (simp add: view_env_def same_env_def)

lemma env_result_log [simp]: "env_result L (log w es) env_path = env_result L w env_path"
  by (simp add: env_result_def)

lemma env_events_log [simp]: "env_events L (log w es) env_path = env_events L w env_path"
  by (simp add: env_events_def)

lemma env_result_same_env:
  "same_env w w' \<Longrightarrow> env_result L w' env_path = env_result L w env_path"
  by (simp add: env_result_def view_env_same_env files_issues_same_env)

lemma env_events_same_env:
  "same_env w w' \<Longrightarrow> env_events L w' env_path = env_events L w env_path"
  by (simp add: env_events_def view_env_same_env files_events_same_env)

lemmas env_defs =
  env_result_def env_events_def view_env_def env_root_def env_meta_def env_targets_def

lemma check_conda_environment_eq:
  "check_conda_environment L w env_path =
     (env_result L w env_path, log w (env_events L w env_path))"
proof (cases "stat_of w (env_root L env_path)")
  case IsDir
  then show ?thesis
    by (cases "stat_of w (env_meta L env_path)";
        cases "files_issues w (env_targets L env_path)")
      (simp_all add: check_conda_environment_def Let_def path_exists_eq path_is_dir_eq
        scan_files_eq env_defs)
qed (simp_all add: check_conda_environment_def Let_def path_exists_eq path_is_dir_eq env_defs)

lemma open_after_env_events [simp]: "open_after (env_events L w env_path) fds = fds"
  by (cases "view_env L w env_path") (simp_all add: env_events_def)

lemma printed_env_events [simp]: "printed s (env_events L w env_path) = []"
  by (cases "view_env L w env_path") (simp_all add: env_events_def)

section \<open>Which world gives which observation\<close>

lemma env_targets_eq [simp]: "env_targets L env_path = [env_hook L env_path]"
  by (simp add: env_targets_def env_hook_def)

lemma view_env_iffs:
  "view_env L w env_path = PathNotFound \<longleftrightarrow> stat_of w (env_root L env_path) = NoEntry"
  "view_env L w env_path = EnvStatError e \<longleftrightarrow> stat_of w (env_root L env_path) = StatFails e"
  "view_env L w env_path = NotADirectory \<longleftrightarrow> stat_of w (env_root L env_path) = IsFile"
  "view_env L w env_path = NotAnEnvironment \<longleftrightarrow>
     is_dir_at w (env_root L env_path) \<and> stat_of w (env_meta L env_path) = NoEntry"
  "view_env L w env_path = MetaStatError e \<longleftrightarrow>
     is_dir_at w (env_root L env_path) \<and> stat_of w (env_meta L env_path) = StatFails e"
  "view_env L w env_path = ValidEnv \<longleftrightarrow>
     is_dir_at w (env_root L env_path) \<and> exists_at w (env_meta L env_path)"
  by (cases "stat_of w (env_root L env_path)"; cases "stat_of w (env_meta L env_path)";
      simp add: view_env_def stat_at_defs)+

lemma view_env_ValidI:
  "is_dir_at w (env_root L env_path) \<Longrightarrow> exists_at w (env_meta L env_path) \<Longrightarrow>
   view_env L w env_path = ValidEnv"
  by (simp add: view_env_iffs)

section \<open>Which observation gives which result\<close>

lemma msg_env_not_Nil [simp]:
  "msg_env_missing p \<noteq> []" "msg_env_not_dir p \<noteq> []" "msg_not_conda p \<noteq> []"
  by (simp_all add: msg_defs)

lemma result_of_issues_consistent:
  "result_of_issues r = Inr (success, issues) \<Longrightarrow> success \<longleftrightarrow> issues = []"
  by (cases r) auto

lemma result_of_view_consistent:
  "result_of_view v env_path scan = Inr (success, issues) \<Longrightarrow> success \<longleftrightarrow> issues = []"
  by (cases v) (auto dest: result_of_issues_consistent)

lemma result_of_issues_success_iff:
  "result_of_issues r = Inr (True, issues) \<longleftrightarrow> r = Inr [] \<and> issues = []"
  by (cases r) auto

lemma result_of_view_success_iff:
  "result_of_view v env_path scan = Inr (True, issues) \<longleftrightarrow>
     v = ValidEnv \<and> scan = Inr [] \<and> issues = []"
  by (cases v) (auto simp: result_of_issues_success_iff)

lemma result_of_issues_returned [simp]: "returned (result_of_issues r) \<longleftrightarrow> returned r"
  by (cases r) simp_all

lemma result_of_view_raises_iff:
  "result_of_view v env_path scan = Inl e \<longleftrightarrow>
     v = EnvStatError e \<or> v = MetaStatError e \<or> (v = ValidEnv \<and> scan = Inl e)"
  by (cases v; cases scan) auto

lemma files_issues_concat:
  assumes "\<forall>p \<in> set ps. \<not> stat_raises w p"
  shows "files_issues w ps = Inr (concat (map (issues_of w) ps))"
  using assms by (induction ps) (simp_all add: file_issues_eq_issues_of)

lemma returned_files_issues_iff:
  "returned (files_issues w ps) \<longleftrightarrow> (\<forall>p \<in> set ps. \<not> stat_raises w p)"
  by (induction ps) (simp_all add: returned_file_issues_view)

lemma length_files_issues:
  "files_issues w ps = Inr issues \<Longrightarrow> length issues \<le> 2 * length ps"
proof (induction ps arbitrary: issues)
  case Nil
  then show ?case by simp
next
  case (Cons p ps)
  from Cons.prems obtain xs ys where
    xs: "file_issues p (view_file w p) = Inr xs" and ys: "files_issues w ps = Inr ys"
    and "issues = xs @ ys"
    by (auto simp: append_raising_eq_Inr_iff)
  with length_file_issues [OF xs] Cons.IH [OF ys] show ?case by simp
qed

lemma length_result_of_view:
  assumes "result_of_view v env_path scan = Inr (success, issues)"
      and "\<And>xs. scan = Inr xs \<Longrightarrow> length xs \<le> n" and "1 \<le> n"
  shows "length issues \<le> n"
  using assms by (cases v; cases scan) auto

lemma result_of_view_failure_not_Nil:
  "result_of_view v env_path scan = Inr (False, issues) \<Longrightarrow> issues \<noteq> []"
  by (cases v; cases scan) auto

lemma files_issues_single [simp]: "files_issues w [p] = file_issues p (view_file w p)"
  by simp

lemma env_result_valid:
  assumes "is_dir_at w (env_root L env_path)" and "exists_at w (env_meta L env_path)"
  shows "env_result L w env_path =
           result_of_issues
             (file_issues (env_hook L env_path) (view_file w (env_hook L env_path)))"
  using assms by (simp add: env_result_def view_env_ValidI)

lemma env_events_valid:
  assumes "is_dir_at w (env_root L env_path)" and "exists_at w (env_meta L env_path)"
  shows "env_events L w env_path =
           [EvStat (env_root L env_path), EvStat (env_root L env_path),
            EvStat (env_meta L env_path)] @ file_events w (env_hook L env_path)"
  using assms by (simp add: env_events_def view_env_ValidI)

section \<open>A loop that is left by an exception\<close>

lemma files_events_append:
  "returned (files_issues w ps) \<Longrightarrow>
     files_events w (ps @ qs) = files_events w ps @ files_events w qs"
  by (induction ps) (auto split: if_splits)

lemma files_raise_at:
  assumes "returned (files_issues w ps)" and "stat_of w p = StatFails e"
  shows "files_issues w (ps @ p # qs) = Inl e"
    and "files_events w (ps @ p # qs) = files_events w ps @ [EvStat p]"
proof -
  from assms(2) have v: "view_file w p = StatError e" by (simp add: view_file_StatError_iff)
  from assms(1) obtain xs where "files_issues w ps = Inr xs" by (rule returnedE)
  with v show "files_issues w (ps @ p # qs) = Inl e" by (simp add: files_issues_append)
  from assms v show "files_events w (ps @ p # qs) = files_events w ps @ [EvStat p]"
    by (simp add: files_events_append file_events_def)
qed

section \<open>The check of a valid environment is the scan of its hook script\<close>

lemma scan_single_file: "scan_files L w [fp] [] = check_file_for_extended_paths L w fp"
  by simp

lemma check_valid_environment:
  assumes "is_dir_at w (env_root L env_path)" and "exists_at w (env_meta L env_path)"
  obtains fp where "fspath L fp = env_hook L env_path"
    and "fst (check_conda_environment L w env_path) =
           result_of_issues (fst (check_file_for_extended_paths L w fp))"
proof
  let ?fp = "truediv L (truediv L (truediv L (make_path L env_path) ''shell'') ''condabin'')
    ''conda-hook.ps1''"
  show "fspath L ?fp = env_hook L env_path"
    by (simp add: env_hook_def hook_path_def)
  then show "fst (check_conda_environment L w env_path) =
      result_of_issues (fst (check_file_for_extended_paths L w ?fp))"
    using assms by (simp add: check_conda_environment_eq env_result_valid check_file_eq)
qed

section \<open>The scenarios\<close>

lemma posix_env_paths [simp]:
  "env_root posix ''env'' = ''env''"
  "env_meta posix ''env'' = ''env/conda-meta''"
  "env_hook posix ''env'' = hook"
  by (simp_all add: env_root_def env_meta_def env_hook_def hook_path_def hook_def posix_eval)

lemma env_with_answers [simp]:
  "is_dir_at (env_with io) ''env''"
  "exists_at (env_with io) ''env/conda-meta''"
  "exists_at (env_with io) hook"
  "data_of (env_with io) hook = io"
  by (simp_all add: env_with_def hook_def stat_at_defs)

section \<open>The validator and the result\<close>

text \<open>
  C1. \<open>check_conda_environment\<close> reports success exactly when the environment
  path is a directory, its \<open>conda-meta\<close> entry and the hook script exist, the
  script can be read, and the text decoded from it contains neither \<open>//?/\<close> nor
  \<open>\\?\\<close>. In every other world it returns issues or raises.
\<close>

theorem success_iff:
  "fst (check_conda_environment L w env_path) = Inr (True, []) \<longleftrightarrow>
     is_dir_at w (env_root L env_path) \<and>
     exists_at w (env_meta L env_path) \<and>
     exists_at w (env_hook L env_path) \<and>
     (\<exists>bs. data_of w (env_hook L env_path) = Bytes bs \<and>
           \<not> contains fwd_prefix (decode_text bs) \<and>
           \<not> contains bwd_prefix (decode_text bs))"
  by (auto simp: check_conda_environment_eq env_result_def result_of_view_success_iff
      view_env_iffs file_issues_Nil_iff view_file_Content_iff)

text \<open>
  C2. The result is consistent: whenever \<open>check_conda_environment\<close> returns a
  pair \<open>(success, issues)\<close>, \<open>success\<close> is true exactly when \<open>issues\<close> is empty.
\<close>

theorem check_result_consistent:
  assumes "fst (check_conda_environment L w env_path) = Inr (success, issues)"
  shows "success \<longleftrightarrow> issues = []"
  using assms
  by (simp add: check_conda_environment_eq env_result_def result_of_view_consistent)

theorem check_result_consistent_witness:
  "fst (check_conda_environment posix (env_with (Bytes ''ok'')) ''env'') = Inr (True, []) \<and>
   (True \<longleftrightarrow> ([] :: issue list) = [])"
proof -
  have "fst (check_conda_environment posix (env_with (Bytes ''ok'')) ''env'') = Inr (True, [])"
    by (simp add: check_conda_environment_eq env_result_valid view_file_ContentI
        decode_eval scan_eval)
  from this check_result_consistent [OF this] show ?thesis by simp
qed

text \<open>
  C3. \<open>check_conda_environment\<close> implements its specification: its result is
  \<open>env_result\<close>, a function of what the world answers for the environment
  path, the \<open>conda-meta\<close> entry and the hook script, and its only effect is to
  append the events \<open>env_events\<close> to the trace.
\<close>

theorem checker_refines_spec:
  "check_conda_environment L w env_path =
     (env_result L w env_path, log w (env_events L w env_path))"
  by (rule check_conda_environment_eq)

text \<open>
  C4. For an environment path that does not exist, the result is failure with
  exactly one issue, which quotes the path as it was given; the file system was
  asked once, and nothing was scanned.
\<close>

theorem missing_path_one_issue:
  assumes "stat_of w (env_root L env_path) = NoEntry"
  shows "check_conda_environment L w env_path =
           (Inr (False, [''Environment path does not exist: '' @ env_path]),
            log w [EvStat (env_root L env_path)])"
  using assms
  by (simp add: check_conda_environment_eq env_result_def env_events_def view_env_def msg_defs)

theorem missing_path_one_issue_witness:
  "check_conda_environment posix (mk_world [] []) ''env'' =
     (Inr (False, [''Environment path does not exist: env'']),
      log (mk_world [] []) [EvStat ''env''])"
  using missing_path_one_issue [of "mk_world [] []" posix "''env''"] by simp

text \<open>
  C5. For an environment path that exists and is not a directory, the result is
  failure with exactly one issue quoting the path; the file system was asked
  twice about the path.
\<close>

theorem not_a_directory_one_issue:
  assumes "stat_of w (env_root L env_path) = IsFile"
  shows "check_conda_environment L w env_path =
           (Inr (False, [''Environment path is not a directory: '' @ env_path]),
            log w [EvStat (env_root L env_path), EvStat (env_root L env_path)])"
  using assms
  by (simp add: check_conda_environment_eq env_result_def env_events_def view_env_def msg_defs)

theorem not_a_directory_one_issue_witness:
  "check_conda_environment posix (mk_world [(''env'', IsFile)] []) ''env'' =
     (Inr (False, [''Environment path is not a directory: env'']),
      log (mk_world [(''env'', IsFile)] []) [EvStat ''env'', EvStat ''env''])"
  using not_a_directory_one_issue [of "mk_world [(''env'', IsFile)] []" posix "''env''"]
  by simp

text \<open>
  C6. For a directory without a \<open>conda-meta\<close> entry, the result is failure with
  exactly one issue quoting the path, and no file was opened.
\<close>

theorem not_an_environment_one_issue:
  assumes "is_dir_at w (env_root L env_path)"
      and "stat_of w (env_meta L env_path) = NoEntry"
  shows "check_conda_environment L w env_path =
           (Inr (False, [''Not a conda environment (no conda-meta directory): '' @ env_path]),
            log w [EvStat (env_root L env_path), EvStat (env_root L env_path),
                   EvStat (env_meta L env_path)])"
  using assms
  by (simp add: check_conda_environment_eq env_result_def env_events_def view_env_def
      is_dir_at_def msg_defs)

theorem not_an_environment_one_issue_witness:
  "check_conda_environment posix (mk_world [(''env'', IsDir)] []) ''env'' =
     (Inr (False, [''Not a conda environment (no conda-meta directory): env'']),
      log (mk_world [(''env'', IsDir)] [])
        [EvStat ''env'', EvStat ''env'', EvStat ''env/conda-meta''])"
  using not_an_environment_one_issue [of "mk_world [(''env'', IsDir)] []" posix "''env''"]
  by (simp add: is_dir_at_def)

end
