(* ===== verification/ArgParse.thy ===== *)
theory ArgParse
  imports World Codec
begin

text \<open>
  The command line: the parser that \<open>main\<close> of \<open>check_env_files.py\<close> builds
  (lines 95 to 101: one positional argument \<open>env_path\<close>, and the option
  \<open>-h\<close>, \<open>--help\<close> that every \<open>ArgumentParser\<close> has) and the call
  \<open>parser.parse_args()\<close> (line 103) on the arguments of the process.

  \<open>parse_args\<close> follows \<open>argparse\<close> of CPython 3.11. Every argument before
  the first \<open>--\<close> is classified (\<open>classify\<close>): it is the positional argument,
  a request for help, an option with an explicit argument that \<open>-h\<close> does not
  take, or an option the parser does not know. The first request for help or
  ignored explicit argument, from the left, ends the process (status 0 or 2).
  Without one, the first positional argument is \<open>env_path\<close>, and every other
  argument is unrecognised and ends the process with status 2, as does a
  command line without a positional argument.

  An argument that starts with \<open>-\<close> is positional when it looks like a negative
  number (the regular expression of \<open>argparse\<close>, whose digits are the
  decimal digits of Unicode 14) or holds a space: these are the cases in which a path
  that starts with \<open>-\<close> is accepted without \<open>--\<close>.
\<close>

section \<open>Characters\<close>

abbreviation dash :: char where
  "dash \<equiv> CHR ''-''"

abbreviation equals :: char where
  "equals \<equiv> CHR ''=''"

abbreviation dashdash :: pystr where
  "dashdash \<equiv> ''--''"

text \<open>
  The code points of a string: the decoder of \<open>Codec\<close>, with the number of
  each character in place of its bytes. A byte that is not part of a
  well-formed character is a lone surrogate, as in the arguments of a process.
\<close>

definition point :: "char \<Rightarrow> pybytes \<Rightarrow> nat" where
  "point b cs =
     fold (\<lambda>c acc. acc * 64 + (byte c - 0x80)) cs
       (byte b - (if need b = 1 then 0xC0 else if need b = 2 then 0xE0 else 0xF0))"

fun utf8_points :: "pystr \<Rightarrow> nat list" where
  "utf8_points [] = []"
| "utf8_points (b # bs) =
     (if is_ascii b then byte b # utf8_points bs
      else if 0 < need b \<and> conts b bs = need b
        then point b (take (need b) bs) # utf8_points (drop (need b) bs)
      else (0xDC00 + byte b) # utf8_points bs)"

text \<open>The decimal digits of Unicode 14: the first code point of each run and its length.\<close>

definition nd_ranges :: "(nat \<times> nat) list" where
  "nd_ranges =
     [(0x30, 10), (0x660, 10), (0x6F0, 10), (0x7C0, 10), (0x966, 10), (0x9E6, 10),
      (0xA66, 10), (0xAE6, 10), (0xB66, 10), (0xBE6, 10), (0xC66, 10), (0xCE6, 10),
      (0xD66, 10), (0xDE6, 10), (0xE50, 10), (0xED0, 10), (0xF20, 10), (0x1040, 10),
      (0x1090, 10), (0x17E0, 10), (0x1810, 10), (0x1946, 10), (0x19D0, 10), (0x1A80, 10),
      (0x1A90, 10), (0x1B50, 10), (0x1BB0, 10), (0x1C40, 10), (0x1C50, 10), (0xA620, 10),
      (0xA8D0, 10), (0xA900, 10), (0xA9D0, 10), (0xA9F0, 10), (0xAA50, 10), (0xABF0, 10),
      (0xFF10, 10), (0x104A0, 10), (0x10D30, 10), (0x11066, 10), (0x110F0, 10),
      (0x11136, 10), (0x111D0, 10), (0x112F0, 10), (0x11450, 10), (0x114D0, 10),
      (0x11650, 10), (0x116C0, 10), (0x11730, 10), (0x118E0, 10), (0x11950, 10),
      (0x11C50, 10), (0x11D50, 10), (0x11DA0, 10), (0x16A60, 10), (0x16AC0, 10),
      (0x16B50, 10), (0x1D7CE, 50), (0x1E140, 10), (0x1E2F0, 10), (0x1E950, 10),
      (0x1FBF0, 10)]"

definition is_decimal :: "nat \<Rightarrow> bool" where
  "is_decimal cp \<longleftrightarrow> list_ex (\<lambda>(first, n). first \<le> cp \<and> cp < first + n) nd_ranges"

definition digits :: "nat list \<Rightarrow> bool" where
  "digits ps \<longleftrightarrow> ps \<noteq> [] \<and> list_all is_decimal ps"

text \<open>
  The regular expression of \<open>argparse\<close> for a negative number: a minus
  sign, then digits, or digits (or none), a point and digits. Its end also
  matches before a line feed that ends the string.
\<close>

definition strip_newline :: "nat list \<Rightarrow> nat list" where
  "strip_newline ps = (if ps \<noteq> [] \<and> last ps = 10 then butlast ps else ps)"

definition looks_negative :: "pystr \<Rightarrow> bool" where
  "looks_negative a =
     (case strip_newline (utf8_points a) of
        [] \<Rightarrow> False
      | p # r \<Rightarrow>
          p = 45 \<and>
          (digits r \<or>
           46 \<in> set r \<and> list_all is_decimal (takeWhile (\<lambda>q. q \<noteq> 46) r) \<and>
             digits (tl (dropWhile (\<lambda>q. q \<noteq> 46) r))))"

section \<open>The classes of an argument\<close>

datatype kind = Positional | Help | Bad pystr | Unknown

text \<open>
  \<open>-h\<close> with more characters glued to it, read as a sequence of one-letter
  options: another \<open>h\<close> is \<open>-h\<close> again, an \<open>=\<close> after it starts an explicit
  argument, which \<open>-h\<close> does not take, and any other letter is an unknown
  option that is noticed only after the help was printed.
\<close>

fun short_tail :: "bool \<Rightarrow> pystr \<Rightarrow> kind" where
  "short_tail sep [] = Bad []"
| "short_tail sep [c] = (if sep \<or> c = dash then Bad [c] else Help)"
| "short_tail sep (c # d # ds) =
     (if sep \<or> c = dash then Bad (c # d # ds)
      else if c \<noteq> CHR ''h'' then Help
      else if d = equals then short_tail True ds
      else short_tail False (d # ds))"

definition classify :: "pystr \<Rightarrow> kind" where
  "classify a =
     (let sep = equals \<in> set a;
          opt = takeWhile (\<lambda>c. c \<noteq> equals) a;
          explicit = drop 1 (dropWhile (\<lambda>c. c \<noteq> equals) a)
      in if a = [] \<or> hd a \<noteq> dash then Positional
         else if a = ''-h'' \<or> a = ''--help'' then Help
         else if length a = 1 then Positional
         else if sep \<and> (opt = ''-h'' \<or> opt = ''--help'') then Bad explicit
         else if a ! 1 = dash \<and> prefix opt ''--help'' then (if sep then Bad explicit else Help)
         else if a ! 1 \<noteq> dash \<and> take 2 a = ''-h'' then short_tail False (drop 2 a)
         else if looks_negative a then Positional
         else if CHR '' '' \<in> set a then Positional
         else Unknown)"

section \<open>Parsing\<close>

text \<open>
  The first argument, from the left, that ends the process while the arguments
  are consumed: a request for help or an ignored explicit argument.
\<close>

fun decisive :: "kind list \<Rightarrow> (usage_msg \<times> int) option" where
  "decisive [] = None"
| "decisive (Help # ks) = Some (HelpMessage, 0)"
| "decisive (Bad e # ks) = Some (IgnoredExplicitArgument e, 2)"
| "decisive (k # ks) = decisive ks"

text \<open>
  \<open>parse_result argv\<close> is the outcome of \<open>parse_args\<close> on the arguments
  \<open>argv\<close> (without the name of the program): the message and the exit status
  with which \<open>argparse\<close> leaves the process, or the value of \<open>args.env_path\<close>.
  \<open>front\<close> are the arguments before the first \<open>--\<close>, \<open>rest\<close> that \<open>--\<close> and
  what follows it. \<open>positional\<close> goes through \<open>front\<close> for \<open>env_path\<close>: it
  is the first positional argument, or else the argument after \<open>--\<close>; the
  \<open>--\<close> next to it is dropped with it, and \<open>accept\<close> refuses the command line
  when an option was skipped on the way or any other argument is left.
\<close>

definition accept ::
  "pystr list \<Rightarrow> pystr \<Rightarrow> pystr list \<Rightarrow> usage_msg \<times> int + pystr" where
  "accept skipped env_path extras =
     (if skipped @ extras = [] then Inr env_path
      else Inl (UnrecognizedArguments (skipped @ extras), 2))"

fun positional ::
  "pystr list \<Rightarrow> pystr list \<Rightarrow> pystr list \<Rightarrow> usage_msg \<times> int + pystr" where
  "positional skipped [] rest =
     (case drop 1 rest of
        [] \<Rightarrow> Inl (ArgumentsRequired, 2)
      | env_path # after \<Rightarrow> accept skipped env_path after)"
| "positional skipped (a # front) rest =
     (if classify a = Positional
      then accept skipped a (front @ (if front = [] then drop 1 rest else rest))
      else positional (skipped @ [a]) front rest)"

definition parse_result :: "pystr list \<Rightarrow> usage_msg \<times> int + pystr" where
  "parse_result argv =
     (let front = takeWhile (\<lambda>a. a \<noteq> dashdash) argv;
          rest = dropWhile (\<lambda>a. a \<noteq> dashdash) argv
      in case decisive (map classify front) of
           Some leave \<Rightarrow> Inl leave
         | None \<Rightarrow> positional [] front rest)"

text \<open>
  \<open>parse_args\<close> as a call: it returns \<open>env_path\<close>, or writes its message and
  raises \<open>SystemExit\<close> with the status.
\<close>

definition parse_args :: "world \<Rightarrow> pystr list \<Rightarrow> (int + pystr) \<times> world" where
  "parse_args w argv =
     (case parse_result argv of
        Inl (msg, status) \<Rightarrow> (Inl status, emit (EvUsage msg) w)
      | Inr env_path \<Rightarrow> (Inr env_path, w))"

text \<open>The equations that evaluate the parser on concrete arguments.\<close>

lemmas argparse_eval =
  parse_result_def accept_def classify_def looks_negative_def strip_newline_def digits_def is_decimal_def
  nd_ranges_def point_def byte_defs Let_def

section \<open>Arguments that are paths\<close>

lemma classify_plain [simp]: "a = [] \<or> hd a \<noteq> dash \<Longrightarrow> classify a = Positional"
  by (auto simp: classify_def)

lemma classify_help [simp]: "classify ''-h'' = Help" "classify ''--help'' = Help"
  by (simp_all add: classify_def)

lemma decisive_None_iff:
  "decisive ks = None \<longleftrightarrow> (\<forall>k \<in> set ks. k = Positional \<or> k = Unknown)"
  by (induction ks rule: decisive.induct) auto

lemma decisive_status: "decisive ks = Some (msg, status) \<Longrightarrow> status = 0 \<or> status = 2"
  by (induction ks rule: decisive.induct) auto

lemma decisive_help_iff: "decisive ks = Some (msg, 0) \<longleftrightarrow> decisive ks = Some (HelpMessage, 0) \<and> msg = HelpMessage"
  by (induction ks rule: decisive.induct) auto

section \<open>When the arguments are accepted\<close>

lemma accept_Inr_iff [simp]:
  "accept skipped env_path extras = Inr p \<longleftrightarrow> skipped = [] \<and> extras = [] \<and> env_path = p"
  by (auto simp: accept_def)

lemma accept_Inl_iff [simp]:
  "accept skipped env_path extras = Inl leave \<longleftrightarrow>
     skipped @ extras \<noteq> [] \<and> leave = (UnrecognizedArguments (skipped @ extras), 2)"
  by (auto simp: accept_def)

lemma positional_InrD:
  assumes "positional skipped front rest = Inr p"
  shows "skipped = [] \<and>
         (front = [p] \<and> classify p = Positional \<and> drop 1 rest = [] \<or>
          front = [] \<and> drop 1 rest = [p])"
  using assms
proof (induction front arbitrary: skipped)
  case Nil
  then show ?case by (cases "drop 1 rest") simp_all
next
  case (Cons a front)
  show ?case
  proof (cases "classify a = Positional")
    case True
    with Cons.prems show ?thesis by (auto split: if_splits)
  next
    case False
    with Cons.prems have "positional (skipped @ [a]) front rest = Inr p" by simp
    from Cons.IH [OF this] show ?thesis by simp
  qed
qed

lemma positional_leave:
  "positional skipped front rest = Inl (msg, status) \<Longrightarrow> status = 2 \<and> msg \<noteq> HelpMessage"
  by (induction front arbitrary: skipped) (auto split: list.splits if_splits)

lemma decisive_leave:
  "decisive ks = Some (msg, status) \<Longrightarrow>
     status = 0 \<and> msg = HelpMessage \<or> status = 2 \<and> msg \<noteq> HelpMessage"
  by (induction ks rule: decisive.induct) auto

lemma takeWhile_upto: "x \<notin> set xs \<Longrightarrow> takeWhile (\<lambda>a. a \<noteq> x) (xs @ x # ys) = xs"
  by (induction xs) auto

lemma dropWhile_upto: "x \<notin> set xs \<Longrightarrow> dropWhile (\<lambda>a. a \<noteq> x) (xs @ x # ys) = x # ys"
  by (induction xs) auto

text \<open>The arguments before the first \<open>--\<close>, and that \<open>--\<close> with what follows it.\<close>

lemma argv_cases:
  obtains (no_dashdash) "takeWhile (\<lambda>a. a \<noteq> dashdash) argv = argv"
      "dropWhile (\<lambda>a. a \<noteq> dashdash) argv = []" "dashdash \<notin> set argv"
  | (dashdash) front tail where "argv = front @ dashdash # tail" "dashdash \<notin> set front"
      "takeWhile (\<lambda>a. a \<noteq> dashdash) argv = front"
      "dropWhile (\<lambda>a. a \<noteq> dashdash) argv = dashdash # tail"
proof (cases "dashdash \<in> set argv")
  case False
  then show ?thesis by (intro no_dashdash) auto
next
  case True
  then obtain front tail where "argv = front @ dashdash # tail" "dashdash \<notin> set front"
    by (auto dest: split_list_first)
  then show ?thesis
    by (intro dashdash [of front tail]) (simp_all add: takeWhile_upto dropWhile_upto)
qed

lemma parse_result_single:
  assumes "classify p = Positional" and "p \<noteq> dashdash"
  shows "parse_result [p] = Inr p" and "parse_result [p, dashdash] = Inr p"
  using assms by (simp_all add: parse_result_def)

lemma parse_result_after_dashdash: "parse_result [dashdash, p] = Inr p"
  by (simp add: parse_result_def)

lemma parse_result_InrD:
  assumes "parse_result argv = Inr p"
  shows "(classify p = Positional \<and> p \<noteq> dashdash \<and> (argv = [p] \<or> argv = [p, dashdash])) \<or>
         argv = [dashdash, p]"
proof (cases argv rule: argv_cases)
  case no_dashdash
  with assms have "positional [] argv [] = Inr p"
    by (simp add: parse_result_def split: option.splits)
  from positional_InrD [OF this] no_dashdash(3) show ?thesis by auto
next
  case (dashdash front tail)
  with assms have "positional [] front (dashdash # tail) = Inr p"
    by (simp add: parse_result_def split: option.splits)
  from positional_InrD [OF this] dashdash(1,2) show ?thesis by auto
qed

lemma parse_result_Inr_iff:
  "parse_result argv = Inr p \<longleftrightarrow>
     (classify p = Positional \<and> p \<noteq> dashdash \<and> (argv = [p] \<or> argv = [p, dashdash])) \<or>
     argv = [dashdash, p]"
  using parse_result_InrD [of argv p] parse_result_single [of p] parse_result_after_dashdash [of p]
  by blast

lemma parse_result_leave:
  assumes "parse_result argv = Inl (msg, status)"
  shows "status = 0 \<and> msg = HelpMessage \<or> status = 2 \<and> msg \<noteq> HelpMessage"
  using assms
  by (auto simp: parse_result_def Let_def split: option.splits
      dest: decisive_leave positional_leave)

lemma parse_result_help_first: "parse_result (''-h'' # argv) = Inl (HelpMessage, 0)"
  by (simp add: parse_result_def)

lemma parse_result_Nil: "parse_result [] = Inl (ArgumentsRequired, 2)"
  by (simp add: parse_result_def)

end
