(* ===== verification/Cli.thy ===== *)
theory Cli
  imports Checker ArgParse
begin

text \<open>
  The reporter and the exit code: \<open>main\<close> of \<open>check_env_files.py\<close> from the
  first \<open>print\<close> on (lines 105 to 116) and the call \<open>sys.exit(main())\<close> of the
  script (lines 119 and 120). \<open>main\<close> takes the value of \<open>args.env_path\<close>;
  \<open>script\<close> is the whole process on the arguments of the command line:
  \<open>parse_args\<close> of \<open>ArgParse\<close> (lines 95 to 103), which leaves the process
  or returns the path, and then \<open>run_script\<close> on that path.

  \<open>report\<close> is the \<open>if success\<close> statement (lines 109 to 116), \<open>print_issues\<close>
  its \<open>for\<close> loop (lines 114 and 115). A \<open>print\<close> to standard output raises
  \<open>UnicodeEncodeError\<close> when the encoder of the stream does not accept the
  line; a \<open>print\<close> to standard error does not (the stream replaces what it
  cannot encode). \<open>run_script\<close> is the process: the exit status is the value
  \<open>main\<close> returns, and 1, with the exception reported, when \<open>main\<close> raises.
\<close>

section \<open>Messages of the reporter\<close>

definition msg_checking :: "pystr \<Rightarrow> pystr" where
  [msg_defs]: "msg_checking env_path = ''Checking conda environment: '' @ env_path"

text \<open>The check mark U+2713 and the ballot cross U+2717, as their UTF-8 bytes.\<close>

definition check_mark :: pystr where
  "check_mark = [CHR 0xE2, CHR 0x9C, CHR 0x93]"

definition ballot_x :: pystr where
  "ballot_x = [CHR 0xE2, CHR 0x9C, CHR 0x97]"

definition msg_ok :: pystr where
  [msg_defs]: "msg_ok = check_mark @ '' No extended-length path issues found''"

definition msg_header :: pystr where
  [msg_defs]: "msg_header = ballot_x @ '' Extended-length path issues found:''"

definition msg_bullet :: "issue \<Rightarrow> pystr" where
  [msg_defs]: "msg_bullet issue = ''  - '' @ issue"

section \<open>The reporter\<close>

fun print_issues :: "world \<Rightarrow> issue list \<Rightarrow> unit raising \<times> world" where
  "print_issues w [] = (Inr (), w)"
| "print_issues w (issue # issues) =
     and_then (py_print w Stderr (msg_bullet issue)) (\<lambda>u w. print_issues w issues)"

definition report :: "world \<Rightarrow> check_result \<Rightarrow> int raising \<times> world" where
  "report w result =
     (case result of (success, issues) \<Rightarrow>
        if success then
          and_then (py_print w Stdout msg_ok) (\<lambda>u w. (Inr 0, w))
        else
          and_then (py_print w Stderr msg_header) (\<lambda>u w.
            and_then (print_issues w issues) (\<lambda>u w. (Inr 1, w))))"

definition main :: "'p pathlib \<Rightarrow> world \<Rightarrow> pystr \<Rightarrow> int raising \<times> world" where
  "main L w env_path =
     and_then (py_print w Stdout (msg_checking env_path)) (\<lambda>u w.
       and_then (check_conda_environment L w env_path) (\<lambda>result w.
         report w result))"

definition run_script :: "'p pathlib \<Rightarrow> world \<Rightarrow> pystr \<Rightarrow> int \<times> world" where
  "run_script L w env_path =
     (case main L w env_path of
        (Inr code, w) \<Rightarrow> (code, w)
      | (Inl e, w) \<Rightarrow> (1, emit (EvUncaught e) w))"

text \<open>
  The script with the arguments of the process: \<open>main\<close> parses them first
  (line 103), and \<open>SystemExit\<close> of \<open>argparse\<close> leaves \<open>main\<close> and ends the
  process with its status, without a traceback.
\<close>

definition script :: "'p pathlib \<Rightarrow> world \<Rightarrow> pystr list \<Rightarrow> int \<times> world" where
  "script L w argv =
     (case parse_args w argv of
        (Inl status, w) \<Rightarrow> (status, w)
      | (Inr env_path, w) \<Rightarrow> run_script L w env_path)"

section \<open>The specification of the reporter\<close>

definition bullets :: "issue list \<Rightarrow> event list" where
  "bullets issues = map (\<lambda>i. EvPrint Stderr (msg_bullet i)) issues"

fun report_result :: "(pystr \<Rightarrow> bool) \<Rightarrow> check_result raising \<Rightarrow> int raising" where
  "report_result acc (Inl e) = Inl e"
| "report_result acc (Inr (success, issues)) =
     (if \<not> success then Inr 1
      else if acc msg_ok then Inr 0
      else Inl (UnicodeEncodeError msg_ok))"

fun report_events :: "(pystr \<Rightarrow> bool) \<Rightarrow> check_result raising \<Rightarrow> event list" where
  "report_events acc (Inl e) = []"
| "report_events acc (Inr (success, issues)) =
     (if \<not> success then EvPrint Stderr msg_header # bullets issues
      else if acc msg_ok then [EvPrint Stdout msg_ok]
      else [])"

definition main_result :: "'p pathlib \<Rightarrow> world \<Rightarrow> pystr \<Rightarrow> int raising" where
  "main_result L w env_path =
     (if stdout_accepts w (msg_checking env_path)
      then report_result (stdout_accepts w) (env_result L w env_path)
      else Inl (UnicodeEncodeError (msg_checking env_path)))"

definition main_events :: "'p pathlib \<Rightarrow> world \<Rightarrow> pystr \<Rightarrow> event list" where
  "main_events L w env_path =
     (if stdout_accepts w (msg_checking env_path)
      then EvPrint Stdout (msg_checking env_path) #
           env_events L w env_path @
           report_events (stdout_accepts w) (env_result L w env_path)
      else [])"

fun exit_status :: "int raising \<Rightarrow> int" where
  "exit_status (Inr code) = code"
| "exit_status (Inl e) = 1"

fun uncaught :: "int raising \<Rightarrow> event list" where
  "uncaught (Inr code) = []"
| "uncaught (Inl e) = [EvUncaught e]"

section \<open>The reporter is its specification\<close>

lemma print_issues_eq [trace_simps]: "print_issues w issues = (Inr (), log w (bullets issues))"
  by (induction issues arbitrary: w) (simp_all add: bullets_def)

lemma report_eq:
  "report w result =
     (report_result (stdout_accepts w) (Inr result),
      log w (report_events (stdout_accepts w) (Inr result)))"
  by (cases result) (simp add: report_def print_issues_eq)

lemma main_eq: "main L w env_path = (main_result L w env_path, log w (main_events L w env_path))"
proof (cases "stdout_accepts w (msg_checking env_path)")
  case True
  then show ?thesis
    by (cases "env_result L w env_path")
      (simp_all add: main_def main_result_def main_events_def check_conda_environment_eq
        report_eq)
next
  case False
  then show ?thesis
    by (simp add: main_def main_result_def main_events_def)
qed

lemma run_script_eq:
  "run_script L w env_path =
     (exit_status (main_result L w env_path),
      log w (main_events L w env_path @ uncaught (main_result L w env_path)))"
  by (cases "main_result L w env_path") (simp_all add: run_script_def main_eq)

lemma printed_bullets [simp]:
  "printed Stderr (bullets issues) = map msg_bullet issues"
  "printed Stdout (bullets issues) = []"
  by (induction issues) (simp_all add: bullets_def)

lemma open_after_bullets [simp]: "open_after (bullets issues) fds = fds"
  by (induction issues) (simp_all add: bullets_def)

lemma open_after_report_events [simp]: "open_after (report_events acc r) fds = fds"
  by (cases "(acc, r)" rule: report_events.cases) simp_all

lemma open_after_main_events [simp]: "open_after (main_events L w env_path) fds = fds"
  by (simp add: main_events_def)

lemma open_after_uncaught [simp]: "open_after (uncaught r) fds = fds"
  by (cases r) simp_all

lemma printed_uncaught [simp]: "printed s (uncaught r) = []"
  by (cases r) simp_all

lemma exit_status_report_result: "exit_status (report_result acc r) \<in> {0, 1}"
  by (cases "(acc, r)" rule: report_result.cases) simp_all

lemma run_script_zero_iff:
  "fst (run_script L w env_path) = 0 \<longleftrightarrow>
     stdout_accepts w (msg_checking env_path) \<and> stdout_accepts w msg_ok \<and>
     fst (check_conda_environment L w env_path) = Inr (True, [])"
proof (cases "env_result L w env_path")
  case (Inl e)
  then show ?thesis
    by (simp add: run_script_eq main_result_def check_conda_environment_eq)
next
  case (Inr r)
  moreover obtain success issues where "r = (success, issues)" by (cases r)
  moreover have "success \<longleftrightarrow> issues = []"
    using calculation by (simp add: env_result_def result_of_view_consistent)
  ultimately show ?thesis
    by (auto simp: run_script_eq main_result_def check_conda_environment_eq)
qed

lemma run_script_not_two: "fst (run_script L w env_path) \<noteq> 2"
  using exit_status_report_result [of "stdout_accepts w" "env_result L w env_path"]
  by (auto simp: run_script_eq main_result_def)

section \<open>The script with its arguments\<close>

lemma script_eq:
  "script L w argv =
     (case parse_result argv of
        Inl (msg, status) \<Rightarrow> (status, log w [EvUsage msg])
      | Inr env_path \<Rightarrow> run_script L w env_path)"
  by (simp add: script_def parse_args_def split: sum.split prod.split)

lemma script_usage:
  "parse_result argv = Inl (msg, status) \<Longrightarrow> script L w argv = (status, log w [EvUsage msg])"
  by (simp add: script_eq)

lemma script_parsed: "parse_result argv = Inr env_path \<Longrightarrow> script L w argv = run_script L w env_path"
  by (simp add: script_eq)

section \<open>The number of calls\<close>

lemma length_file_events: "length (file_events w p) \<le> 4"
  by (cases "data_of w p") (simp_all add: file_events_def)

lemma length_env_events: "length (env_events L w env_path) \<le> 7"
  using length_file_events [of w "env_hook L env_path"]
  by (cases "view_env L w env_path") (simp_all add: env_events_def)

lemma length_env_result:
  assumes "env_result L w env_path = Inr (success, issues)"
  shows "length issues \<le> 2"
  using assms unfolding env_result_def
  by (rule length_result_of_view) (auto dest: length_file_issues)

lemma length_report_events: "length (report_events acc (env_result L w env_path)) \<le> 3"
proof (cases "env_result L w env_path")
  case (Inl e)
  then show ?thesis by simp
next
  case (Inr r)
  obtain success issues where r: "r = (success, issues)" by (cases r)
  with Inr have "length issues \<le> 2" by (auto dest: length_env_result)
  with Inr r show ?thesis by (simp add: bullets_def)
qed

lemma length_main_events: "length (main_events L w env_path) \<le> 11"
  using length_env_events [of L w env_path] length_report_events [of "stdout_accepts w" L w env_path]
  by (simp add: main_events_def)

lemma main_raises_no_report:
  assumes "main_result L w env_path = Inl e"
  shows "length (main_events L w env_path) \<le> 8"
proof (cases "stdout_accepts w (msg_checking env_path)")
  case False
  then show ?thesis by (simp add: main_events_def)
next
  case True
  with assms have "report_events (stdout_accepts w) (env_result L w env_path) = []"
    by (cases "(stdout_accepts w, env_result L w env_path)" rule: report_events.cases)
      (auto simp: main_result_def split: if_splits)
  with True length_env_events [of L w env_path] show ?thesis by (simp add: main_events_def)
qed

lemma length_run_script_events:
  "length (main_events L w env_path @ uncaught (main_result L w env_path)) \<le> 11"
proof (cases "main_result L w env_path")
  case (Inl e)
  with main_raises_no_report [OF Inl] show ?thesis by simp
next
  case (Inr code)
  with length_main_events [of L w env_path] show ?thesis by simp
qed

end
