(* ===== verification/Protocol.thy ===== *)
theory Protocol
  imports Cli
begin

text \<open>
  The discipline of the calls the script makes, as a state machine over the
  events of the trace. The state is the file that is open, if any. The script
  tests, prints and opens only while no file is open; it reads the file that is
  open and then closes it. \<open>step\<close> is one call, \<open>run\<close> a sequence of calls;
  the lemmas show, by induction over the events each function logs, that every
  function of the script is a run from no open file to no open file.
\<close>

section \<open>The state machine\<close>

type_synonym fd_state = "pystr option"

inductive step :: "fd_state \<Rightarrow> event \<Rightarrow> fd_state \<Rightarrow> bool" where
  stat: "step None (EvStat p) None"
| opened: "step None (EvOpen p) (Some p)"
| open_failed: "step None (EvOpenFailed p) None"
| read: "step (Some p) (EvRead p) (Some p)"
| closed: "step (Some p) (EvClose p) None"
| print: "step None (EvPrint s line) None"
| uncaught: "step None (EvUncaught e) None"
| usage: "step None (EvUsage m) None"

inductive run :: "fd_state \<Rightarrow> event list \<Rightarrow> fd_state \<Rightarrow> bool" where
  run_Nil: "run s [] s"
| run_Cons: "step s e s' \<Longrightarrow> run s' es s'' \<Longrightarrow> run s (e # es) s''"

text \<open>The open files of a state, as \<open>open_files\<close> lists them.\<close>

fun fds_of :: "fd_state \<Rightarrow> pystr list" where
  "fds_of None = []"
| "fds_of (Some p) = [p]"

code_pred step .

code_pred run .

inductive_simps step_iffs [simp]:
  "step s (EvStat p) s'"
  "step s (EvOpen p) s'"
  "step s (EvOpenFailed p) s'"
  "step s (EvRead p) s'"
  "step s (EvClose p) s'"
  "step s (EvPrint st line) s'"
  "step s (EvUncaught e) s'"
  "step s (EvUsage m) s'"

inductive_cases run_ConsE: "run s (e # es) s'"

inductive_simps run_Nil_iff [simp]: "run s [] s'"
inductive_simps run_Cons_iff: "run s (e # es) s'"

section \<open>Runs\<close>

lemma step_deterministic: "step s e s' \<Longrightarrow> step s e s'' \<Longrightarrow> s' = s''"
  by (cases e) simp_all

lemma run_deterministic: "run s es s' \<Longrightarrow> run s es s'' \<Longrightarrow> s' = s''"
proof (induction arbitrary: s'' rule: run.induct)
  case (run_Nil s)
  then show ?case by simp
next
  case (run_Cons s e s' es t)
  from run_Cons.prems obtain u where "step s e u" and "run u es s''"
    by (rule run_ConsE)
  with run_Cons show ?case using step_deterministic by blast
qed

lemma run_append: "run s es s' \<Longrightarrow> run s' fs s'' \<Longrightarrow> run s (es @ fs) s''"
  by (induction rule: run.induct) (simp_all add: run.run_Cons)

lemma run_append_split: "run s (es @ fs) s'' \<Longrightarrow> \<exists>s'. run s es s' \<and> run s' fs s''"
proof (induction es arbitrary: s)
  case Nil
  then show ?case by simp
next
  case (Cons e es)
  from Cons.prems obtain u where u: "step s e u" and "run u (es @ fs) s''"
    by (auto elim: run_ConsE)
  with Cons.IH obtain s' where "run u es s'" and "run s' fs s''" by blast
  with u show ?case by (auto intro: run.run_Cons)
qed

lemma run_idle_append [simp]:
  assumes "run None es None"
  shows "run None (es @ fs) s \<longleftrightarrow> run None fs s"
proof
  assume "run None (es @ fs) s"
  then obtain s' where "run None es s'" and r: "run s' fs s"
    using run_append_split by blast
  with assms have "s' = None" using run_deterministic by blast
  with r show "run None fs s" by simp
next
  assume "run None fs s"
  with assms show "run None (es @ fs) s" by (rule run_append)
qed

lemma run_single [simp]: "run s [e] s' \<longleftrightarrow> step s e s'"
  by (simp add: run_Cons_iff)

lemma run_idle_Cons [simp]:
  "run None (EvStat p # es) s \<longleftrightarrow> run None es s"
  "run None (EvPrint st line # es) s \<longleftrightarrow> run None es s"
  "run None (EvOpenFailed p # es) s \<longleftrightarrow> run None es s"
  "run None (EvUncaught e # es) s \<longleftrightarrow> run None es s"
  "run None (EvUsage m # es) s \<longleftrightarrow> run None es s"
  by (simp_all add: run_Cons_iff)

lemma run_file_Cons [simp]:
  "run None (EvOpen p # es) s \<longleftrightarrow> run (Some p) es s"
  "run (Some p) (EvRead p # es) s \<longleftrightarrow> run (Some p) es s"
  "run (Some p) (EvClose p # es) s \<longleftrightarrow> run None es s"
  by (simp_all add: run_Cons_iff)

text \<open>The state of a run is the list of open files that the trace gives.\<close>

lemma step_fd_step: "step s e s' \<Longrightarrow> fd_step e (fds_of s) = fds_of s'"
  by (induction rule: step.induct) simp_all

lemma run_open_after: "run s es s' \<Longrightarrow> open_after es (fds_of s) = fds_of s'"
  by (induction rule: run.induct) (simp_all add: open_after_def step_fd_step)

section \<open>The functions of the script are runs\<close>

lemma run_read_events [simp]: "run None (read_events io p) None"
  by (cases io) simp_all

lemma run_file_events [simp]: "run None (file_events w p) None"
  by (simp add: file_events_def)

lemma run_files_events [simp]: "run None (files_events w ps) None"
  by (induction ps) simp_all

lemma run_env_events [simp]: "run None (env_events L w env_path) None"
  by (cases "view_env L w env_path") (simp_all add: env_events_def)

lemma run_bullets [simp]: "run None (bullets issues) None"
  by (induction issues) (simp_all add: bullets_def)

lemma run_report_events [simp]: "run None (report_events acc r) None"
  by (cases "(acc, r)" rule: report_events.cases) simp_all

lemma run_main_events [simp]: "run None (main_events L w env_path) None"
  by (simp add: main_events_def)

lemma run_uncaught [simp]: "run None (uncaught r) None"
  by (cases r) simp_all

section \<open>Every file that is opened is closed\<close>

lemma run_Some_closes: "run (Some p) es None \<Longrightarrow> \<exists>j < length es. es ! j = EvClose p"
proof (induction es)
  case Nil
  then show ?case by simp
next
  case (Cons e es)
  from Cons.prems obtain s' where s: "step (Some p) e s'" and r: "run s' es None"
    by (rule run_ConsE)
  from s consider "e = EvClose p" | "e = EvRead p" "s' = Some p" by (cases e) auto
  then show ?case
  proof cases
    case 1
    then show ?thesis by auto
  next
    case 2
    with r Cons.IH obtain j where "j < length es" "es ! j = EvClose p" by auto
    then have "Suc j < length (e # es) \<and> (e # es) ! Suc j = EvClose p" by simp
    then show ?thesis by blast
  qed
qed

lemma run_open_closed:
  assumes "run s es None" and "i < length es" and "es ! i = EvOpen p"
  shows "\<exists>j. i < j \<and> j < length es \<and> es ! j = EvClose p"
  using assms
proof (induction es arbitrary: s i)
  case Nil
  then show ?case by simp
next
  case (Cons e es)
  from Cons.prems(1) obtain s' where s: "step s e s'" and r: "run s' es None"
    by (rule run_ConsE)
  show ?case
  proof (cases i)
    case 0
    with Cons.prems(3) s have "s' = Some p" by simp
    with r obtain j where "j < length es" "es ! j = EvClose p"
      using run_Some_closes by blast
    with 0 have "i < Suc j \<and> Suc j < length (e # es) \<and> (e # es) ! Suc j = EvClose p" by simp
    then show ?thesis by blast
  next
    case (Suc k)
    with Cons.prems have "k < length es" "es ! k = EvOpen p" by simp_all
    with r Cons.IH obtain j where "k < j" "j < length es" "es ! j = EvClose p" by blast
    with Suc have "i < Suc j \<and> Suc j < length (e # es) \<and> (e # es) ! Suc j = EvClose p" by simp
    then show ?thesis by blast
  qed
qed

lemma run_script_events [simp]:
  "run None (new_events w (snd (script L w argv))) None"
  by (cases "parse_result argv") (auto simp: script_eq run_script_eq)

end
