(* ===== verification/WinPath.thy ===== *)
theory WinPath
  imports Enumerator
begin

text \<open>
  The Windows flavour of \<open>pathlib\<close>, the one \<open>Path\<close> is on the systems the
  script is written for, as CPython 3.11 implements it in \<open>_WindowsFlavour\<close> and
  \<open>PurePath\<close>: the separator is the backslash, a slash in an argument is
  replaced by it, and a path has a drive (a letter and a colon, or the host and
  the share of a UNC name, each with the prefix of an extended path when there
  is one), a root (none or one backslash) and names.

  \<open>windows lower\<close> is the instance of the interface; \<open>lower\<close> is \<open>str.lower\<close>, by
  which two drives are compared when a path with a drive is appended. The
  lemmas hold for every \<open>lower\<close>; \<open>ascii_lower\<close> is the function on ASCII
  letters, for evaluation.
\<close>

section \<open>Splitting off the drive and the root\<close>

datatype windows_path = WindowsPath (drv: pystr) (root: pystr) (tail: "pystr list")

definition ext_namespace_prefix :: pystr where
  "ext_namespace_prefix = [backslash, backslash, CHR ''?'', backslash]"

definition drive_letters :: "char set" where
  "drive_letters = set ''abcdefghijklmnopqrstuvwxyzABCDEFGHIJKLMNOPQRSTUVWXYZ''"

text \<open>
  \<open>s.find(c, i)\<close>: the index of the first \<open>c\<close> at or after \<open>i\<close>, \<open>None\<close> for
  the result \<open>-1\<close>.
\<close>

definition find_from :: "char \<Rightarrow> nat \<Rightarrow> pystr \<Rightarrow> nat option" where
  "find_from c i s =
     (if c \<in> set (drop i s) then Some (i + length (takeWhile (\<lambda>x. x \<noteq> c) (drop i s)))
      else None)"

definition split_extended_path :: "pystr \<Rightarrow> pystr \<times> pystr" where
  "split_extended_path s =
     (if prefix ext_namespace_prefix s then
        (let t = drop 4 s
         in if prefix (''UNC'' @ [backslash]) t then (take 4 s @ take 3 t, backslash # drop 3 t)
            else (take 4 s, t))
      else ([], s))"

text \<open>
  Where the drive of a UNC name ends: the index of the separator after the
  share, or the length of the string. \<open>None\<close> when the string is no UNC name:
  it does not start with exactly two separators, there is no separator after
  the host, or the share is empty and something follows it.
\<close>

definition unc_end :: "pystr \<Rightarrow> nat option" where
  "unc_end part =
     (if take 2 part = [backslash, backslash] \<and> take 1 (drop 2 part) \<noteq> [backslash] then
        (case find_from backslash 2 part of
           None \<Rightarrow> None
         | Some index \<Rightarrow>
             (case find_from backslash (index + 1) part of
                None \<Rightarrow> Some (length part)
              | Some index2 \<Rightarrow> if index2 = index + 1 then None else Some index2))
      else None)"

text \<open>
  \<open>splitroot\<close> splits the prefix of an extended path off a string that starts
  with two separators, and \<open>split_drive\<close> is the rest of it: the drive of a
  UNC name or a letter with a colon, then the root.
\<close>

definition split_drive :: "pystr \<Rightarrow> pystr \<Rightarrow> pystr \<times> pystr \<times> pystr" where
  "split_drive pre part =
     (case unc_end part of
        Some index2 \<Rightarrow>
          (if pre \<noteq> [] then pre @ drop 1 (take index2 part) else take index2 part,
           [backslash], drop (index2 + 1) part)
      | None \<Rightarrow>
          (let has_drv = (take 1 (drop 1 part) = '':'' \<and> part \<noteq> [] \<and>
                 hd part \<in> drive_letters);
               d = (if has_drv then take 2 part else []);
               rest = (if has_drv then drop 2 part else part)
           in if take 1 rest = [backslash]
              then (pre @ d, [backslash], dropWhile (\<lambda>c. c = backslash) rest)
              else (pre @ d, [], rest)))"

definition win_splitroot :: "pystr \<Rightarrow> pystr \<times> pystr \<times> pystr" where
  "win_splitroot part =
     (if take 2 part = [backslash, backslash]
      then (case split_extended_path part of (pre, rest) \<Rightarrow> split_drive pre rest)
      else split_drive [] part)"

section \<open>The Windows flavour\<close>

definition to_sep :: "char \<Rightarrow> char" where
  "to_sep c = (if c = slash then backslash else c)"

definition windows_parse :: "pystr \<Rightarrow> windows_path" where
  "windows_parse s =
     (case win_splitroot (map to_sep s) of
        (d, r, rel) \<Rightarrow> WindowsPath d r (filter keeps (split_on backslash rel)))"

definition windows_truediv :: "(pystr \<Rightarrow> pystr) \<Rightarrow> windows_path \<Rightarrow> pystr \<Rightarrow> windows_path" where
  "windows_truediv lower p key =
     (let q = windows_parse key
      in if root q \<noteq> [] then
           (if drv q = [] \<and> drv p \<noteq> [] then WindowsPath (drv p) (root q) (tail q) else q)
         else if drv q \<noteq> [] then
           (if drv q = drv p \<or> lower (drv q) = lower (drv p)
            then WindowsPath (drv p) (root p) (tail p @ tail q) else q)
         else WindowsPath (drv p) (root p) (tail p @ tail q))"

definition windows_str :: "windows_path \<Rightarrow> pystr" where
  "windows_str p =
     (let s = drv p @ root p @ join_with backslash (tail p) in if s = [] then ''.'' else s)"

definition windows :: "(pystr \<Rightarrow> pystr) \<Rightarrow> windows_path pathlib" where
  "windows lower =
     \<lparr>make_path = windows_parse, truediv = windows_truediv lower, fspath = windows_str\<rparr>"

definition ascii_lower :: "pystr \<Rightarrow> pystr" where
  "ascii_lower =
     map (\<lambda>c. if c \<in> set ''ABCDEFGHIJKLMNOPQRSTUVWXYZ'' then char_of (of_char c + (32 :: nat))
              else c)"

text \<open>
  A path as \<open>windows_parse\<close> builds it: no slash is left in the drive, the
  root is none or one backslash, and every name is a non-empty string other
  than \<open>.\<close> without a separator.
\<close>

definition wf_wname :: "pystr \<Rightarrow> bool" where
  "wf_wname x \<longleftrightarrow> x \<noteq> [] \<and> x \<noteq> ''.'' \<and> backslash \<notin> set x \<and> slash \<notin> set x"

definition wf_windows :: "windows_path \<Rightarrow> bool" where
  "wf_windows p \<longleftrightarrow>
     slash \<notin> set (drv p) \<and> root p \<in> {[], [backslash]} \<and> list_all wf_wname (tail p)"

text \<open>
  A Windows path and a POSIX path are the same path when the Windows path has no
  drive and the two have the same root and the same names.
\<close>

definition same_path :: "windows_path \<Rightarrow> posix_path \<Rightarrow> bool" where
  "same_path wp pp \<longleftrightarrow>
     wf_path pp \<and> drv wp = [] \<and> root wp = map to_sep (anchor pp) \<and> tail wp = names pp"

lemmas windows_eval =
  windows_def windows_parse_def windows_truediv_def windows_str_def win_splitroot_def
  split_drive_def   unc_end_def split_extended_path_def find_from_def ext_namespace_prefix_def
  drive_letters_def to_sep_def keeps_def Let_def

lemma windows_fields [simp]:
  "make_path (windows lower) = windows_parse"
  "truediv (windows lower) = windows_truediv lower"
  "fspath (windows lower) = windows_str"
  by (simp_all add: windows_def)

section \<open>What the split returns\<close>

lemma to_sep_simps [simp]: "to_sep slash = backslash" "to_sep backslash = backslash"
  by (simp_all add: to_sep_def)

lemma slash_notin_to_sep [simp]: "slash \<notin> set (map to_sep s)"
  by (induction s) (simp_all add: to_sep_def)

lemma map_to_sep_id: "slash \<notin> set s \<Longrightarrow> map to_sep s = s"
  by (induction s) (auto simp: to_sep_def)

lemmas in_set_partD = in_set_takeD in_set_dropD set_dropWhileD

lemma set_piece_subset:
  "set xs \<subseteq> A \<Longrightarrow> set (take n xs) \<subseteq> A"
  "set xs \<subseteq> A \<Longrightarrow> set (drop n xs) \<subseteq> A"
  "set xs \<subseteq> A \<Longrightarrow> set (dropWhile P xs) \<subseteq> A"
  by (auto dest: in_set_takeD in_set_dropD set_dropWhileD)

lemma set_split_extended_path:
  "set (fst (split_extended_path s)) \<subseteq> set s" "set (snd (split_extended_path s)) \<subseteq> set s"
proof -
  have "backslash \<in> set s" if "prefix ext_namespace_prefix s"
    using that by (auto simp: prefix_def ext_namespace_prefix_def)
  then show "set (fst (split_extended_path s)) \<subseteq> set s"
    and "set (snd (split_extended_path s)) \<subseteq> set s"
    by (simp_all add: split_extended_path_def Let_def set_piece_subset)
qed

lemma split_drive_sets:
  "set (fst (split_drive pre part)) \<subseteq> set pre \<union> set part"
  "fst (snd (split_drive pre part)) \<in> {[], [backslash]}"
  "set (snd (snd (split_drive pre part))) \<subseteq> set part"
  by (auto simp: split_drive_def Let_def split: option.split dest: in_set_partD)

lemma win_splitroot_sets:
  assumes "win_splitroot s = (d, r, rel)"
  shows "set d \<subseteq> set s" and "r \<in> {[], [backslash]}" and "set rel \<subseteq> set s"
proof -
  obtain pre part where w: "win_splitroot s = split_drive pre part"
    and p: "set pre \<subseteq> set s" "set part \<subseteq> set s"
  proof (cases "split_extended_path s")
    case (Pair a b)
    then have "win_splitroot s = split_drive a b \<or> win_splitroot s = split_drive [] s"
      by (simp add: win_splitroot_def)
    with Pair set_split_extended_path [of s] that [of a b] that [of "[]" s] show thesis
      by auto
  qed
  from split_drive_sets [of pre part] assms w p
  show "set d \<subseteq> set s" and "r \<in> {[], [backslash]}" and "set rel \<subseteq> set s"
    by auto
qed

lemma wf_windows_parse: "wf_windows (windows_parse s)"
proof -
  obtain d r rel where w: "win_splitroot (map to_sep s) = (d, r, rel)"
    by (cases "win_splitroot (map to_sep s)")
  note sets = win_splitroot_sets [OF w]
  have "slash \<notin> set d" "slash \<notin> set rel"
    using sets(1,3) slash_notin_to_sep [of s] by auto
  moreover have "wf_wname x" if "x \<in> set (filter keeps (split_on backslash rel))" for x
    using that \<open>slash \<notin> set rel\<close>
    by (auto simp: wf_wname_def keeps_def dest: set_split_on_no_sep set_split_on_subset)
  ultimately show ?thesis
    using w sets(2) by (simp add: wf_windows_def windows_parse_def list_all_iff)
qed

lemma wf_windows_truediv:
  assumes "wf_windows p"
  shows "wf_windows (windows_truediv lower p key)"
  using assms wf_windows_parse [of key]
  by (auto simp: windows_truediv_def wf_windows_def Let_def)

lemma slash_notin_windows_str: "wf_windows p \<Longrightarrow> slash \<notin> set (windows_str p)"
  using set_join_with_subset [of backslash "tail p"]
  by (auto simp: windows_str_def wf_windows_def wf_wname_def list_all_iff Let_def)

section \<open>Appending a name\<close>

lemma windows_parse_name:
  assumes "wf_wname x" and "take 1 (drop 1 x) \<noteq> '':''"
  shows "windows_parse x = WindowsPath [] [] [x]"
proof -
  from assms(1) obtain c cs where x: "x = c # cs" "c \<noteq> backslash"
    by (cases x) (auto simp: wf_wname_def keeps_def)
  from assms(1) have m: "map to_sep x = x" by (simp add: map_to_sep_id wf_wname_def)
  from x assms(2) have "win_splitroot x = ([], [], x)"
    by (simp add: win_splitroot_def split_drive_def unc_end_def)
  with m assms(1) show ?thesis
    by (simp add: windows_parse_def wf_wname_def keeps_def split_on_no_sep)
qed

lemma windows_truediv_name:
  assumes "wf_wname x" and "take 1 (drop 1 x) \<noteq> '':''"
  shows "windows_truediv lower p x = WindowsPath (drv p) (root p) (tail p @ [x])"
  by (simp add: windows_truediv_def windows_parse_name [OF assms])

lemma windows_str_snoc:
  "x \<noteq> [] \<Longrightarrow> windows_str (WindowsPath d r (xs @ [x])) = d @ r @ join_with backslash (xs @ [x])"
  using join_with_snoc_not_Nil [of x backslash xs] by (simp add: windows_str_def)

lemma windows_hook_str:
  "hook_path (windows lower) p =
     drv p @ root p @ join_with backslash (tail p @ [''shell'', ''condabin'', ''conda-hook.ps1''])"
proof -
  have w: "wf_wname ''shell''" "wf_wname ''condabin''" "wf_wname ''conda-hook.ps1''"
    by (simp_all add: wf_wname_def keeps_def)
  have "hook_path (windows lower) p =
      windows_str (WindowsPath (drv p) (root p)
        ((tail p @ [''shell'', ''condabin'']) @ [''conda-hook.ps1'']))"
    by (simp add: hook_path_def windows_def windows_truediv_name w)
  also have "\<dots> = drv p @ root p @
      join_with backslash ((tail p @ [''shell'', ''condabin'']) @ [''conda-hook.ps1''])"
    by (rule windows_str_snoc) simp
  finally show ?thesis by simp
qed

section \<open>Agreement with the POSIX flavour\<close>

text \<open>
  Strings without a backslash that name no drive and do not start with exactly
  two slashes are parsed to the same path by the two flavours, appending a name
  keeps two paths the same, and the same paths are printed alike, up to the
  separator.
\<close>

lemma dropWhile_to_sep:
  "backslash \<notin> set s \<Longrightarrow>
     dropWhile (\<lambda>c. c = backslash) (map to_sep s) = map to_sep (dropWhile (\<lambda>c. c = slash) s)"
  by (induction s) (auto simp: to_sep_def)

lemma split_on_to_sep:
  assumes "backslash \<notin> set s"
  shows "split_on backslash (map to_sep s) = split_on slash s"
proof -
  from assms have "\<forall>c \<in> set s. to_sep c = to_sep slash \<longrightarrow> c = slash"
    by (auto simp: to_sep_def)
  then have "split_on (to_sep slash) (map to_sep s) = map (map to_sep) (split_on slash s)"
    by (rule split_on_map)
  also have "\<dots> = split_on slash s"
    by (rule map_idI) (auto dest: set_split_on_no_sep intro: map_to_sep_id)
  finally show ?thesis by simp
qed

lemma win_splitroot_posix:
  assumes "backslash \<notin> set s" and "take 1 (drop 1 s) \<noteq> '':''"
    and "fst (splitroot s) \<noteq> ''//''"
  shows "win_splitroot (map to_sep s) =
     ([], map to_sep (fst (splitroot s)), map to_sep (snd (splitroot s)))"
proof -
  consider "s = [] \<or> hd s \<noteq> slash"
    | t where "s = slash # t" "t = [] \<or> hd t \<noteq> slash"
    | t where "s = slash # slash # t" "t = [] \<or> hd t \<noteq> slash"
    | t where "s = slash # slash # slash # t"
    by (cases s; cases "tl s"; cases "tl (tl s)") auto
  then show ?thesis
  proof cases
    case 1
    with assms(1,2) have "win_splitroot (map to_sep s) = ([], [], map to_sep s)"
      by (cases s; cases "tl s")
        (auto simp: win_splitroot_def split_drive_def unc_end_def to_sep_def)
    with 1 show ?thesis by (simp add: splitroot_no_slash)
  next
    case 2
    with assms(1) have "win_splitroot (map to_sep s) = ([], [backslash], map to_sep t)"
      by (cases t)
        (auto simp: win_splitroot_def split_drive_def unc_end_def to_sep_def drive_letters_def)
    with 2 show ?thesis by (simp add: splitroot_one)
  next
    case 3
    with assms(3) show ?thesis by (simp add: splitroot_two)
  next
    case 4
    with assms(1) have "win_splitroot (map to_sep s) =
        ([], [backslash], dropWhile (\<lambda>c. c = backslash) (map to_sep t))"
      by (simp add: win_splitroot_def split_drive_def unc_end_def split_extended_path_def
          ext_namespace_prefix_def)
    with 4 assms(1) show ?thesis by (simp add: splitroot_def dropWhile_to_sep)
  qed
qed

lemma same_path_parse:
  assumes "backslash \<notin> set s" and "take 1 (drop 1 s) \<noteq> '':''"
    and "anchor (posix_parse s) \<noteq> ''//''"
  shows "same_path (windows_parse s) (posix_parse s)"
proof -
  obtain a rel where sr: "splitroot s = (a, rel)"
    by (cases "splitroot s")
  with assms(3) have "fst (splitroot s) \<noteq> ''//''"
    by (simp add: posix_parse_def)
  with assms(1,2) sr have w: "win_splitroot (map to_sep s) = ([], map to_sep a, map to_sep rel)"
    by (simp add: win_splitroot_posix)
  from sr assms(1) have "backslash \<notin> set rel"
    by (auto simp: splitroot_def Let_def split: if_splits dest: set_dropWhileD)
  with w sr show ?thesis
    using wf_posix_parse [of s]
    by (simp add: same_path_def windows_parse_def posix_parse_def split_on_to_sep)
qed

lemma same_path_truediv:
  assumes "same_path wp pp" and "wf_wname x" and "take 1 (drop 1 x) \<noteq> '':''"
  shows "same_path (windows_truediv lower wp x) (posix_truediv pp x)"
proof -
  from assms(2) have "wf_name x" by (simp add: wf_wname_def wf_name_def)
  with assms show ?thesis
    by (simp add: same_path_def windows_truediv_name posix_truediv_def posix_parse_name
        wf_path_def)
qed

lemma same_path_str:
  assumes "same_path wp pp"
  shows "windows_str wp = map to_sep (posix_str pp)"
proof -
  from assms have "\<forall>x \<in> set (names pp). slash \<notin> set x"
    by (simp add: same_path_def wf_path_def wf_name_def list_all_iff)
  then have "map (map to_sep) (names pp) = names pp"
    by (intro map_idI map_to_sep_id) simp
  with assms show ?thesis
    by (auto simp: same_path_def windows_str_def posix_str_def Let_def join_with_map
        join_with_eq_Nil_iff to_sep_def)
qed

lemma same_path_hook:
  assumes "same_path wp pp"
  shows "hook_path (windows lower) wp = map to_sep (hook_path posix pp)"
proof -
  have w: "wf_wname ''shell''" "wf_wname ''condabin''" "wf_wname ''conda-hook.ps1''"
    by (simp_all add: wf_wname_def keeps_def)
  from assms have "same_path
      (windows_truediv lower (windows_truediv lower (windows_truediv lower wp ''shell'')
        ''condabin'') ''conda-hook.ps1'')
      (posix_truediv (posix_truediv (posix_truediv pp ''shell'') ''condabin'') ''conda-hook.ps1'')"
    by (intro same_path_truediv w) simp_all
  then show ?thesis
    by (simp add: hook_path_def posix_fields same_path_str)
qed

section \<open>The target under the Windows flavour\<close>

text \<open>
  C28. Under the Windows flavour the hook script of the environment \<open>s\<close> is the
  string of \<open>Path(s)\<close> followed by \<open>\shell\condabin\conda-hook.ps1\<close>; for a
  path without names (a drive, a root, the current directory) it is the drive
  and the root followed by \<open>shell\condabin\conda-hook.ps1\<close>. The string holds
  no slash: every slash of the argument has become a backslash.
\<close>

theorem hook_path_windows:
  "hook_path (windows lower) (make_path (windows lower) s) =
     (let p = windows_parse s;
          hook = join_with backslash [''shell'', ''condabin'', ''conda-hook.ps1'']
      in if tail p = [] then drv p @ root p @ hook else windows_str p @ backslash # hook) \<and>
   slash \<notin> set (hook_path (windows lower) (make_path (windows lower) s))"
proof -
  let ?p = "windows_parse s"
  let ?q = "windows_truediv lower (windows_truediv lower (windows_truediv lower ?p ''shell'')
    ''condabin'') ''conda-hook.ps1''"
  have "wf_windows ?q"
    by (intro wf_windows_truediv wf_windows_parse)
  then have "slash \<notin> set (hook_path (windows lower) ?p)"
    by (simp add: hook_path_def slash_notin_windows_str)
  moreover have "join_with backslash (tail ?p) \<noteq> []" if "tail ?p \<noteq> []"
    using that wf_windows_parse [of s]
    by (auto simp: join_with_eq_Nil_iff wf_windows_def wf_wname_def keeps_def)
  then have "hook_path (windows lower) ?p =
      (if tail ?p = []
       then drv ?p @ root ?p @ join_with backslash [''shell'', ''condabin'', ''conda-hook.ps1'']
       else windows_str ?p @
         backslash # join_with backslash [''shell'', ''condabin'', ''conda-hook.ps1''])"
    using join_with_snoc [of "tail ?p @ [''shell'', ''condabin'']" backslash "''conda-hook.ps1''"]
      join_with_snoc [of "tail ?p @ [''shell'']" backslash "''condabin''"]
      join_with_snoc [of "tail ?p" backslash "''shell''"]
    by (simp add: windows_hook_str windows_str_def)
  ultimately show ?thesis by (simp add: Let_def)
qed

text \<open>
  The environment \<open>C:/envs/e\<close>, the directory \<open>envs/e\<close> of the current drive,
  the current directory of the drive \<open>C:\<close>, and an extended path.
\<close>

lemma windows_hook_examples:
  "hook_path (windows ascii_lower) (make_path (windows ascii_lower) ''C:/envs/e'') =
     ''C:'' @ backslash # ''envs'' @ backslash # ''e'' @ backslash # ''shell'' @
     backslash # ''condabin'' @ backslash # ''conda-hook.ps1''"
  "hook_path (windows ascii_lower) (make_path (windows ascii_lower) ''/envs/e/'') =
     backslash # ''envs'' @ backslash # ''e'' @ backslash # ''shell'' @
     backslash # ''condabin'' @ backslash # ''conda-hook.ps1''"
  "hook_path (windows ascii_lower) (make_path (windows ascii_lower) ''C:'') =
     ''C:shell'' @ backslash # ''condabin'' @ backslash # ''conda-hook.ps1''"
  "hook_path (windows ascii_lower) (make_path (windows ascii_lower) ''//?/C:/e'') =
     ext_namespace_prefix @ ''C:'' @ backslash # ''e'' @ backslash # ''shell'' @
     backslash # ''condabin'' @ backslash # ''conda-hook.ps1''"
  by code_simp+

text \<open>
  Printing and parsing again does not always give the path back under this
  flavour: a first name that looks like a drive is read as the drive.
\<close>

lemma windows_no_roundtrip:
  "make_path (windows lower) ''./c:'' = WindowsPath [] [] [''c:'']"
  "fspath (windows lower) (WindowsPath [] [] [''c:'']) = ''c:''"
  "make_path (windows lower) ''c:'' = WindowsPath ''c:'' [] []"
  by (simp_all add: windows_parse_def windows_str_def) code_simp+

end
