(* ===== verification/Utf8.thy ===== *)
theory Utf8
  imports Codec
begin

text \<open>
  UTF-8 from the side of the text: the encoder of a code point, written after
  the definition of the encoding (RFC 3629) and without any function of the
  decoder of \<open>Codec\<close>. It is the specification the decoder is measured
  against: what \<open>decode_text\<close> returns is the encoding of a list of Unicode
  scalar values, and the encoding of every such list passes the decoder
  unchanged.
\<close>

section \<open>The encoder\<close>

text \<open>A Unicode scalar value: a code point up to U+10FFFF that is no surrogate.\<close>

definition scalar :: "nat \<Rightarrow> bool" where
  "scalar n \<longleftrightarrow> n < 0xD800 \<or> 0xE000 \<le> n \<and> n < 0x110000"

text \<open>The byte \<open>10xxxxxx\<close> with the low six bits of \<open>n\<close>.\<close>

definition tail_byte :: "nat \<Rightarrow> char" where
  "tail_byte n = char_of (0x80 + n mod 0x40)"

definition utf8_encode :: "nat \<Rightarrow> pybytes" where
  "utf8_encode n =
     (if n < 0x80 then [char_of n]
      else if n < 0x800 then [char_of (0xC0 + n div 0x40), tail_byte n]
      else if n < 0x10000 then
        [char_of (0xE0 + n div 0x1000), tail_byte (n div 0x40), tail_byte n]
      else
        [char_of (0xF0 + n div 0x40000), tail_byte (n div 0x1000), tail_byte (n div 0x40),
         tail_byte n])"

definition encode_text :: "nat list \<Rightarrow> pystr" where
  "encode_text cps = concat (map utf8_encode cps)"

section \<open>Bytes of the encoder\<close>

lemma byte_char_of: "n < 256 \<Longrightarrow> byte (char_of n) = n"
  by (simp add: byte_def)

lemma char_of_byte [simp]: "char_of (byte c) = c"
  by (simp add: byte_def)

lemma byte_less: "byte c < 256"
  by (simp add: byte_def)

lemma byte_tail_byte [simp]: "byte (tail_byte n) = 0x80 + n mod 0x40"
  by (simp add: tail_byte_def byte_char_of)

lemma is_cont_tail_byte [simp]: "is_cont (tail_byte n)"
  by (simp add: is_cont_def)

lemma encode_text_simps [simp]:
  "encode_text [] = []" "encode_text (n # cps) = utf8_encode n @ encode_text cps"
  by (simp_all add: encode_text_def)

section \<open>What the encoder writes is well-formed for the decoder\<close>

lemma valid_utf8_encode1:
  assumes "n < 0x80"
  shows "valid_utf8 (utf8_encode n @ bs) \<longleftrightarrow> valid_utf8 bs"
  using assms by (simp add: utf8_encode_def is_ascii_def byte_char_of)

lemma valid_utf8_encode2:
  assumes "0x80 \<le> n" and "n < 0x800"
  shows "valid_utf8 (utf8_encode n @ bs) \<longleftrightarrow> valid_utf8 bs"
proof -
  from assms have "0xC0 + n div 0x40 < 256" by arith
  then have b: "byte (char_of (0xC0 + n div 0x40)) = 0xC0 + n div 0x40"
    by (rule byte_char_of)
  from assms have "2 \<le> n div 0x40" "n div 0x40 < 32" by arith+
  with assms b show ?thesis
    by (simp add: utf8_encode_def is_ascii_def lead2_def need_def conts_def second_ok_def)
qed

lemma div_4096: "(n::nat) div 0x1000 = n div 0x40 div 0x40"
  by (simp add: div_mult2_eq [symmetric])

lemma div_262144: "(n::nat) div 0x40000 = n div 0x40 div 0x40 div 0x40"
  by (simp add: div_mult2_eq [symmetric])

lemma valid_utf8_encode3:
  assumes "0x800 \<le> n" and "n < 0x10000" and "scalar n"
  shows "valid_utf8 (utf8_encode n @ bs) \<longleftrightarrow> valid_utf8 bs"
proof -
  define q x y where "q = n div 0x40" and "x = q div 0x40" and "y = q mod 0x40"
  from assms have "32 \<le> q" "q < 1024" "q < 0x360 \<or> 0x380 \<le> q"
    unfolding scalar_def q_def by arith+
  moreover have "q = x * 0x40 + y" "y < 0x40" by (simp_all add: x_def y_def)
  ultimately have r: "x < 16" "x = 0 \<longrightarrow> 0x20 \<le> y" "x = 13 \<longrightarrow> y < 0x20"
    by auto
  then have "byte (char_of (0xE0 + x)) = 0xE0 + x"
    by (simp add: byte_char_of)
  with assms(1,2) r show ?thesis
    by (simp add: utf8_encode_def div_4096 q_def [symmetric] x_def [symmetric]
        y_def [symmetric] is_ascii_def lead2_def lead3_def need_def conts_def second_ok_def)
qed

lemma valid_utf8_encode4:
  assumes "0x10000 \<le> n" and "n < 0x110000"
  shows "valid_utf8 (utf8_encode n @ bs) \<longleftrightarrow> valid_utf8 bs"
proof -
  define q x y where "q = n div 0x40 div 0x40" and "x = q div 0x40" and "y = q mod 0x40"
  from assms have "n div 0x40 < 0x4400" "0x400 \<le> n div 0x40" by arith+
  then have "16 \<le> q" "q < 0x110" unfolding q_def by arith+
  moreover have "q = x * 0x40 + y" "y < 0x40" by (simp_all add: x_def y_def)
  ultimately have r: "x < 5" "x = 0 \<longrightarrow> 0x10 \<le> y" "x = 4 \<longrightarrow> y < 0x10"
    by auto
  then have "byte (char_of (0xF0 + x)) = 0xF0 + x"
    by (simp add: byte_char_of)
  with assms r show ?thesis
    by (simp add: utf8_encode_def div_4096 div_262144 q_def [symmetric] x_def [symmetric]
        y_def [symmetric] is_ascii_def lead2_def lead3_def lead4_def need_def conts_def
        second_ok_def)
qed

lemma valid_utf8_encode:
  assumes "scalar n"
  shows "valid_utf8 (utf8_encode n @ bs) \<longleftrightarrow> valid_utf8 bs"
proof -
  from assms consider "n < 0x80" | "0x80 \<le> n" "n < 0x800" | "0x800 \<le> n" "n < 0x10000"
    | "0x10000 \<le> n" "n < 0x110000"
    unfolding scalar_def by linarith
  then show ?thesis
    using assms
    by cases
      (simp_all only: valid_utf8_encode1 valid_utf8_encode2 valid_utf8_encode3
        valid_utf8_encode4)
qed

lemma valid_utf8_encode_text: "list_all scalar cps \<Longrightarrow> valid_utf8 (encode_text cps)"
  by (induction cps) (simp_all add: valid_utf8_encode)

section \<open>What the decoder accepts is written by the encoder\<close>

lemma encoded1:
  assumes "is_ascii b"
  shows "scalar (byte b) \<and> utf8_encode (byte b) = [b]"
  using assms by (simp add: is_ascii_def scalar_def utf8_encode_def)

lemma digit:
  "z < 0x40 \<Longrightarrow> (a * 0x40 + z) div 0x40 = (a::nat)"
  "z < 0x40 \<Longrightarrow> (a * 0x40 + z) mod 0x40 = (z::nat)"
  by simp_all

lemma encoded2:
  assumes "lead2 b" and "is_cont c"
  shows "\<exists>n. scalar n \<and> utf8_encode n = [b, c]"
proof -
  define x y where "x = byte b - 0xC0" and "y = byte c - 0x80"
  from assms have b: "byte b = 0xC0 + x" "byte c = 0x80 + y" and r: "2 \<le> x" "x < 32" "y < 0x40"
    by (auto simp: x_def y_def lead2_def is_cont_def)
  let ?n = "x * 0x40 + y"
  from r have "?n div 0x40 = x" "?n mod 0x40 = y" "0x80 \<le> ?n" "?n < 0x800" by simp_all
  then have "scalar ?n \<and> utf8_encode ?n = [b, c]"
    by (simp add: scalar_def utf8_encode_def tail_byte_def b [symmetric])
  then show ?thesis ..
qed

lemma encoded3:
  assumes "lead3 b" and "second_ok b c" and "is_cont d"
  shows "\<exists>n. scalar n \<and> utf8_encode n = [b, c, d]"
proof -
  define x y z where "x = byte b - 0xE0" and "y = byte c - 0x80" and "z = byte d - 0x80"
  from assms have b: "byte b = 0xE0 + x" "byte c = 0x80 + y" "byte d = 0x80 + z"
    and r: "x < 16" "y < 0x40" "z < 0x40" "x = 0 \<longrightarrow> 0x20 \<le> y" "x = 13 \<longrightarrow> y < 0x20"
    by (auto simp: x_def y_def z_def lead3_def is_cont_def second_ok_def split: if_splits)
  let ?q = "x * 0x40 + y"
  let ?n = "?q * 0x40 + z"
  from r have d: "?n div 0x40 = ?q" "?n mod 0x40 = z" "?q div 0x40 = x" "?q mod 0x40 = y"
    by (simp_all only: digit)
  from r have "0x20 \<le> ?q" "?q < 0x400" "?q < 0x360 \<or> 0x380 \<le> ?q" by presburger+
  then have "0x800 \<le> ?n" "?n < 0x10000" "?n < 0xD800 \<or> 0xE000 \<le> ?n"
    using r(3) by auto
  with d have "scalar ?n \<and> utf8_encode ?n = [b, c, d]"
    by (simp add: scalar_def utf8_encode_def tail_byte_def div_4096 b [symmetric])
  then show ?thesis ..
qed

lemma encoded4:
  assumes "lead4 b" and "second_ok b c" and "is_cont d" and "is_cont e"
  shows "\<exists>n. scalar n \<and> utf8_encode n = [b, c, d, e]"
proof -
  define x y z w where "x = byte b - 0xF0" and "y = byte c - 0x80" and "z = byte d - 0x80"
    and "w = byte e - 0x80"
  from assms have b: "byte b = 0xF0 + x" "byte c = 0x80 + y" "byte d = 0x80 + z"
    "byte e = 0x80 + w"
    and r: "x < 5" "y < 0x40" "z < 0x40" "w < 0x40" "x = 0 \<longrightarrow> 0x10 \<le> y" "x = 4 \<longrightarrow> y < 0x10"
    by (auto simp: x_def y_def z_def w_def lead4_def is_cont_def second_ok_def split: if_splits)
  let ?p = "x * 0x40 + y"
  let ?q = "?p * 0x40 + z"
  let ?n = "?q * 0x40 + w"
  from r have d: "?n div 0x40 = ?q" "?n mod 0x40 = w" "?q div 0x40 = ?p" "?q mod 0x40 = z"
    "?p div 0x40 = x" "?p mod 0x40 = y"
    by (simp_all only: digit)
  from r have "0x10 \<le> ?p" "?p < 0x110" by auto
  then have "0x400 \<le> ?q" "?q < 0x4400" using r(3) by auto
  then have "0x10000 \<le> ?n" "?n < 0x110000" using r(4) by auto
  with d have "scalar ?n \<and> utf8_encode ?n = [b, c, d, e]"
    by (simp add: scalar_def utf8_encode_def tail_byte_def div_4096 div_262144 b [symmetric])
  then show ?thesis ..
qed

lemma need_iff:
  "need b = 1 \<longleftrightarrow> lead2 b" "need b = 2 \<longleftrightarrow> lead3 b" "need b = 3 \<longleftrightarrow> lead4 b"
  by (auto simp: need_def lead2_def lead3_def lead4_def)

lemma char_encoded:
  assumes "0 < need b" and "conts b bs = need b"
  shows "\<exists>n. scalar n \<and> utf8_encode n = b # take (need b) bs"
proof -
  from assms obtain c r where bs: "bs = c # r" and ok: "second_ok b c"
    by (cases bs) (auto simp: conts_def split: if_splits)
  note p = conts_cont_prefix [OF assms(2,1)]
  from assms(1) have "need b = 1 \<or> need b = 2 \<or> need b = 3"
    by (auto simp: need_def split: if_splits)
  then show ?thesis
  proof (elim disjE)
    assume n: "need b = 1"
    with ok bs have "lead2 b" "is_cont c" "take (need b) bs = [c]"
      by (simp_all add: need_iff [symmetric] second_ok_def)
    with encoded2 [of b c] show ?thesis by simp
  next
    assume n: "need b = 2"
    with p bs obtain d r' where "r = d # r'" by (cases r) simp_all
    with n p bs have "lead3 b" "is_cont d" "take (need b) bs = [c, d]"
      by (simp_all add: need_iff [symmetric])
    with encoded3 [of b c d] ok show ?thesis by simp
  next
    assume n: "need b = 3"
    with p bs obtain d e r' where "r = d # e # r'" by (cases r; cases "tl r") simp_all
    with n p bs have "lead4 b" "is_cont d" "is_cont e" "take (need b) bs = [c, d, e]"
      by (simp_all add: need_iff [symmetric])
    with encoded4 [of b c d e] ok show ?thesis by simp
  qed
qed

lemma valid_utf8_encoded:
  assumes "valid_utf8 bs"
  shows "\<exists>cps. list_all scalar cps \<and> bs = encode_text cps"
  using assms
proof (induction bs rule: valid_utf8.induct)
  case 1
  have "list_all scalar [] \<and> [] = encode_text []" by simp
  then show ?case ..
next
  case (2 b bs)
  show ?case
  proof (cases "is_ascii b")
    case True
    with 2 obtain cps where "list_all scalar cps" "bs = encode_text cps" by auto
    with True have "list_all scalar (byte b # cps) \<and> b # bs = encode_text (byte b # cps)"
      by (simp add: encoded1)
    then show ?thesis ..
  next
    case False
    with "2.prems" have n: "0 < need b" and c: "conts b bs = need b"
      and v: "valid_utf8 (drop (need b) bs)" by simp_all
    with False "2.IH" obtain cps where cps: "list_all scalar cps"
      "drop (need b) bs = encode_text cps" by auto
    from char_encoded [OF n c] obtain k where k: "scalar k"
      "utf8_encode k = b # take (need b) bs" by auto
    have "b # bs = (b # take (need b) bs) @ drop (need b) bs" by simp
    with k cps have "list_all scalar (k # cps) \<and> b # bs = encode_text (k # cps)"
      by (simp del: append_take_drop_id)
    then show ?thesis ..
  qed
qed

section \<open>Line ends\<close>

lemma lead_bytes:
  "n < 0x800 \<Longrightarrow> byte (char_of (0xC0 + n div 0x40)) = 0xC0 + n div 0x40"
  "n < 0x10000 \<Longrightarrow> byte (char_of (0xE0 + n div 0x1000)) = 0xE0 + n div 0x1000"
  "n < 0x110000 \<Longrightarrow> byte (char_of (0xF0 + n div 0x40000)) = 0xF0 + n div 0x40000"
  by (rule byte_char_of, arith)+

lemma utf8_encode_high:
  assumes "0x80 \<le> n" and "n < 0x110000" and "c \<in> set (utf8_encode n)"
  shows "0x80 \<le> byte c"
  using assms by (auto simp: utf8_encode_def lead_bytes split: if_splits)

lemma CR_in_utf8_encode:
  assumes "scalar n" and "CR \<in> set (utf8_encode n)"
  shows "n = 13"
proof (cases "n < 0x80")
  case True
  with assms(2) have "byte (char_of n) = byte CR" by (simp add: utf8_encode_def)
  with True show ?thesis by (simp add: byte_char_of) (simp add: byte_def)
next
  case False
  with assms have "0x80 \<le> byte CR" by (intro utf8_encode_high [of n]) (auto simp: scalar_def)
  then show ?thesis by (simp add: byte_def)
qed

lemma encode_text_no_CR:
  assumes "list_all scalar cps" and "13 \<notin> set cps"
  shows "CR \<notin> set (encode_text cps)"
  using assms by (induction cps) (auto dest: CR_in_utf8_encode)

lemma universal_newlines_no_CR: "CR \<notin> set s \<Longrightarrow> universal_newlines s = s"
  using universal_newlines_no_CR_append [of s "[]"] by (auto simp: list_all_iff)

section \<open>The decoder against the encoder\<close>

text \<open>
  C27. The decoder is sound and complete for UTF-8. The text it returns is the
  encoding of a list of Unicode scalar values (no overlong form, no surrogate,
  nothing beyond U+10FFFF, no unfinished character), and the encoding of every
  list of scalar values passes it unchanged, line ends apart: nothing that is
  well-formed is dropped.
\<close>

theorem decode_text_well_formed:
  "(\<exists>cps. list_all scalar cps \<and> decode_text bs = encode_text cps) \<and>
   (list_all scalar cps \<longrightarrow>
      utf8_ignore (encode_text cps) = encode_text cps \<and>
      (13 \<notin> set cps \<longrightarrow> decode_text (encode_text cps) = encode_text cps))"
proof (intro conjI impI)
  show "\<exists>cps. list_all scalar cps \<and> decode_text bs = encode_text cps"
    by (rule valid_utf8_encoded) (rule valid_utf8_decode_text)
next
  assume s: "list_all scalar cps"
  then show u: "utf8_ignore (encode_text cps) = encode_text cps"
    by (intro utf8_ignore_valid valid_utf8_encode_text)
  assume "13 \<notin> set cps"
  with s have "CR \<notin> set (encode_text cps)" by (rule encode_text_no_CR)
  with u show "decode_text (encode_text cps) = encode_text cps"
    by (simp add: decode_text_def universal_newlines_no_CR)
qed

theorem decode_text_well_formed_witness:
  "list_all scalar [0x2713, 0x20, 0x4E] \<and> 13 \<notin> set [0x2713, 0x20, 0x4E :: nat] \<and>
   encode_text [0x2713, 0x20, 0x4E] = [CHR 0xE2, CHR 0x9C, CHR 0x93, CHR '' '', CHR ''N''] \<and>
   decode_text [CHR 0xE2, CHR 0x9C, CHR 0x93, CHR '' '', CHR ''N''] =
     [CHR 0xE2, CHR 0x9C, CHR 0x93, CHR '' '', CHR ''N'']"
proof -
  have e: "encode_text [0x2713, 0x20, 0x4E] = [CHR 0xE2, CHR 0x9C, CHR 0x93, CHR '' '', CHR ''N'']"
    by (simp add: utf8_encode_def tail_byte_def char_of_eq_iff take_bit_eq_mod)
  have "list_all scalar [0x2713, 0x20, 0x4E] \<and> 13 \<notin> set [0x2713, 0x20, 0x4E :: nat]"
    by (simp add: scalar_def)
  with decode_text_well_formed [of "[]" "[0x2713, 0x20, 0x4E]"] e show ?thesis
    by simp
qed


end
