(* ===== verification/Spec2Isabelle.thy ===== *)
theory Spec2Isabelle
  imports Protocol WinPath Utf8
begin

text \<open>
  \<^bold>\<open>A verification development for \<open>check_env_files.py\<close>.\<close>

  The program (\<open>src/conda-pack/win-extended-paths/check_env_files.py\<close>) looks
  into a conda environment for the Windows extended-length path prefixes
  \<open>//?/\<close> and \<open>\\?\\<close> (backslash, backslash, question mark, backslash). It has
  four functions. \<open>check_conda_environment\<close> validates the environment path
  (it exists, it is a directory, it has a \<open>conda-meta\<close> entry), asks
  \<open>get_files_to_check\<close> for the files to scan, calls
  \<open>check_file_for_extended_paths\<close> on each and collects the issues;
  \<open>main\<close> prints what is checked, calls \<open>check_conda_environment\<close>, prints
  the outcome and returns the exit code.

  \<^bold>\<open>The theories.\<close>

  \<^item> \<open>Prelude\<close>: the theorem collections, the string types (a Python \<open>str\<close> is
    the byte list of its UTF-8 encoding), the outcome \<open>'e + 'a\<close> of a call that
    may raise with \<open>and_then\<close> for the statement after it, and list lemmas.
  \<^item> \<open>World\<close>: the runtime interface. A \<open>world\<close> holds the answers of the
    operating system (\<open>stat_of\<close>, \<open>data_of\<close>), of the encoder of standard
    output (\<open>stdout_accepts\<close>) and the \<open>trace\<close> of the calls made so far. The
    library calls of the script are \<open>path_exists\<close> (\<open>Path.exists\<close>),
    \<open>path_is_dir\<close> (\<open>Path.is_dir\<close>), \<open>py_open\<close>, \<open>py_read\<close>, \<open>py_close\<close>
    (the \<open>with open(...)\<close> block) and \<open>py_print\<close>. Each returns its outcome and
    the world with the call logged. \<open>stdout_of\<close>, \<open>stderr_of\<close> and
    \<open>open_files\<close> are read off the trace.
  \<^item> \<open>PathLib\<close>: \<open>Path(s)\<close>, \<open>p / name\<close> and \<open>str(p)\<close> as the record
    \<open>'p pathlib\<close>, and the POSIX flavour \<open>posix\<close> as an instance. Every
    component takes the flavour as its first argument \<open>L\<close>.
  \<^item> \<open>WinPath\<close>: the Windows flavour \<open>windows lower\<close> as the second
    instance, after \<open>_WindowsFlavour\<close> and \<open>PurePath\<close> of CPython 3.11:
    \<open>win_splitroot\<close> with the drive of a letter, of a UNC name and of an
    extended path, \<open>windows_parse\<close>, \<open>windows_truediv\<close>, \<open>windows_str\<close>.
  \<^item> \<open>PyText\<close>: \<open>contains\<close>, Python's \<open>in\<close> on strings, with its reference
    \<open>sublist\<close>.
  \<^item> \<open>Codec\<close>: \<open>decode_text\<close>, what \<open>open(..., encoding='utf-8',
    errors='ignore')\<close> and \<open>read()\<close> make of the bytes of a file: the decoder
    \<open>utf8_ignore\<close> (with \<open>need\<close> and \<open>conts\<close>, the length of a character and
    the place where a malformed one ends) and \<open>universal_newlines\<close>;
    \<open>valid_utf8\<close> (the texts the decoder accepts) and \<open>plain\<close> are the
    predicates its lemmas are stated with.
  \<^item> \<open>Utf8\<close>: the specification of the decoder: \<open>scalar\<close>, \<open>utf8_encode\<close>
    and \<open>encode_text\<close>, the encoding of code points as RFC 3629 defines it.
  \<^item> \<open>Scanner\<close>: \<open>check_file_for_extended_paths\<close> (lines 17 to 42) with
    \<open>read_text\<close>, \<open>scan_content\<close>, the two patterns and the four messages.
  \<^item> \<open>Enumerator\<close>: \<open>get_files_to_check\<close> (lines 45 to 57).
  \<^item> \<open>Checker\<close>: \<open>check_conda_environment\<close> (lines 60 to 87) with the loop
    \<open>scan_files\<close> and the three messages of the validator.
  \<^item> \<open>ArgParse\<close>: the parser \<open>main\<close> builds and \<open>parse_args\<close> (lines 95 to
    103), as \<open>argparse\<close> of CPython 3.11 treats a parser with one positional
    argument and \<open>-h\<close>: \<open>classify\<close> for one argument, \<open>parse_result\<close> for
    the command line.
  \<^item> \<open>Cli\<close>: \<open>main\<close> from its first \<open>print\<close> on (lines 105 to 116) with
    \<open>report\<close> and \<open>print_issues\<close>, \<open>run_script\<close>, the process that
    \<open>sys.exit(main())\<close> makes of a parsed path (lines 119 and 120), and
    \<open>script\<close>, the whole of \<open>main\<close> and the process on the arguments of the
    command line (lines 90 to 120).
  \<^item> \<open>Protocol\<close>: the discipline of the calls as a state machine over the
    events, \<open>step\<close> and \<open>run\<close>, whose state is the file that is open; every
    function of the script is a run from no open file to no open file.
  \<^item> This theory: the properties that span components, each after the claim
    it settles: the scan of a valid environment, resources and exceptions, the
    script, the command line, the flavour of the paths. The properties of one component (the validator, the search, the
    decoder, the paths, the scan of a text) are at the end of its theory.

  \<^bold>\<open>How the model corresponds to the code.\<close> Every function of the source
  is one definition with the source's name, its parameters after the flavour
  and the world, and its result paired with the world it leaves. An early
  \<open>return\<close> is a branch of an \<open>if\<close>; an exception is the result \<open>Inl e\<close>, and
  \<open>and_then\<close> passes it on as Python does; the \<open>try ... except Exception\<close> of
  the scanner is the \<open>case\<close> that turns \<open>Inl e\<close> into an issue; a \<open>for\<close> loop
  is a recursion over the list with the accumulator of the source. The
  exceptions of the model are those the library calls of these lines raise:
  \<open>OSError\<close> from \<open>os.stat\<close>, \<open>open\<close> and \<open>read\<close>, and
  \<open>UnicodeEncodeError\<close> from \<open>print\<close> on standard output.

  \<^bold>\<open>What the lemmas show.\<close> Each component theory proves that its
  function is a pure result and a list of events (\<open>check_file_eq\<close>,
  \<open>scan_files_eq\<close>, \<open>check_conda_environment_eq\<close>, \<open>main_eq\<close>,
  \<open>run_script_eq\<close>): the specification of the component, stated over what it
  observes of the world (\<open>view_file\<close>, \<open>view_env\<close>). The properties are
  consequences: the result on every branch of the validator and of
  the scanner (C1, C4 to C10, C34), the invariant and the bounds of the result
  (C2, C15), the refinement itself (C3, C16), what is left open and which calls
  are made (C11, C23, C35), that a run ends after at most eleven calls (C12),
  which exceptions leave the function and the loop (C13, C14, C36), and for the
  script the exit status, the two streams and the order of the calls (C17 to
  C22), which command lines are checked and what the others do (C37, C38) and
  that every file opened is closed later (C39). \<open>Scanner\<close> shows that the scan
  reports exactly the prefixes of the text, that it does not ask for the double
  quote of the specification, and that decoding hides no prefix of the file
  and makes one wherever a byte that is not ASCII stands inside it (C24, C25,
  C32, C33); \<open>PyText\<close> that the search is the substring relation (C26).
  \<open>Utf8\<close> measures the decoder against the encoder of RFC 3629, which is
  written without any function of the decoder: the decoded text is the
  encoding of a list of Unicode scalar values, and the encoding of every such
  list passes the decoder unchanged (C27); \<open>Codec\<close> that the decoded text is
  what remains of the bytes (\<open>length_decode_text_le\<close>). \<open>PathLib\<close> and
  \<open>Enumerator\<close> show that well-formedness, stated without the filter of the
  parser, is an invariant of parsing and appending, that printing and parsing
  are inverse on well-formed paths, and what the path of the hook script is
  (C29 to C31). \<open>WinPath\<close> shows the same for the Windows flavour: parsing
  and appending yield well-formed paths (\<open>wf_windows_parse\<close>,
  \<open>wf_windows_truediv\<close>) and the path of the hook script is written with
  backslashes only (C28); printing and parsing are not inverse under this
  flavour (\<open>windows_no_roundtrip\<close>). On arguments without a drive the two
  flavours ask for the same files (C40), and the check reads the flavour
  through three strings only (\<open>check_same_strings\<close>).

  \<^bold>\<open>What holds by construction.\<close> A second run of the check returns what
  the first returned, and the check writes nothing: the answers of a world are
  fields that no call of the model changes, because the code has no statement
  that writes a file or keeps a value between two calls. These are facts of
  the model and are not among the properties.

  \<^bold>\<open>Where the code and its documents part.\<close> The code searches for
  \<open>//?/\<close>, the specification names the pattern with a double quote after it
  (C32). The tests for existence are outside every \<open>try\<close>: an \<open>OSError\<close> of
  \<open>os.stat\<close> other than the four that \<open>Path.exists\<close> swallows leaves
  \<open>check_conda_environment\<close> (C13, C14). The success line starts with U+2713,
  which an encoder such as cp1252 rejects: a clean environment then ends with
  exit status 1 (C21). \<open>conda-meta\<close> may be a regular file (C34). The path of
  the hook script is relative when the environment path is (C31).

  \<^bold>\<open>Bounds and fuel.\<close> There are none: every loop of the program runs over
  a list and is a structural recursion, and file contents are lists of any
  length. Two tables are those of one version: the decimal digits of
  \<open>ArgParse\<close> are the characters of category Nd of Unicode 14, and
  \<open>argparse\<close> and \<open>pathlib\<close> are those of CPython 3.11. The Windows flavour
  compares two drives through \<open>str.lower\<close>, which is a parameter of the
  instance: the lemmas hold for every such function, and the examples are
  evaluated with the one on ASCII letters.

  \<^bold>\<open>What is not modelled.\<close> Exceptions other than \<open>OSError\<close> and
  \<open>UnicodeEncodeError\<close>: the handler of the scanner is \<open>except Exception\<close>
  and treats every exception of the block alike, so another class (a
  \<open>ValueError\<close> for a path with a null character) is an \<open>OSError\<close> with its
  text in the model; what is no \<open>Exception\<close> (\<open>KeyboardInterrupt\<close>) is not a
  world of the model. The text \<open>argparse\<close> formats for its help
  and its errors (it depends on the name of the program and on the width of the
  terminal): the model records which message is written. The text of a
  traceback. Changes of the file system while the script runs: the answers of
  a world are fixed, but no relation between \<open>stat_of\<close> and \<open>data_of\<close> is
  assumed, so a file that is there when tested and gone when opened is a world
  of the model. The file system itself: which strings name the same file
  (case, links, the current directory) is left to the world, whose answers are
  given per string. A \<open>print\<close> fails in the model only as the encoder of
  standard output fails; a closed or broken stream is not a world of the model.

  \<^bold>\<open>Plan.\<close> Done: the checker, the scanner, the reporter and the
  process, the decoder, the two flavours of \<open>pathlib\<close>, the discipline of the
  calls, the command line. Open: file systems as trees, with \<open>stat_of\<close> and
  \<open>data_of\<close> derived from the tree, so that the properties speak of
  directories and not of answers.
\<close>

section \<open>Scenarios\<close>

text \<open>
  A console that encodes ASCII only: \<open>print\<close> to standard output raises on a
  line with any other character.
\<close>

definition ascii_console :: "world \<Rightarrow> world" where
  "ascii_console w = w\<lparr>stdout_accepts := list_all (\<lambda>c. of_char c < (128 :: nat))\<rparr>"

text \<open>
  The environment of the argument \<open>env_path\<close> under the flavour \<open>L\<close>: the
  directory, its \<open>conda-meta\<close> directory and the hook script, whose file
  answers \<open>io\<close> when it is opened and read.
\<close>

definition env_at :: "'p pathlib \<Rightarrow> pystr \<Rightarrow> file_io \<Rightarrow> world" where
  "env_at L env_path io =
     mk_world
       [(env_root L env_path, IsDir), (env_meta L env_path, IsDir),
        (env_hook L env_path, IsFile)]
       [(env_hook L env_path, io)]"

lemma ascii_console_fields [simp]:
  "stat_of (ascii_console w) = stat_of w"
  "data_of (ascii_console w) = data_of w"
  "trace (ascii_console w) = trace w"
  by (simp_all add: ascii_console_def)

lemma ascii_console_answers [simp]:
  "is_dir_at (ascii_console w) p = is_dir_at w p"
  "exists_at (ascii_console w) p = exists_at w p"
  by (simp_all add: stat_at_defs)

lemma ascii_console_accepts:
  "stdout_accepts (ascii_console w) (msg_checking ''env'')"
  "\<not> stdout_accepts (ascii_console w) msg_ok"
  by (simp_all add: ascii_console_def msg_defs check_mark_def)

lemma env_with_accepts [simp]: "stdout_accepts (env_with io) line"
  by (simp add: env_with_def)

lemma env_with_silent [simp]:
  "stdout_of (env_with io) = []" "stderr_of (env_with io) = []" "trace (env_with io) = []"
  by (simp_all add: env_with_def stdout_of_def stderr_of_def)

lemma mk_world_silent [simp]:
  "stdout_of (mk_world stats files) = []" "stderr_of (mk_world stats files) = []"
  by (simp_all add: stdout_of_def stderr_of_def)

lemma clean_env_result:
  "env_result posix (env_with (Bytes ''ok'')) ''env'' = Inr (True, [])"
  by (simp add: env_result_valid view_file_ContentI decode_eval scan_eval)

section \<open>The scan of a valid environment\<close>

text \<open>
  C7. In a valid environment whose hook script does not exist, the result is
  failure with the one issue \<open>File does not exist:\<close> and the path of the
  script: absence is reported, not skipped.
\<close>

theorem missing_hook_is_an_issue:
  assumes "is_dir_at w (env_root L env_path)" and "exists_at w (env_meta L env_path)"
      and "stat_of w (env_hook L env_path) = NoEntry"
  shows "fst (check_conda_environment L w env_path) =
           Inr (False, [''File does not exist: '' @ env_hook L env_path])"
proof -
  from assms(1,2) obtain fp where fp: "fspath L fp = env_hook L env_path"
    and r: "fst (check_conda_environment L w env_path) =
      result_of_issues (fst (check_file_for_extended_paths L w fp))"
    by (rule check_valid_environment)
  from assms(3) fp have "fst (check_file_for_extended_paths L w fp) =
      Inr [msg_file_missing (env_hook L env_path)]"
    using check_file_missing [of w L fp] by simp
  with r show ?thesis by (simp add: msg_defs)
qed

theorem missing_hook_is_an_issue_witness:
  "fst (check_conda_environment posix
          (mk_world [(''env'', IsDir), (''env/conda-meta'', IsDir)] []) ''env'') =
     Inr (False, [''File does not exist: env/shell/condabin/conda-hook.ps1''])"
  using missing_hook_is_an_issue
    [of "mk_world [(''env'', IsDir), (''env/conda-meta'', IsDir)] []" posix "''env''"]
  by (simp add: stat_at_defs hook_def)

text \<open>
  C8. In a valid environment whose hook script contains \<open>//?/\<close> and not the
  backslash form, the result is failure with exactly one issue, which names
  that prefix and the path of the script.
\<close>

theorem forward_prefix_one_issue:
  assumes "is_dir_at w (env_root L env_path)" and "exists_at w (env_meta L env_path)"
      and "exists_at w (env_hook L env_path)"
      and "data_of w (env_hook L env_path) = Bytes bs"
      and "contains fwd_prefix (decode_text bs)"
      and "\<not> contains bwd_prefix (decode_text bs)"
  shows "fst (check_conda_environment L w env_path) =
           Inr (False, [''Found //?/ extended-length path prefix in '' @ env_hook L env_path])"
  using assms
  by (simp add: check_conda_environment_eq env_result_valid view_file_ContentI
      scan_content_cases msg_defs)

theorem forward_prefix_one_issue_witness:
  "fst (check_conda_environment posix (env_with (Bytes ''cd //?/C:/env'')) ''env'') =
     Inr (False, [''Found //?/ extended-length path prefix in '' @ hook])"
  using forward_prefix_one_issue
    [of "env_with (Bytes ''cd //?/C:/env'')" posix "''env''" "''cd //?/C:/env''"]
  by (simp add: decode_eval scan_eval)

text \<open>
  C9. In a valid environment whose hook script contains both prefixes, the
  result is failure with exactly two issues, the one for \<open>//?/\<close> first and the
  one for the backslash form second, whatever the order of the prefixes in the
  file.
\<close>

theorem both_prefixes_two_issues:
  assumes "is_dir_at w (env_root L env_path)" and "exists_at w (env_meta L env_path)"
      and "exists_at w (env_hook L env_path)"
      and "data_of w (env_hook L env_path) = Bytes bs"
      and "contains fwd_prefix (decode_text bs)"
      and "contains bwd_prefix (decode_text bs)"
  shows "fst (check_conda_environment L w env_path) =
           Inr (False, [msg_found_fwd (env_hook L env_path), msg_found_bwd (env_hook L env_path)])"
  using assms
  by (simp add: check_conda_environment_eq env_result_valid view_file_ContentI
      scan_content_cases)

theorem both_prefixes_two_issues_witness:
  "fst (check_conda_environment posix (env_with (Bytes (bwd_prefix @ ''C: //?/D:''))) ''env'') =
     Inr (False, [msg_found_fwd hook, msg_found_bwd hook])"
  using both_prefixes_two_issues
    [of "env_with (Bytes (bwd_prefix @ ''C: //?/D:''))" posix "''env''" "bwd_prefix @ ''C: //?/D:''"]
  by (simp add: decode_eval scan_eval)

text \<open>
  C10. In a valid environment whose hook script exists and cannot be opened or
  read, the exception is caught: the result is failure with the one issue
  \<open>Error reading file\<close>, the path and the text of the exception.
\<close>

theorem unreadable_hook_one_issue:
  assumes "is_dir_at w (env_root L env_path)" and "exists_at w (env_meta L env_path)"
      and "exists_at w (env_hook L env_path)"
      and "data_of w (env_hook L env_path) = OpenFails e \<or>
           data_of w (env_hook L env_path) = ReadFails e"
  shows "fst (check_conda_environment L w env_path) =
           Inr (False, [''Error reading file '' @ env_hook L env_path @ '': '' @ exn_str e])"
proof -
  from assms(1,2) obtain fp where fp: "fspath L fp = env_hook L env_path"
    and r: "fst (check_conda_environment L w env_path) =
      result_of_issues (fst (check_file_for_extended_paths L w fp))"
    by (rule check_valid_environment)
  from assms(3,4) fp have "fst (check_file_for_extended_paths L w fp) =
      Inr [msg_read_error (env_hook L env_path) e]"
    using check_file_unreadable [of w L fp e] by simp
  with r show ?thesis by (simp add: msg_defs)
qed

theorem unreadable_hook_one_issue_witness:
  "fst (check_conda_environment posix (env_with (ReadFails (OSError ''Input/output error'')))
          ''env'') =
     Inr (False, [''Error reading file '' @ hook @ '': Input/output error''])"
  using unreadable_hook_one_issue
    [of "env_with (ReadFails (OSError ''Input/output error''))" posix "''env''"
        "OSError ''Input/output error''"]
  by simp

section \<open>Resources, repetition and exceptions\<close>

text \<open>
  C11. \<open>check_conda_environment\<close> leaves no file open: the files that are open
  after the call are those that were open before it, on every path through the
  function, the one where reading fails included.
\<close>

theorem no_file_left_open:
  "open_files (snd (check_conda_environment L w env_path)) = open_files w"
  by (simp add: check_conda_environment_eq)

text \<open>
  C13. The test for the existence of the hook script is outside the \<open>try\<close>
  block: when \<open>os.stat\<close> on the script raises, \<open>check_conda_environment\<close>
  raises the same exception and returns no result.
\<close>

theorem hook_stat_error_escapes:
  assumes "is_dir_at w (env_root L env_path)" and "exists_at w (env_meta L env_path)"
      and "stat_of w (env_hook L env_path) = StatFails e"
  shows "fst (check_conda_environment L w env_path) = Inl e"
  using assms
  by (simp add: check_conda_environment_eq env_result_valid view_file_StatError_iff [THEN iffD2])

theorem hook_stat_error_escapes_witness:
  "fst (check_conda_environment posix
          (mk_world [(''env'', IsDir), (''env/conda-meta'', IsDir),
                     (hook, StatFails (OSError ''Permission denied''))] []) ''env'') =
     Inl (OSError ''Permission denied'')"
  using hook_stat_error_escapes
    [of "mk_world [(''env'', IsDir), (''env/conda-meta'', IsDir),
                   (hook, StatFails (OSError ''Permission denied''))] []" posix "''env''"
        "OSError ''Permission denied''"]
  by (simp add: stat_at_defs hook_def)

text \<open>
  C14. \<open>check_conda_environment\<close> raises exactly when one of the stat calls it
  reaches raises: on the environment path, on \<open>conda-meta\<close> once the path is a
  directory, on the hook script once the environment is valid. In every other
  world it returns a result.
\<close>

theorem raises_iff:
  "raised (fst (check_conda_environment L w env_path)) \<longleftrightarrow>
     stat_raises w (env_root L env_path) \<or>
     is_dir_at w (env_root L env_path) \<and> stat_raises w (env_meta L env_path) \<or>
     is_dir_at w (env_root L env_path) \<and> exists_at w (env_meta L env_path) \<and>
       stat_raises w (env_hook L env_path)"
proof -
  have "raised (env_result L w env_path) \<longleftrightarrow>
      (case view_env L w env_path of
         EnvStatError e \<Rightarrow> True
       | MetaStatError e \<Rightarrow> True
       | ValidEnv \<Rightarrow> stat_raises w (env_hook L env_path)
       | _ \<Rightarrow> False)"
    by (cases "view_env L w env_path")
      (simp_all add: env_result_def raised_iff_not_returned returned_file_issues_view)
  also have "\<dots> \<longleftrightarrow>
      stat_raises w (env_root L env_path) \<or>
      is_dir_at w (env_root L env_path) \<and> stat_raises w (env_meta L env_path) \<or>
      is_dir_at w (env_root L env_path) \<and> exists_at w (env_meta L env_path) \<and>
        stat_raises w (env_hook L env_path)"
    by (cases "stat_of w (env_root L env_path)"; cases "stat_of w (env_meta L env_path)")
      (simp_all add: view_env_def stat_at_defs)
  finally show ?thesis by (simp add: check_conda_environment_eq)
qed

text \<open>
  C15. A result carries at most two issues, and a failure carries at least one.
\<close>

theorem at_most_two_issues:
  assumes "fst (check_conda_environment L w env_path) = Inr (success, issues)"
  shows "length issues \<le> 2 \<and> (\<not> success \<longrightarrow> 1 \<le> length issues)"
proof
  from assms have r: "result_of_view (view_env L w env_path) env_path
      (files_issues w [env_hook L env_path]) = Inr (success, issues)"
    by (simp add: check_conda_environment_eq env_result_def)
  then show "length issues \<le> 2"
    by (rule length_result_of_view) (auto dest: length_file_issues)
  show "\<not> success \<longrightarrow> 1 \<le> length issues"
  proof
    assume "\<not> success"
    with r have "issues \<noteq> []" by (auto dest: result_of_view_failure_not_Nil)
    then show "1 \<le> length issues" by (cases issues) simp_all
  qed
qed

theorem at_most_two_issues_witness:
  "fst (check_conda_environment posix (env_with (Bytes (bwd_prefix @ ''C: //?/D:''))) ''env'') =
     Inr (False, [msg_found_fwd hook, msg_found_bwd hook]) \<and>
   length [msg_found_fwd hook, msg_found_bwd hook] = 2"
proof -
  have "fst (check_conda_environment posix (env_with (Bytes (bwd_prefix @ ''C: //?/D:''))) ''env'')
      = Inr (False, [msg_found_fwd hook, msg_found_bwd hook])"
    by (simp add: check_conda_environment_eq env_result_valid view_file_ContentI
        decode_eval scan_eval)
  from this at_most_two_issues [OF this] show ?thesis by simp
qed

lemma posix_fspath_parse_hook:
  "fspath posix (posix_parse ''nowhere'') = ''nowhere''"
  "fspath posix (posix_parse hook) = hook"
  by code_simp+

lemma env_with_nowhere:
  "stat_of (env_with io) ''nowhere'' = NoEntry"
  "stat_of (env_with io) hook = IsFile"
  by (simp_all add: env_with_def hook_def)

lemma issues_nowhere:
  "issues_of (env_with io) ''nowhere'' = [msg_file_missing ''nowhere'']"
  by (simp add: issues_of_def view_file_def env_with_nowhere)

lemma issues_hook_denied:
  "issues_of (env_with (OpenFails e)) hook = [msg_read_error hook e]"
  by (simp add: issues_of_def view_file_def env_with_nowhere)

text \<open>
  C16. The loop over the files is the concatenation of the scans of the single
  files, each as if it were scanned alone in the world the loop started in, in
  the order of the list and after what the accumulator held: a file that is
  missing or cannot be read adds its issue and does not stop the loop.
\<close>

theorem scan_files_is_concat:
  assumes "\<forall>f \<in> set files. \<not> stat_raises w (fspath L f)"
  shows "fst (scan_files L w files acc) =
           Inr (acc @ concat (map (\<lambda>f. issues_of w (fspath L f)) files))"
  using assms by (simp add: scan_files_eq files_issues_concat comp_def)

theorem scan_files_is_concat_witness:
  "fst (scan_files posix (env_with (OpenFails (OSError ''denied'')))
          [posix_parse ''nowhere'', posix_parse hook] [''first'']) =
     Inr [''first'', msg_file_missing ''nowhere'', msg_read_error hook (OSError ''denied'')]"
  using scan_files_is_concat
    [of "[posix_parse ''nowhere'', posix_parse hook]" "env_with (OpenFails (OSError ''denied''))"
        posix "[''first'']"]
  by (simp add: posix_fspath_parse_hook stat_raises_def env_with_nowhere issues_nowhere
      issues_hook_denied)

section \<open>The script\<close>

text \<open>
  C17. The exit status of the process. It is 0 exactly when the command line
  asks for help, or names one environment, standard output accepts the two
  lines the script prints there and \<open>check_conda_environment\<close> returns success
  without issues. It is 2 exactly when \<open>parse_args\<close> refuses the command line.
\<close>

theorem exit_zero_iff:
  "(fst (script L w argv) = 0 \<longleftrightarrow>
      parse_result argv = Inl (HelpMessage, 0) \<or>
      (\<exists>env_path. parse_result argv = Inr env_path \<and>
         stdout_accepts w (msg_checking env_path) \<and> stdout_accepts w msg_ok \<and>
         fst (check_conda_environment L w env_path) = Inr (True, []))) \<and>
   (fst (script L w argv) = 2 \<longleftrightarrow> (\<exists>msg. parse_result argv = Inl (msg, 2)))"
proof (cases "parse_result argv")
  case (Inl leave)
  obtain msg status where l: "leave = (msg, status)" by (cases leave)
  with Inl have "status = 0 \<and> msg = HelpMessage \<or> status = 2 \<and> msg \<noteq> HelpMessage"
    by (simp add: parse_result_leave)
  with Inl l show ?thesis by (auto simp: script_eq)
next
  case (Inr env_path)
  then show ?thesis
    by (simp add: script_eq run_script_zero_iff run_script_not_two)
qed

text \<open>
  C18. The exit status of \<open>sys.exit(main())\<close> is 0 or 1, whatever the world
  answers and also when \<open>main\<close> raises.
\<close>

theorem exit_status_zero_or_one: "fst (run_script L w env_path) \<in> {0, 1}"
  using exit_status_report_result [of "stdout_accepts w" "env_result L w env_path"]
  by (simp add: run_script_eq main_result_def)

text \<open>
  C19. A clean run: when the check succeeds and standard output accepts the two
  lines, the script prints \<open>Checking conda environment:\<close> with the path and the
  line with the check mark to standard output, nothing to standard error, and
  exits with status 0.
\<close>

theorem clean_run:
  assumes "fst (check_conda_environment L w env_path) = Inr (True, [])"
      and "stdout_accepts w (msg_checking env_path)" and "stdout_accepts w msg_ok"
  shows "fst (run_script L w env_path) = 0 \<and>
         stdout_of (snd (run_script L w env_path)) =
           stdout_of w @ [msg_checking env_path, msg_ok] \<and>
         stderr_of (snd (run_script L w env_path)) = stderr_of w"
  using assms
  by (simp add: run_script_eq main_result_def main_events_def check_conda_environment_eq)

theorem clean_run_witness:
  "fst (run_script posix (env_with (Bytes ''ok'')) ''env'') = 0 \<and>
   stdout_of (snd (run_script posix (env_with (Bytes ''ok'')) ''env'')) =
     [''Checking conda environment: env'', check_mark @ '' No extended-length path issues found''] \<and>
   stderr_of (snd (run_script posix (env_with (Bytes ''ok'')) ''env'')) = []"
  using clean_run [of posix "env_with (Bytes ''ok'')" "''env''"]
  by (simp add: check_conda_environment_eq clean_env_result msg_defs)

text \<open>
  C20. A failing run: when the check returns issues, the script prints the
  status line to standard output, the header with the cross and one indented
  line for each issue, in their order, to standard error, and exits with
  status 1.
\<close>

theorem failing_run:
  assumes "fst (check_conda_environment L w env_path) = Inr (False, issues)"
      and "stdout_accepts w (msg_checking env_path)"
  shows "fst (run_script L w env_path) = 1 \<and>
         stdout_of (snd (run_script L w env_path)) = stdout_of w @ [msg_checking env_path] \<and>
         stderr_of (snd (run_script L w env_path)) =
           stderr_of w @ msg_header # map (\<lambda>i. ''  - '' @ i) issues"
  using assms
  by (simp add: run_script_eq main_result_def main_events_def check_conda_environment_eq
      msg_bullet_def)

theorem failing_run_witness:
  "fst (run_script posix (mk_world [] []) ''gone'') = 1 \<and>
   stdout_of (snd (run_script posix (mk_world [] []) ''gone'')) =
     [''Checking conda environment: gone''] \<and>
   stderr_of (snd (run_script posix (mk_world [] []) ''gone'')) =
     [ballot_x @ '' Extended-length path issues found:'',
      ''  - Environment path does not exist: gone'']"
proof -
  have "fst (check_conda_environment posix (mk_world [] []) ''gone'') =
      Inr (False, [''Environment path does not exist: gone''])"
    by (simp add: check_conda_environment_eq env_defs stat_at_defs msg_defs)
  from failing_run [OF this] show ?thesis
    by (simp add: msg_defs)
qed

text \<open>
  C21. The success line starts with the check mark U+2713. On a standard output
  whose encoder does not accept that line, the \<open>print\<close> of line 110 raises: the
  script reports a clean environment with exit status 1 and an uncaught
  \<open>UnicodeEncodeError\<close>, and the success line is not printed.
\<close>

theorem check_mark_needs_encoder:
  assumes "fst (check_conda_environment L w env_path) = Inr (True, [])"
      and "stdout_accepts w (msg_checking env_path)" and "\<not> stdout_accepts w msg_ok"
  shows "fst (run_script L w env_path) = 1 \<and>
         stdout_of (snd (run_script L w env_path)) = stdout_of w @ [msg_checking env_path] \<and>
         last (trace (snd (run_script L w env_path))) = EvUncaught (UnicodeEncodeError msg_ok)"
  using assms
  by (simp add: run_script_eq main_result_def main_events_def check_conda_environment_eq)

theorem check_mark_needs_encoder_witness:
  "fst (run_script posix (ascii_console (env_with (Bytes ''ok''))) ''env'') = 1 \<and>
   stdout_of (snd (run_script posix (ascii_console (env_with (Bytes ''ok''))) ''env'')) =
     [''Checking conda environment: env''] \<and>
   last (trace (snd (run_script posix (ascii_console (env_with (Bytes ''ok''))) ''env''))) =
     EvUncaught (UnicodeEncodeError msg_ok)"
proof -
  have "fst (check_conda_environment posix (ascii_console (env_with (Bytes ''ok''))) ''env'') =
      Inr (True, [])"
    by (simp add: check_conda_environment_eq env_result_valid view_file_ContentI
        decode_eval scan_eval)
  from check_mark_needs_encoder [OF this ascii_console_accepts] show ?thesis
    by (simp add: msg_defs stdout_of_def)
qed

text \<open>
  C22. The script prints the status line before it looks at the file system:
  when standard output accepts the line, it is the first event of the run.
\<close>

theorem status_line_first:
  assumes "stdout_accepts w (msg_checking env_path)"
  shows "hd (new_events w (snd (run_script L w env_path))) =
           EvPrint Stdout (msg_checking env_path)"
  using assms by (simp add: run_script_eq main_events_def)

theorem status_line_first_witness:
  "hd (new_events (mk_world [] []) (snd (run_script posix (mk_world [] []) ''gone''))) =
     EvPrint Stdout ''Checking conda environment: gone''"
  using status_line_first [of "mk_world [] []" "''gone''" posix]
  by (simp add: msg_defs)

text \<open>
  C23. The calls of a check of a valid environment with a hook script, in their
  order: \<open>exists\<close> and \<open>is_dir\<close> on the path, \<open>exists\<close> on \<open>conda-meta\<close>,
  \<open>exists\<close> on the script, then open, read and close of the script. The file
  is closed after the read, also when the read raises.
\<close>

theorem calls_of_a_valid_environment:
  assumes "is_dir_at w (env_root L env_path)" and "exists_at w (env_meta L env_path)"
      and "exists_at w (env_hook L env_path)"
      and "\<forall>e. data_of w (env_hook L env_path) \<noteq> OpenFails e"
  shows "new_events w (snd (check_conda_environment L w env_path)) =
           [EvStat (env_root L env_path), EvStat (env_root L env_path),
            EvStat (env_meta L env_path), EvStat (env_hook L env_path),
            EvOpen (env_hook L env_path), EvRead (env_hook L env_path),
            EvClose (env_hook L env_path)]"
  using assms
  by (cases "data_of w (env_hook L env_path)")
    (simp_all add: check_conda_environment_eq env_events_valid file_events_def exists_answer_iff)

theorem calls_of_a_valid_environment_witness:
  "new_events (env_with (ReadFails (OSError ''Input/output error'')))
     (snd (check_conda_environment posix
        (env_with (ReadFails (OSError ''Input/output error''))) ''env'')) =
     [EvStat ''env'', EvStat ''env'', EvStat ''env/conda-meta'', EvStat hook,
      EvOpen hook, EvRead hook, EvClose hook]"
  using calls_of_a_valid_environment
    [of "env_with (ReadFails (OSError ''Input/output error''))" posix "''env''"]
  by simp

section \<open>What counts as an environment\<close>

text \<open>
  C34. The marker of an environment is tested with \<open>exists\<close>, not with
  \<open>is_dir\<close>: a directory in which \<open>conda-meta\<close> is a regular file passes the
  validation, and with a clean hook script the check succeeds.
\<close>

theorem conda_meta_file_accepted:
  assumes "is_dir_at w (env_root L env_path)" and "stat_of w (env_meta L env_path) = IsFile"
      and "exists_at w (env_hook L env_path)" and "data_of w (env_hook L env_path) = Bytes bs"
      and "\<not> contains fwd_prefix (decode_text bs)" and "\<not> contains bwd_prefix (decode_text bs)"
  shows "fst (check_conda_environment L w env_path) = Inr (True, [])"
  using assms
  by (simp add: check_conda_environment_eq env_result_valid exists_at_def view_file_ContentI
      scan_content_def)

theorem conda_meta_file_accepted_witness:
  "fst (check_conda_environment posix
          (mk_world [(''env'', IsDir), (''env/conda-meta'', IsFile), (hook, IsFile)]
             [(hook, Bytes ''ok'')]) ''env'') = Inr (True, [])"
  using conda_meta_file_accepted
    [of "mk_world [(''env'', IsDir), (''env/conda-meta'', IsFile), (hook, IsFile)]
           [(hook, Bytes ''ok'')]" posix "''env''" "''ok''"]
  by (simp add: stat_at_defs hook_def decode_eval scan_eval)

section \<open>The discipline of the calls\<close>

text \<open>
  C35. The calls of the script follow the discipline of files: at every moment
  at most one file is open, only the open file is read, it is closed before
  anything else is done, and no file is open at the end, on every path through
  the script, the one where \<open>main\<close> raises included.
\<close>

theorem script_follows_protocol:
  "run None (new_events w (snd (run_script L w env_path))) None"
  by (simp add: run_script_eq)

text \<open>
  C36. The loop over the files stops at the first file whose test for
  existence raises: the exception leaves the loop, the issues found so far are
  lost, and no later file is looked at.
\<close>

theorem scan_files_stops_at_raise:
  assumes "\<forall>f \<in> set pre. \<not> stat_raises w (fspath L f)"
      and "stat_of w (fspath L f) = StatFails e"
  shows "scan_files L w (pre @ f # post) acc =
           (Inl e, log w (files_events w (map (fspath L) pre) @ [EvStat (fspath L f)]))"
proof -
  from assms(1) have "returned (files_issues w (map (fspath L) pre))"
    by (simp add: returned_files_issues_iff)
  from files_raise_at [OF this assms(2)] show ?thesis by (simp add: scan_files_eq)
qed

theorem scan_files_stops_at_raise_witness:
  "scan_files posix
     (mk_world [(''a'', StatFails (OSError ''Permission denied'')), (''b'', IsFile)] [])
     [PosixPath [] [''gone''], PosixPath [] [''a''], PosixPath [] [''b'']] [] =
   (Inl (OSError ''Permission denied''),
    log (mk_world [(''a'', StatFails (OSError ''Permission denied'')), (''b'', IsFile)] [])
      [EvStat ''gone'', EvStat ''a''])"
  using scan_files_stops_at_raise
    [of "[PosixPath [] [''gone'']]"
        "mk_world [(''a'', StatFails (OSError ''Permission denied'')), (''b'', IsFile)] []"
        posix "PosixPath [] [''a'']" "OSError ''Permission denied''"
        "[PosixPath [] [''b'']]" "[]"]
  by (simp add: posix_def posix_str_def stat_raises_def file_events_def)

section \<open>The command line\<close>

text \<open>
  C37. The script checks a path for three shapes of command line and no other:
  one argument that is positional, the same followed by \<open>--\<close>, and \<open>--\<close>
  followed by any one argument. It then runs as \<open>main\<close> does on that path.
\<close>

theorem script_checks_iff:
  "(parse_result argv = Inr p \<longleftrightarrow>
      (classify p = Positional \<and> p \<noteq> dashdash \<and> (argv = [p] \<or> argv = [p, dashdash])) \<or>
      argv = [dashdash, p]) \<and>
   (parse_result argv = Inr p \<longrightarrow> script L w argv = run_script L w p)"
  using parse_result_Inr_iff [of argv p] by (simp add: script_parsed)

theorem script_checks_iff_witness:
  "parse_result [''C:/envs/base''] = Inr ''C:/envs/base'' \<and>
   script posix (mk_world [] []) [''C:/envs/base''] =
     run_script posix (mk_world [] []) ''C:/envs/base''"
  using script_checks_iff [of "[''C:/envs/base'']" "''C:/envs/base''" posix "mk_world [] []"]
  by simp

text \<open>
  C38. Every other command line ends the process before anything is checked:
  \<open>argparse\<close> writes one message, no file is tested or opened, nothing is
  printed by the script, and the exit status is 0 for the help message and 2
  for an error.
\<close>

theorem usage_error_checks_nothing:
  assumes "parse_result argv = Inl (msg, status)"
  shows "script L w argv = (status, log w [EvUsage msg]) \<and>
         (status = 0 \<and> msg = HelpMessage \<or> status = 2 \<and> msg \<noteq> HelpMessage)"
  using assms parse_result_leave [OF assms] by (simp add: script_usage)

theorem usage_error_checks_nothing_witness:
  "script posix (mk_world [] []) [] = (2, log (mk_world [] []) [EvUsage ArgumentsRequired]) \<and>
   script posix (mk_world [] []) [''env'', ''-h''] =
     (0, log (mk_world [] []) [EvUsage HelpMessage]) \<and>
   script posix (mk_world [] []) [''-v'', ''env''] =
     (2, log (mk_world [] []) [EvUsage (UnrecognizedArguments [''-v''])])"
proof -
  have "parse_result [] = Inl (ArgumentsRequired, 2)"
    and "parse_result [''env'', ''-h''] = Inl (HelpMessage, 0)"
    and "parse_result [''-v'', ''env''] = Inl (UnrecognizedArguments [''-v''], 2)"
    by (simp_all add: argparse_eval)
  then show ?thesis
    using usage_error_checks_nothing [of "[]" ArgumentsRequired 2 posix "mk_world [] []"]
      usage_error_checks_nothing [of "[''env'', ''-h'']" HelpMessage 0 posix "mk_world [] []"]
      usage_error_checks_nothing
        [of "[''-v'', ''env'']" "UnrecognizedArguments [''-v'']" 2 posix "mk_world [] []"]
    by simp
qed

section \<open>Progress\<close>

text \<open>
  C39. Every file the script opens it closes later: for each \<open>open\<close> in the
  calls of a run there is a later \<open>close\<close> of the same file, whatever the
  arguments and the world are.
\<close>

theorem every_open_is_closed:
  assumes "i < length (new_events w (snd (script L w argv)))"
      and "new_events w (snd (script L w argv)) ! i = EvOpen p"
  shows "\<exists>j. i < j \<and> j < length (new_events w (snd (script L w argv))) \<and>
             new_events w (snd (script L w argv)) ! j = EvClose p"
  using run_script_events assms by (rule run_open_closed)

theorem every_open_is_closed_witness:
  "new_events (env_with (Bytes ''ok'')) (snd (script posix (env_with (Bytes ''ok'')) [''env''])) ! 5
     = EvOpen hook \<and>
   (\<exists>j. 5 < j \<and>
      j < length (new_events (env_with (Bytes ''ok''))
                   (snd (script posix (env_with (Bytes ''ok'')) [''env'']))) \<and>
      new_events (env_with (Bytes ''ok'')) (snd (script posix (env_with (Bytes ''ok'')) [''env'']))
        ! j = EvClose hook)"
proof -
  have e: "new_events (env_with (Bytes ''ok''))
      (snd (script posix (env_with (Bytes ''ok'')) [''env''])) =
      [EvPrint Stdout (msg_checking ''env''), EvStat ''env'', EvStat ''env'',
       EvStat ''env/conda-meta'', EvStat hook, EvOpen hook, EvRead hook, EvClose hook,
       EvPrint Stdout msg_ok]"
    by (simp add: script_parsed parse_result_single run_script_eq main_events_def
        main_result_def clean_env_result env_events_valid file_events_def exists_answer_iff)
  from every_open_is_closed [of 5 "env_with (Bytes ''ok'')" posix "[''env'']" hook]
  show ?thesis by (simp add: e)
qed

text \<open>
  C12. The script stops: a run makes at most eleven calls, and it ends with
  exit status 0, 1 or 2.
\<close>

theorem script_halts:
  "length (new_events w (snd (script L w argv))) \<le> 11 \<and> fst (script L w argv) \<in> {0, 1, 2}"
proof (cases "parse_result argv")
  case (Inl leave)
  obtain msg status where "leave = (msg, status)" by (cases leave)
  with Inl parse_result_leave [of argv msg status] show ?thesis by (auto simp: script_eq)
next
  case (Inr p)
  have "exit_status r \<in> {0, 1}" if "r = main_result L w p" for r
    using that
    by (cases "(stdout_accepts w, env_result L w p)" rule: report_result.cases)
      (auto simp: main_result_def)
  with Inr length_run_script_events [of L w p] show ?thesis
    by (auto simp: script_eq run_script_eq)
qed

section \<open>The flavour of the paths\<close>

text \<open>
  The check reads the flavour through three strings only: the path of the
  environment, of its \<open>conda-meta\<close> entry and of the hook script. Two flavours
  that print these alike give the same result and the same calls.
\<close>

lemma check_same_strings:
  assumes "env_root L env_path = env_root L' env_path"
    and "env_meta L env_path = env_meta L' env_path"
    and "env_hook L env_path = env_hook L' env_path"
  shows "check_conda_environment L w env_path = check_conda_environment L' w env_path"
  using assms
  by (simp add: check_conda_environment_eq env_result_def env_events_def view_env_def)

lemma env_at_answers [simp]:
  "is_dir_at (env_at L env_path io) (env_root L env_path)"
  "exists_at (env_at L env_path io) (env_meta L env_path)"
  "exists_at (env_at L env_path io) (env_hook L env_path)"
  "data_of (env_at L env_path io) (env_hook L env_path) = io"
  "stdout_accepts (env_at L env_path io) line"
  by (simp_all add: env_at_def stat_at_defs)

lemma env_at_silent [simp]:
  "stdout_of (env_at L env_path io) = []" "stderr_of (env_at L env_path io) = []"
  "trace (env_at L env_path io) = []"
  by (simp_all add: env_at_def stdout_of_def stderr_of_def)

lemma same_path_targets:
  assumes "same_path wp pp"
  shows "windows_str wp = map to_sep (posix_str pp)"
    and "windows_str (windows_truediv lower wp ''conda-meta'') =
      map to_sep (posix_str (posix_truediv pp ''conda-meta''))"
    and "hook_path (windows lower) wp = map to_sep (hook_path posix pp)"
proof -
  have "wf_wname ''conda-meta''" by (simp add: wf_wname_def)
  with assms have "same_path (windows_truediv lower wp ''conda-meta'')
      (posix_truediv pp ''conda-meta'')"
    by (intro same_path_truediv) simp_all
  with assms show "windows_str wp = map to_sep (posix_str pp)"
    and "windows_str (windows_truediv lower wp ''conda-meta'') =
      map to_sep (posix_str (posix_truediv pp ''conda-meta''))"
    and "hook_path (windows lower) wp = map to_sep (hook_path posix pp)"
    by (simp_all add: same_path_str same_path_hook)
qed

text \<open>
  C40. The two flavours ask for the same files. For an argument without a
  backslash that names no drive (its second character is no colon) and does not
  start with exactly two slashes, the three paths the check asks the operating
  system for under the Windows flavour (the environment, its \<open>conda-meta\<close>
  entry, the hook script) are those under the POSIX flavour with every slash
  replaced by a backslash.
\<close>

theorem flavours_agree:
  assumes "backslash \<notin> set env_path" and "take 1 (drop 1 env_path) \<noteq> '':''"
    and "anchor (make_path posix env_path) \<noteq> ''//''"
  shows "env_root (windows lower) env_path = map to_sep (env_root posix env_path) \<and>
         env_meta (windows lower) env_path = map to_sep (env_meta posix env_path) \<and>
         env_hook (windows lower) env_path = map to_sep (env_hook posix env_path)"
proof -
  from assms have "same_path (windows_parse env_path) (posix_parse env_path)"
    by (simp add: same_path_parse posix_fields)
  from same_path_targets [OF this] show ?thesis
    by (simp add: env_root_def env_meta_def env_hook_def posix_fields)
qed

theorem flavours_agree_witness:
  "env_root (windows ascii_lower) ''/opt/envs/e'' = backslash # ''opt'' @ backslash # ''envs'' @ backslash # ''e'' \<and>
   env_root posix ''/opt/envs/e'' = ''/opt/envs/e'' \<and>
   env_hook (windows ascii_lower) ''/opt/envs/e'' =
     map to_sep ''/opt/envs/e/shell/condabin/conda-hook.ps1''"
proof -
  have "env_root posix ''/opt/envs/e'' = ''/opt/envs/e''"
    "env_hook posix ''/opt/envs/e'' = ''/opt/envs/e/shell/condabin/conda-hook.ps1''"
    "anchor (make_path posix ''/opt/envs/e'') = ''/''"
    by code_simp+
  with flavours_agree [of "''/opt/envs/e''" ascii_lower] show ?thesis
    by (simp add: to_sep_def)
qed

text \<open>
  The script on Windows, called with \<open>C:/envs/e\<close> for an environment whose
  hook script holds the backslash prefix: the three paths it asks for are
  written with backslashes, the status line quotes the argument as given, and
  the issue names the file as \<open>pathlib\<close> prints it.
\<close>

lemma windows_targets:
  "env_root (windows ascii_lower) ''C:/envs/e'' = ''C:'' @ backslash # ''envs'' @ backslash # ''e''"
  "env_meta (windows ascii_lower) ''C:/envs/e'' =
     ''C:'' @ backslash # ''envs'' @ backslash # ''e'' @ backslash # ''conda-meta''"
  "env_hook (windows ascii_lower) ''C:/envs/e'' =
     ''C:'' @ backslash # ''envs'' @ backslash # ''e'' @ backslash # ''shell'' @
     backslash # ''condabin'' @ backslash # ''conda-hook.ps1''"
  by code_simp+

lemma windows_run:
  "fst (script (windows ascii_lower)
     (env_at (windows ascii_lower) ''C:/envs/e'' (Bytes bwd_prefix)) [''C:/envs/e'']) = 1"
  "stdout_of (snd (script (windows ascii_lower)
     (env_at (windows ascii_lower) ''C:/envs/e'' (Bytes bwd_prefix)) [''C:/envs/e''])) =
     [''Checking conda environment: C:/envs/e'']"
  "stderr_of (snd (script (windows ascii_lower)
     (env_at (windows ascii_lower) ''C:/envs/e'' (Bytes bwd_prefix)) [''C:/envs/e''])) =
     [msg_header, msg_bullet (msg_found_bwd (env_hook (windows ascii_lower) ''C:/envs/e''))]"
proof -
  have p: "parse_result [''C:/envs/e''] = Inr ''C:/envs/e''"
    by (simp add: parse_result_single)
  have r: "env_result (windows ascii_lower)
      (env_at (windows ascii_lower) ''C:/envs/e'' (Bytes bwd_prefix)) ''C:/envs/e'' =
      Inr (False, [msg_found_bwd (env_hook (windows ascii_lower) ''C:/envs/e'')])"
    by (simp add: env_result_valid view_file_ContentI decode_eval scan_eval)
  show "fst (script (windows ascii_lower)
     (env_at (windows ascii_lower) ''C:/envs/e'' (Bytes bwd_prefix)) [''C:/envs/e'']) = 1"
    by (simp add: script_parsed [OF p] run_script_eq main_result_def r)
  show "stdout_of (snd (script (windows ascii_lower)
     (env_at (windows ascii_lower) ''C:/envs/e'' (Bytes bwd_prefix)) [''C:/envs/e''])) =
     [''Checking conda environment: C:/envs/e'']"
    by (simp add: script_parsed [OF p] run_script_eq main_result_def main_events_def r
        stdout_of_def msg_checking_def)
  show "stderr_of (snd (script (windows ascii_lower)
     (env_at (windows ascii_lower) ''C:/envs/e'' (Bytes bwd_prefix)) [''C:/envs/e''])) =
     [msg_header, msg_bullet (msg_found_bwd (env_hook (windows ascii_lower) ''C:/envs/e''))]"
    by (simp add: script_parsed [OF p] run_script_eq main_result_def main_events_def r
        stderr_of_def)
qed

end
